(* ===== verification/Relay_Prelude.thy ===== *)
theory Relay_Prelude
  imports Main "HOL-Library.Word" "HOL-Library.Char_ord" "HOL-Library.List_Lexorder"
    "HOL-Library.Product_Lexorder"
begin

text \<open>
  The shared vocabulary of the development.

  \<^item> Rust's \<open>Result\<close> as a sum type (\<open>Inl\<close> is the error) with its early return \<open>and_then\<close>,
    the model of the question mark operator.
  \<^item> Rust's 64-bit signed integers as \<open>int\<close> with the wrapping, saturating and checked
    additions of the source written out; unsigned integers as words with \<open>checked_add\<close>
    and \<open>saturating_add\<close>.
  \<^item> Rust's \<open>str\<close> as the list of its bytes (\<open>string\<close>), with the UTF-8 decoding behind
    \<open>chars()\<close> and the character classes the source tests.
  \<^item> A database table as the list of its rows, with \<open>UPDATE .. WHERE\<close>,
    \<open>SELECT .. ORDER BY .. LIMIT\<close> and \<open>DELETE .. WHERE\<close> as functions on it.
  \<^item> Three interfaces used by the components: a self-delimiting encoding of values into bytes,
    a transition system with an invariant, and work fenced by claims.
\<close>

named_theorems i64_simps \<open>unfolding of the i64 range and its arithmetic\<close>
named_theorems table_simps \<open>rules for tables as lists of rows\<close>

section \<open>Results and early return\<close>

definition and_then :: "'e + 'a \<Rightarrow> ('a \<Rightarrow> 'e + 'b) \<Rightarrow> 'e + 'b" where
  "and_then r f = (case r of Inl e \<Rightarrow> Inl e | Inr v \<Rightarrow> f v)"

primrec is_some_and :: "('a \<Rightarrow> bool) \<Rightarrow> 'a option \<Rightarrow> bool" where
  "is_some_and p None = False"
| "is_some_and p (Some x) = p x"

primrec ok_or :: "'e \<Rightarrow> 'a option \<Rightarrow> 'e + 'a" where
  "ok_or e None = Inl e"
| "ok_or e (Some v) = Inr v"

definition map_err :: "'f \<Rightarrow> 'e + 'a \<Rightarrow> 'f + 'a" where
  "map_err e r = (case r of Inl _ \<Rightarrow> Inl e | Inr v \<Rightarrow> Inr v)"

text \<open>A check on every element, in order, that stops at the first error.\<close>

primrec each_ok :: "('a \<Rightarrow> 'e + unit) \<Rightarrow> 'a list \<Rightarrow> 'e + unit" where
  "each_ok f [] = Inr ()"
| "each_ok f (x # xs) = and_then (f x) (\<lambda>_. each_ok f xs)"

definition ensure :: "'e \<Rightarrow> bool \<Rightarrow> 'e + unit" where
  "ensure e b = (if b then Inr () else Inl e)"

text \<open>
  A stateful operation returns its state beside its result, because an error after a committed
  statement keeps what the statement wrote.
\<close>

type_synonym ('s, 'e, 'a) effect = "'s \<times> ('e + 'a)"

definition st_then :: "('s, 'e, 'a) effect \<Rightarrow> ('s \<Rightarrow> 'a \<Rightarrow> ('s, 'e, 'b) effect) \<Rightarrow> ('s, 'e, 'b) effect" where
  "st_then m f = (case m of (s, Inl e) \<Rightarrow> (s, Inl e) | (s, Inr v) \<Rightarrow> f s v)"

section \<open>Integers\<close>

type_synonym i64 = int
type_synonym u64 = "64 word"
type_synonym u32 = "32 word"
type_synonym u16 = "16 word"
type_synonym u8 = "8 word"

definition i64_min :: int where "i64_min = - (2 ^ 63)"
definition i64_max :: int where "i64_max = 2 ^ 63 - 1"

definition in_i64 :: "int \<Rightarrow> bool" where
  "in_i64 x \<longleftrightarrow> i64_min \<le> x \<and> x \<le> i64_max"

definition wrap_i64 :: "int \<Rightarrow> i64" where
  "wrap_i64 x = (x + 2 ^ 63) mod 2 ^ 64 - 2 ^ 63"

definition i64_add :: "i64 \<Rightarrow> i64 \<Rightarrow> i64" where
  "i64_add a b = wrap_i64 (a + b)"

definition i64_sub :: "i64 \<Rightarrow> i64 \<Rightarrow> i64" where
  "i64_sub a b = wrap_i64 (a - b)"

definition i64_saturating :: "int \<Rightarrow> i64" where
  "i64_saturating x = max i64_min (min i64_max x)"

definition i64_saturating_add :: "i64 \<Rightarrow> i64 \<Rightarrow> i64" where
  "i64_saturating_add a b = i64_saturating (a + b)"

definition i64_saturating_sub :: "i64 \<Rightarrow> i64 \<Rightarrow> i64" where
  "i64_saturating_sub a b = i64_saturating (a - b)"

definition i64_checked_add :: "i64 \<Rightarrow> i64 \<Rightarrow> i64 option" where
  "i64_checked_add a b = (if in_i64 (a + b) then Some (a + b) else None)"

definition u_checked_add :: "'a::len word \<Rightarrow> 'a word \<Rightarrow> 'a word option" where
  "u_checked_add a b = (if unat a + unat b < 2 ^ LENGTH('a) then Some (a + b) else None)"

definition u_saturating_add :: "'a::len word \<Rightarrow> 'a word \<Rightarrow> 'a word" where
  "u_saturating_add a b = (if unat a + unat b < 2 ^ LENGTH('a) then a + b else - 1)"

definition u_saturating_sub :: "'a::len word \<Rightarrow> 'a word \<Rightarrow> 'a word" where
  "u_saturating_sub a b = (if b \<le> a then a - b else 0)"

section \<open>Strings\<close>

definition byte_of :: "char \<Rightarrow> nat" where
  "byte_of c = of_char c"

definition ascii_upper :: "char \<Rightarrow> bool" where
  "ascii_upper c \<longleftrightarrow> 65 \<le> byte_of c \<and> byte_of c \<le> 90"

definition ascii_lower :: "char \<Rightarrow> bool" where
  "ascii_lower c \<longleftrightarrow> 97 \<le> byte_of c \<and> byte_of c \<le> 122"

definition ascii_digit :: "char \<Rightarrow> bool" where
  "ascii_digit c \<longleftrightarrow> 48 \<le> byte_of c \<and> byte_of c \<le> 57"

definition ascii_alphanumeric :: "char \<Rightarrow> bool" where
  "ascii_alphanumeric c \<longleftrightarrow> ascii_upper c \<or> ascii_lower c \<or> ascii_digit c"

definition lower_hex :: "char \<Rightarrow> bool" where
  "lower_hex c \<longleftrightarrow> ascii_digit c \<or> (97 \<le> byte_of c \<and> byte_of c \<le> 102)"

fun utf8_encode1 :: "nat \<Rightarrow> string" where
  "utf8_encode1 n =
     (if n < 128 then [char_of n]
      else if n < 2048 then [char_of (192 + n div 64), char_of (128 + n mod 64)]
      else if n < 65536 then
        [char_of (224 + n div 4096), char_of (128 + n div 64 mod 64), char_of (128 + n mod 64)]
      else
        [char_of (240 + n div 262144), char_of (128 + n div 4096 mod 64),
         char_of (128 + n div 64 mod 64), char_of (128 + n mod 64)])"

declare utf8_encode1.simps [simp del]

definition utf8_encode :: "nat list \<Rightarrow> string" where
  "utf8_encode cs = concat (map utf8_encode1 cs)"

fun utf8_decode :: "string \<Rightarrow> nat list" where
  "utf8_decode [] = []"
| "utf8_decode (a # s) =
     (if byte_of a < 128 then byte_of a # utf8_decode s
      else if byte_of a < 224 then
        (case s of b # s' \<Rightarrow>
           ((byte_of a - 192) * 64 + (byte_of b - 128)) # utf8_decode s'
         | _ \<Rightarrow> [])
      else if byte_of a < 240 then
        (case s of b # c # s' \<Rightarrow>
           ((byte_of a - 224) * 4096 + (byte_of b - 128) * 64 + (byte_of c - 128)) # utf8_decode s'
         | _ \<Rightarrow> [])
      else
        (case s of b # c # d # s' \<Rightarrow>
           ((byte_of a - 240) * 262144 + (byte_of b - 128) * 4096 + (byte_of c - 128) * 64
              + (byte_of d - 128)) # utf8_decode s'
         | _ \<Rightarrow> []))"

definition chars_count :: "string \<Rightarrow> nat" where
  "chars_count s = length (utf8_decode s)"

definition is_control :: "nat \<Rightarrow> bool" where
  "is_control n \<longleftrightarrow> n < 32 \<or> (127 \<le> n \<and> n < 160)"

definition is_whitespace :: "nat \<Rightarrow> bool" where
  "is_whitespace n \<longleftrightarrow>
     (9 \<le> n \<and> n \<le> 13) \<or> n = 32 \<or> n = 133 \<or> n = 160 \<or> n = 5760 \<or> (8192 \<le> n \<and> n \<le> 8202)
     \<or> n = 8232 \<or> n = 8233 \<or> n = 8239 \<or> n = 8287 \<or> n = 12288"

definition trim_chars :: "nat list \<Rightarrow> nat list" where
  "trim_chars cs = rev (dropWhile is_whitespace (rev (dropWhile is_whitespace cs)))"

text \<open>Non-empty text of visible ASCII characters.\<close>

definition printable :: "string \<Rightarrow> bool" where
  "printable s \<longleftrightarrow> s \<noteq> [] \<and> list_all (\<lambda>c. 32 < byte_of c \<and> byte_of c < 127) s"

text \<open>
  Well-formed UTF-8, the check of \<open>String::from_utf8\<close>: the bytes are the encoding of scalar values,
  which rules out overlong forms and surrogates.
\<close>

definition scalar_value :: "nat \<Rightarrow> bool" where
  "scalar_value n \<longleftrightarrow> n < 55296 \<or> (57344 \<le> n \<and> n < 1114112)"

definition utf8_valid :: "string \<Rightarrow> bool" where
  "utf8_valid s \<longleftrightarrow> list_all scalar_value (utf8_decode s) \<and> utf8_encode (utf8_decode s) = s"

definition strip_prefix :: "string \<Rightarrow> string \<Rightarrow> string option" where
  "strip_prefix p s = (if take (length p) s = p then Some (drop (length p) s) else None)"

definition hex_digit :: "nat \<Rightarrow> char" where
  "hex_digit n = char_of (if n < 10 then 48 + n else 87 + n)"

definition hex_encode :: "string \<Rightarrow> string" where
  "hex_encode bs = concat (map (\<lambda>b. [hex_digit (byte_of b div 16), hex_digit (byte_of b mod 16)]) bs)"

primrec split_on :: "char \<Rightarrow> string \<Rightarrow> string list" where
  "split_on c [] = [[]]"
| "split_on c (x # xs) =
     (if x = c then [] # split_on c xs
      else (case split_on c xs of [] \<Rightarrow> [[x]] | y # ys \<Rightarrow> (x # y) # ys))"

section \<open>Big-endian byte encodings\<close>

primrec be_bytes :: "nat \<Rightarrow> nat \<Rightarrow> string" where
  "be_bytes 0 n = []"
| "be_bytes (Suc k) n = be_bytes k (n div 256) @ [char_of (n mod 256)]"

definition be_value :: "string \<Rightarrow> nat" where
  "be_value bs = foldl (\<lambda>acc b. acc * 256 + byte_of b) 0 bs"

definition i64_be_bytes :: "i64 \<Rightarrow> string" where
  "i64_be_bytes x = be_bytes 8 (nat (x mod 2 ^ 64))"

definition frame :: "string \<Rightarrow> string" where
  "frame value = be_bytes 8 (length value) @ value"

definition unframe :: "string \<Rightarrow> (string \<times> string) option" where
  "unframe bs =
     (if length bs < 8 then None
      else let n = be_value (take 8 bs); rest = drop 8 bs
           in if length rest < n then None else Some (take n rest, drop n rest))"

section \<open>Identifiers\<close>

text \<open>
  UUIDs are 128-bit words. The text form is the business of the \<open>uuid\<close> crate: parsing accepts several
  forms, printing gives the canonical one.
\<close>

type_synonym uuid = "128 word"

record uuid_lib =
  ul_parse :: "string \<Rightarrow> uuid option"
  ul_print :: "uuid \<Rightarrow> string"

definition uuid_bytes :: "uuid \<Rightarrow> string" where
  "uuid_bytes u = be_bytes 16 (unat u)"

section \<open>Tables\<close>

definition update_where :: "('r \<Rightarrow> bool) \<Rightarrow> ('r \<Rightarrow> 'r) \<Rightarrow> 'r list \<Rightarrow> 'r list" where
  "update_where p f t = map (\<lambda>r. if p r then f r else r) t"

definition count_where :: "('r \<Rightarrow> bool) \<Rightarrow> 'r list \<Rightarrow> nat" where
  "count_where p t = length (filter p t)"

definition select_ordered :: "('r \<Rightarrow> bool) \<Rightarrow> ('r \<Rightarrow> 'k::linorder) \<Rightarrow> 'r list \<Rightarrow> 'r list" where
  "select_ordered p key t = sort_key key (filter p t)"

definition delete_where :: "('r \<Rightarrow> bool) \<Rightarrow> 'r list \<Rightarrow> 'r list" where
  "delete_where p t = filter (\<lambda>r. \<not> p r) t"

text \<open>\<open>k IN (SELECT k FROM t WHERE p ORDER BY key LIMIT n)\<close> as the set of the selected values.\<close>

definition selected ::
  "nat \<Rightarrow> ('r \<Rightarrow> bool) \<Rightarrow> ('r \<Rightarrow> 'o::linorder) \<Rightarrow> ('r \<Rightarrow> 'k) \<Rightarrow> 'r list \<Rightarrow> 'k set" where
  "selected n p key k t = k ` set (take n (select_ordered p key t))"

definition first_row :: "'r list \<Rightarrow> 'r option" where
  "first_row t = (case t of [] \<Rightarrow> None | r # _ \<Rightarrow> Some r)"


section \<open>Lemmas: results\<close>

lemma and_then_simps [simp]:
  "and_then (Inl e) f = Inl e"
  "and_then (Inr v) f = f v"
  by (simp_all add: and_then_def)

lemma and_then_eq_Inr: "and_then r f = Inr w \<longleftrightarrow> (\<exists>v. r = Inr v \<and> f v = Inr w)"
  by (cases r) simp_all

lemma and_then_eq_Inl: "and_then r f = Inl e \<longleftrightarrow> r = Inl e \<or> (\<exists>v. r = Inr v \<and> f v = Inl e)"
  by (cases r) simp_all

lemma ok_or_eq [simp]:
  "ok_or e x = Inr v \<longleftrightarrow> x = Some v"
  "ok_or e x = Inl e' \<longleftrightarrow> x = None \<and> e' = e"
  by (cases x; auto)+

lemma map_err_eq [simp]:
  "map_err e r = Inr v \<longleftrightarrow> r = Inr v"
  "map_err e r = Inl e' \<longleftrightarrow> e' = e \<and> (\<exists>x. r = Inl x)"
  by (auto simp: map_err_def split: sum.splits)

lemma ensure_eq [simp]:
  "ensure e b = Inr u \<longleftrightarrow> b"
  "ensure e b = Inl e' \<longleftrightarrow> \<not> b \<and> e' = e"
  by (auto simp: ensure_def)

lemma st_then_simps [simp]:
  "st_then (s, Inl e) f = (s, Inl e)"
  "st_then (s, Inr v) f = f s v"
  by (simp_all add: st_then_def)

lemma st_then_steps:
  assumes "R\<^sup>*\<^sup>* s (fst m)" "\<And>s' v. m = (s', Inr v) \<Longrightarrow> R\<^sup>*\<^sup>* s' (fst (f s' v))"
  shows "R\<^sup>*\<^sup>* s (fst (st_then m f))"
proof (cases m)
  case (Pair s' r)
  with assms show ?thesis by (cases r) (auto intro: rtranclp_trans)
qed

lemma st_then_cases:
  obtains (err) s e where "m = (s, Inl e)" "st_then m f = (s, Inl e)"
    | (ok) s v where "m = (s, Inr v)" "st_then m f = f s v"
  by (cases m; cases "snd m") auto

lemma st_then_eq_Inr:
  "st_then m f = (s', Inr w) \<longleftrightarrow> (\<exists>s v. m = (s, Inr v) \<and> f s v = (s', Inr w))"
  by (cases m; cases "snd m") auto

section \<open>Lemmas: integers\<close>

lemmas i64_bounds = i64_min_def i64_max_def
declare i64_bounds [i64_simps] in_i64_def [i64_simps]

lemma wrap_i64_id: "in_i64 x \<Longrightarrow> wrap_i64 x = x"
  by (simp add: wrap_i64_def i64_simps)

lemma in_i64_wrap [simp]: "in_i64 (wrap_i64 x)"
proof -
  have "0 \<le> (x + 2 ^ 63) mod 2 ^ 64" "(x + 2 ^ 63) mod 2 ^ 64 < (2 :: int) ^ 64"
    by simp_all
  then show ?thesis by (simp add: wrap_i64_def i64_simps)
qed

lemma i64_add_id: "in_i64 (a + b) \<Longrightarrow> i64_add a b = a + b"
  by (simp add: i64_add_def wrap_i64_id)

lemma i64_sub_id: "in_i64 (a - b) \<Longrightarrow> i64_sub a b = a - b"
  by (simp add: i64_sub_def wrap_i64_id)

lemma in_i64_saturating [simp]: "in_i64 (i64_saturating x)"
  by (auto simp: i64_saturating_def i64_simps)

lemma i64_saturating_id: "in_i64 x \<Longrightarrow> i64_saturating x = x"
  by (simp add: i64_saturating_def i64_simps)

lemma i64_saturating_le: "x \<le> y \<Longrightarrow> i64_saturating x \<le> i64_saturating y"
  by (auto simp: i64_saturating_def i64_simps)

lemma i64_saturating_add_ge: "in_i64 a \<Longrightarrow> 0 \<le> b \<Longrightarrow> a \<le> i64_saturating_add a b"
  by (auto simp: i64_saturating_add_def i64_saturating_def i64_simps)

lemma u_checked_add_Some:
  "u_checked_add a b = Some c \<longleftrightarrow> unat a + unat b < 2 ^ LENGTH('a) \<and> c = a + b"
  for a b :: "'a::len word"
  by (auto simp: u_checked_add_def)

lemma u_checked_add_unat: "u_checked_add a b = Some c \<Longrightarrow> unat c = unat a + unat b"
  for a b :: "'a::len word"
  by (auto simp: u_checked_add_def unat_word_ariths split: if_splits)

lemma unat_of_nat_le: "unat (of_nat n :: 'a::len word) \<le> n"
  by (simp add: unat_of_nat)

section \<open>Lemmas: tables\<close>

lemma length_update_where [table_simps]: "length (update_where p f t) = length t"
  by (simp add: update_where_def)

lemma set_update_where:
  "set (update_where p f t) = f ` {r \<in> set t. p r} \<union> {r \<in> set t. \<not> p r}"
  by (auto simp: update_where_def)

lemma update_where_mem:
  assumes "r' \<in> set (update_where p f t)"
  obtains r where "r \<in> set t" "p r" "r' = f r" | "r' \<in> set t" "\<not> p r'"
  using assms by (auto simp: set_update_where)

lemma map_update_where:
  "(\<And>r. r \<in> set t \<Longrightarrow> p r \<Longrightarrow> g (f r) = g r) \<Longrightarrow> map g (update_where p f t) = map g t"
  by (auto simp: update_where_def)

lemma update_where_none: "(\<And>r. r \<in> set t \<Longrightarrow> \<not> p r) \<Longrightarrow> update_where p f t = t"
  by (auto simp: update_where_def intro: map_idI)

lemma count_where_0: "count_where p t = 0 \<longleftrightarrow> (\<forall>r \<in> set t. \<not> p r)"
  by (auto simp: count_where_def filter_empty_conv)

lemma count_where_le: "count_where p t \<le> length t"
  by (simp add: count_where_def)

lemma count_where_le_1:
  assumes "distinct (map k t)" "\<And>r r'. r \<in> set t \<Longrightarrow> r' \<in> set t \<Longrightarrow> p r \<Longrightarrow> p r' \<Longrightarrow> k r = k r'"
  shows "count_where p t \<le> 1"
  using assms
proof (induction t)
  case Nil
  then show ?case by (simp add: count_where_def)
next
  case (Cons x t)
  have IH: "count_where p t \<le> 1"
    using Cons.prems by (intro Cons.IH) (auto intro: Cons.prems(2))
  show ?case
  proof (cases "p x")
    case True
    have "\<not> p y" if y: "y \<in> set t" for y
    proof
      assume "p y"
      then have "k x = k y" using y True by (intro Cons.prems(2)) simp_all
      moreover have "k x \<notin> k ` set t" using Cons.prems(1) by simp
      ultimately show False using y by auto
    qed
    then have "count_where p t = 0" by (simp add: count_where_0)
    then show ?thesis by (simp add: count_where_def True)
  next
    case False
    with IH show ?thesis by (simp add: count_where_def)
  qed
qed

lemma count_where_pos: "r \<in> set t \<Longrightarrow> p r \<Longrightarrow> 0 < count_where p t"
  using count_where_0 [of p t] by auto

lemma count_where_unique:
  assumes "distinct (map k t)" "r \<in> set t" "p r"
    and "\<And>r r'. r \<in> set t \<Longrightarrow> r' \<in> set t \<Longrightarrow> p r \<Longrightarrow> p r' \<Longrightarrow> k r = k r'"
  shows "count_where p t = 1"
proof -
  have "0 < count_where p t" using assms(2,3) by (rule count_where_pos)
  moreover have "count_where p t \<le> 1" using assms(1,4) by (rule count_where_le_1)
  ultimately show ?thesis by simp
qed

lemma filter_unique:
  assumes "distinct t" "r \<in> set t" "p r" "\<And>r'. r' \<in> set t \<Longrightarrow> p r' \<Longrightarrow> r' = r"
  shows "filter p t = [r]"
proof -
  obtain xs ys where t: "t = xs @ r # ys" using assms(2) by (auto simp: in_set_conv_decomp)
  have "r \<notin> set xs" "r \<notin> set ys" using assms(1) by (simp_all add: t)
  moreover have "set xs \<subseteq> set t" "set ys \<subseteq> set t" by (auto simp: t)
  ultimately have "\<forall>x \<in> set xs. \<not> p x" "\<forall>y \<in> set ys. \<not> p y" using assms(4) by blast+
  then have "filter p xs = []" "filter p ys = []" by (simp_all only: filter_empty_conv)
  with assms(3) show ?thesis by (simp add: t)
qed

lemma find_SomeD: "find P xs = Some x \<Longrightarrow> x \<in> set xs \<and> P x"
  by (auto simp: find_Some_iff)

lemma find_ex: "x \<in> set xs \<Longrightarrow> P x \<Longrightarrow> \<exists>y. find P xs = Some y"
  by (cases "find P xs") (auto simp: find_None_iff)

lemma find_filter_Cons: "filter P xs = y # ys \<Longrightarrow> find P xs = Some y"
  by (induction xs) (auto split: if_splits)

lemma first_row_None [simp]: "first_row t = None \<longleftrightarrow> t = []"
  by (cases t) (simp_all add: first_row_def)

lemma first_row_Cons [simp]: "first_row (r # t) = Some r"
  by (simp add: first_row_def)

lemma first_row_Nil [simp]: "first_row [] = None"
  by (simp add: first_row_def)

lemma first_row_filterD:
  assumes "first_row (filter p t) = Some q"
  shows "q \<in> set t" "p q"
proof -
  have "q \<in> set (filter p t)" using assms by (cases "filter p t") simp_all
  then show "q \<in> set t" "p q" by simp_all
qed

lemma first_row_select:
  assumes "first_row (select_ordered p key t) = Some r"
  shows "r \<in> set t" "p r" "\<And>r'. r' \<in> set t \<Longrightarrow> p r' \<Longrightarrow> key r \<le> key r'"
proof -
  from assms obtain rs where rs: "sort_key key (filter p t) = r # rs"
    by (auto simp: first_row_def select_ordered_def split: list.splits)
  then have eq: "set (r # rs) = {x \<in> set t. p x}"
    by (metis set_filter set_sort)
  then show "r \<in> set t" "p r" by auto
  from rs have "sorted (map key (r # rs))"
    by (metis sorted_sort_key)
  then have least: "\<forall>x \<in> set rs. key r \<le> key x" by simp
  show "key r \<le> key r'" if "r' \<in> set t" "p r'" for r'
    using that eq least by (metis (mono_tags, lifting) mem_Collect_eq order_refl set_ConsD)
qed

lemma first_row_select_None:
  "first_row (select_ordered p key t) = None \<longleftrightarrow> (\<forall>r \<in> set t. \<not> p r)"
proof -
  have "select_ordered p key t = [] \<longleftrightarrow> set (select_ordered p key t) = {}" by simp
  also have "\<dots> \<longleftrightarrow> (\<forall>r \<in> set t. \<not> p r)" by (auto simp: select_ordered_def)
  finally show ?thesis by simp
qed

lemma length_delete_where: "length (delete_where p t) + count_where p t = length t"
  by (simp add: delete_where_def count_where_def sum_length_filter_compl add.commute)

lemma length_delete_where_le: "length (delete_where p t) \<le> length t"
  by (simp add: delete_where_def)

lemma set_delete_where [simp]: "set (delete_where p t) = {r \<in> set t. \<not> p r}"
  by (auto simp: delete_where_def)

lemma distinct_delete_where: "distinct (map f t) \<Longrightarrow> distinct (map f (delete_where p t))"
  by (simp add: delete_where_def distinct_map_filter)

lemma selectedD:
  assumes "x \<in> selected n p key k t"
  obtains r where "r \<in> set t" "p r" "k r = x"
  using assms by (auto simp: selected_def select_ordered_def dest!: in_set_takeD)

text \<open>With a unique column the rows named by it are exactly the first ones of the selection.\<close>

lemma selected_iff:
  assumes "distinct (map k t)" "r \<in> set t"
  shows "k r \<in> selected n p key k t \<longleftrightarrow> r \<in> set (take n (select_ordered p key t))"
proof
  assume "k r \<in> selected n p key k t"
  then obtain r' where r': "r' \<in> set (take n (select_ordered p key t))" "k r' = k r"
    by (auto simp: selected_def)
  then have "r' \<in> set t" by (auto simp: select_ordered_def dest!: in_set_takeD)
  with r' assms have "r' = r" by (metis distinct_map inj_onD)
  with r' show "r \<in> set (take n (select_ordered p key t))" by simp
qed (auto simp: selected_def)

lemma selected_row:
  assumes "distinct (map k t)" "r \<in> set t" "k r \<in> selected n p key k t"
  shows "p r"
proof -
  have "r \<in> set (take n (select_ordered p key t))" using assms(3) unfolding selected_iff [OF assms(1,2)] .
  then have "r \<in> set (select_ordered p key t)" by (rule in_set_takeD)
  then show ?thesis by (simp add: select_ordered_def)
qed

lemma count_selected:
  assumes "distinct (map k t)"
  shows "count_where (\<lambda>r. k r \<in> selected n p key k t) t = min n (count_where p t)"
proof -
  let ?s = "take n (select_ordered p key t)"
  have dt: "distinct t" using assms by (simp add: distinct_map)
  have sub: "set ?s \<subseteq> set t" by (auto simp: select_ordered_def dest!: in_set_takeD)
  have "count_where (\<lambda>r. k r \<in> selected n p key k t) t = card {r \<in> set t. k r \<in> selected n p key k t}"
    using dt by (simp add: count_where_def distinct_card flip: set_filter)
  also have "{r \<in> set t. k r \<in> selected n p key k t} = set ?s"
    using sub selected_iff [OF assms] by blast
  also have "card (set ?s) = length ?s"
    using dt by (intro distinct_card distinct_take) (simp add: select_ordered_def)
  finally show ?thesis by (simp add: select_ordered_def count_where_def min.commute)
qed

lemma count_delete_selected:
  assumes "distinct (map k t)"
  shows "count_where p (delete_where (\<lambda>r. k r \<in> selected n p key k t) t) = count_where p t - n"
proof -
  let ?hit = "\<lambda>r. k r \<in> selected n p key k t"
  have "count_where p t = count_where p (delete_where ?hit t) + count_where (\<lambda>r. ?hit r \<and> p r) t"
    unfolding count_where_def delete_where_def filter_filter
    using sum_length_filter_compl [of ?hit "filter p t"] by (simp add: conj_commute add.commute)
  moreover have "count_where (\<lambda>r. ?hit r \<and> p r) t = count_where ?hit t"
    unfolding count_where_def using selected_row [OF assms] by (metis (mono_tags, lifting) filter_cong)
  ultimately show ?thesis using count_selected [OF assms, of n p key] by simp
qed

text \<open>A row among the first of a selection is among the first of every narrower one it belongs to.\<close>

lemma take_filter_subset: "set (filter q (take n xs)) \<subseteq> set (take n (filter q xs))"
proof (induction xs arbitrary: n)
  case (Cons x xs)
  show ?case
  proof (cases n)
    case (Suc m)
    have "set (filter q (take m xs)) \<subseteq> set (take m (filter q xs))" by (rule Cons.IH)
    moreover have "set (take m ys) \<subseteq> set (take (Suc m) ys)" for ys :: "'a list"
      by (rule set_take_subset_set_take) simp
    ultimately show ?thesis using Suc by auto
  qed simp
qed simp

lemma select_narrower:
  assumes "r \<in> set (take n (select_ordered p key t))" "q r"
  shows "r \<in> set (take n (select_ordered (\<lambda>r. q r \<and> p r) key t))"
proof -
  have "select_ordered (\<lambda>r. q r \<and> p r) key t = filter q (select_ordered p key t)"
    by (simp add: select_ordered_def filter_sort conj_commute)
  then show ?thesis using take_filter_subset [of q n "select_ordered p key t"] assms by auto
qed

section \<open>Lemmas: bytes\<close>

lemma byte_of_lt [simp]: "byte_of c < 256"
  by (simp add: byte_of_def)

lemma byte_of_char_of [simp]: "byte_of (char_of n) = n mod 256"
  by (simp add: byte_of_def)

lemma char_of_byte_of [simp]: "char_of (byte_of c) = c"
  by (simp add: byte_of_def)

lemma strip_prefix_Some: "strip_prefix p s = Some d \<longleftrightarrow> s = p @ d"
  by (auto simp: strip_prefix_def) (metis append_take_drop_id)

lemma length_be_bytes [simp]: "length (be_bytes k n) = k"
  by (induction k arbitrary: n) simp_all

lemma be_value_snoc: "be_value (bs @ [b]) = be_value bs * 256 + byte_of b"
  by (simp add: be_value_def)

lemma be_value_be_bytes: "n < 256 ^ k \<Longrightarrow> be_value (be_bytes k n) = n"
proof (induction k arbitrary: n)
  case 0
  then show ?case by (simp add: be_value_def)
next
  case (Suc k)
  then have "n div 256 < 256 ^ k" by (simp add: less_mult_imp_div_less mult.commute)
  with Suc.IH show ?case by (simp add: be_value_snoc)
qed

lemma i64_mod_lt: "nat (z mod 2 ^ 64) < 256 ^ 8" for z :: int
proof -
  have "z mod 2 ^ 64 < (2 ^ 64 :: int)" by simp
  then show ?thesis by (simp add: nat_less_iff)
qed

lemma be_value_i64: "be_value (i64_be_bytes x) = nat (x mod 2 ^ 64)"
  unfolding i64_be_bytes_def by (rule be_value_be_bytes [OF i64_mod_lt])

lemma i64_be_bytes_inject:
  assumes x: "in_i64 x" and y: "in_i64 y" and eq: "i64_be_bytes x = i64_be_bytes y"
  shows "x = y"
proof -
  from eq have "nat (x mod 2 ^ 64) = nat (y mod 2 ^ 64)"
    unfolding be_value_i64 [symmetric] by simp
  then have "x mod 2 ^ 64 = y mod 2 ^ 64" by (simp add: eq_nat_nat_iff)
  then have d: "(2 :: int) ^ 64 dvd x - y" by (simp add: mod_eq_dvd_iff)
  have l: "\<bar>x - y\<bar> < 2 ^ 64" using x y by (auto simp: i64_simps)
  show "x = y" using dvd_imp_le_int [OF _ d] l by fastforce
qed

lemma utf8_decode_ascii: "list_all (\<lambda>c. byte_of c < 128) s \<Longrightarrow> utf8_decode s = map byte_of s"
  by (induction s) simp_all

lemma printable_text:
  assumes "printable s"
  shows "trim_chars (utf8_decode s) \<noteq> []" "\<not> list_ex is_control (utf8_decode s)" "chars_count s = length s"
proof -
  have d: "utf8_decode s = map byte_of s"
    using assms by (intro utf8_decode_ascii) (auto simp: printable_def list_all_iff)
  have white: "\<not> is_whitespace n" if "n \<in> set (utf8_decode s)" for n
    using that assms by (auto simp: d printable_def list_all_iff is_whitespace_def)
  have keep: "dropWhile is_whitespace cs = cs" if "\<forall>n \<in> set cs. \<not> is_whitespace n" for cs
    using that by (cases cs) simp_all
  show "trim_chars (utf8_decode s) \<noteq> []"
    using assms white by (simp add: trim_chars_def keep d printable_def)
  show "\<not> list_ex is_control (utf8_decode s)"
    using assms by (auto simp: d printable_def list_all_iff list_ex_iff is_control_def)
  show "chars_count s = length s" by (simp add: chars_count_def d)
qed

lemma utf8_valid_ascii: "list_all (\<lambda>c. byte_of c < 128) s \<Longrightarrow> utf8_valid s"
proof -
  assume a: "list_all (\<lambda>c. byte_of c < 128) s"
  then have "utf8_encode (map byte_of s) = s" "list_all scalar_value (map byte_of s)"
    by (induction s) (auto simp: utf8_encode_def utf8_encode1.simps scalar_value_def)
  then show ?thesis by (simp add: utf8_valid_def utf8_decode_ascii [OF a])
qed

lemma utf8_decode_encode1:
  assumes "n < 1114112"
  shows "utf8_decode (utf8_encode1 n @ s) = n # utf8_decode s"
proof -
  define m q where "m = n mod 64" and "q = n div 64"
  define m' q' where "m' = q mod 64" and "q' = q div 64"
  define m'' q'' where "m'' = q' mod 64" and "q'' = q' div 64"
  have n: "n = q * 64 + m" "q = q' * 64 + m'" "q' = q'' * 64 + m''"
    and lt: "m < 64" "m' < 64" "m'' < 64"
    by (simp_all add: m_def q_def m'_def q'_def m''_def q''_def)
  have q': "n div 4096 = q'" and q'': "n div 262144 = q''"
    using div_mult2_eq [of n 64 64] div_mult2_eq [of n 64 4096] div_mult2_eq [of q 64 64]
    by (simp_all add: q_def q'_def q''_def)
  note defs = m_def [symmetric] q_def [symmetric] m'_def [symmetric] q' q'' m''_def [symmetric]
  consider (a) "n < 128" | (b) "\<not> n < 128" "n < 2048" | (c) "\<not> n < 128" "\<not> n < 2048" "n < 65536"
    | (d) "\<not> n < 128" "\<not> n < 2048" "\<not> n < 65536" by linarith
  then show ?thesis
  proof cases
    case a
    then show ?thesis by (simp add: utf8_encode1.simps)
  next
    case b
    with n have "q < 32" by linarith
    then have "utf8_decode (utf8_encode1 n @ s) = (q * 64 + m) # utf8_decode s"
      unfolding utf8_encode1.simps using lt b by (simp add: defs)
    with n show ?thesis by simp
  next
    case c
    with n have "q' < 16" by linarith
    then have "utf8_decode (utf8_encode1 n @ s) = (q' * 4096 + m' * 64 + m) # utf8_decode s"
      unfolding utf8_encode1.simps using lt c by (simp add: defs)
    with n show ?thesis by simp
  next
    case d
    from assms n have "q'' < 8" by linarith
    then have "utf8_decode (utf8_encode1 n @ s)
        = (q'' * 262144 + m'' * 4096 + m' * 64 + m) # utf8_decode s"
      unfolding utf8_encode1.simps using lt d by (simp add: defs)
    with n show ?thesis by simp
  qed
qed

lemma utf8_decode_encode: "list_all (\<lambda>n. n < 1114112) cs \<Longrightarrow> utf8_decode (utf8_encode cs) = cs"
  by (induction cs) (simp_all add: utf8_encode_def utf8_decode_encode1)

section \<open>Interface: a self-delimiting encoding\<close>

text \<open>
  Values written one after the other into a hasher or a buffer can be told apart again when each
  encoding carries its own end: \<open>dec\<close> reads one value back and returns what follows it.
\<close>

locale self_delimiting =
  fixes enc :: "'a \<Rightarrow> string" and dec :: "string \<Rightarrow> ('a \<times> string) option"
    and valid :: "'a \<Rightarrow> bool"
  assumes dec_enc: "valid x \<Longrightarrow> dec (enc x @ rest) = Some (x, rest)"
    and enc_nonempty: "enc x \<noteq> []"
begin

lemma enc_append_inject:
  assumes "valid x" "valid y" "enc x @ r = enc y @ s"
  shows "x = y \<and> r = s"
proof -
  have "Some (x, r) = dec (enc x @ r)" using assms(1) by (rule dec_enc [symmetric])
  also have "\<dots> = dec (enc y @ s)" by (simp only: assms(3))
  also have "\<dots> = Some (y, s)" using assms(2) by (rule dec_enc)
  finally show ?thesis by simp
qed

lemma enc_inject: "valid x \<Longrightarrow> valid y \<Longrightarrow> enc x = enc y \<Longrightarrow> x = y"
  using enc_append_inject [of x y "[]" "[]"] by blast

lemma concat_inject:
  assumes "list_all valid xs" "list_all valid ys" "concat (map enc xs) = concat (map enc ys)"
  shows "xs = ys"
  using assms
proof (induction xs arbitrary: ys)
  case Nil
  then show ?case by (cases ys) (simp_all add: enc_nonempty)
next
  case (Cons x xs)
  from Cons.prems(3) obtain y ys' where ys: "ys = y # ys'"
    by (cases ys) (simp_all add: enc_nonempty)
  with Cons.prems have v: "valid x" "valid y"
    and "enc x @ concat (map enc xs) = enc y @ concat (map enc ys')" by simp_all
  then have "x = y" "concat (map enc xs) = concat (map enc ys')"
    using enc_append_inject [OF v] by blast+
  moreover from this have "xs = ys'" using Cons.prems ys by (intro Cons.IH) simp_all
  ultimately show ?case using ys by simp
qed

end

lemma unframe_frame: "length v < 2 ^ 64 \<Longrightarrow> unframe (frame v @ rest) = Some (v, rest)"
proof -
  assume "length v < 2 ^ 64"
  then have "be_value (be_bytes 8 (length v)) = length v"
    by (simp add: be_value_be_bytes)
  then show ?thesis by (simp add: unframe_def frame_def Let_def)
qed

lemma frame_nonempty: "frame v \<noteq> []"
proof
  assume "frame v = []"
  then have "length (frame v) = 0" by (simp only: list.size)
  then show False by (simp add: frame_def)
qed

interpretation framing: self_delimiting frame unframe "\<lambda>v. length v < 2 ^ 64"
  by unfold_locales (rule unframe_frame frame_nonempty, assumption?)+

section \<open>Interface: a transition system with an invariant\<close>

locale invariant_system =
  fixes step :: "'s \<Rightarrow> 's \<Rightarrow> bool" and inv :: "'s \<Rightarrow> bool"
  assumes step_inv: "step s t \<Longrightarrow> inv s \<Longrightarrow> inv t"
begin

lemma steps_inv: "step\<^sup>*\<^sup>* s t \<Longrightarrow> inv s \<Longrightarrow> inv t"
  by (induction rule: rtranclp_induct) (auto intro: step_inv)

lemma steps_stable:
  assumes "step\<^sup>*\<^sup>* s t" "inv s" "Q s"
    and "\<And>u v. step u v \<Longrightarrow> inv u \<Longrightarrow> Q u \<Longrightarrow> Q v"
  shows "Q t"
proof -
  from assms have "inv t \<and> Q t"
    by (induction rule: rtranclp_induct) (auto intro: step_inv)
  then show ?thesis ..
qed

end

section \<open>Interface: work fenced by claims\<close>

text \<open>
  A store hands out claims and a worker completes them. A completion of a claim that is not held
  changes nothing, a successful one spends the claim, and no other step gives a claim back unless
  its token is issued again.
\<close>

locale fenced_claims =
  fixes held :: "'c \<Rightarrow> 's \<Rightarrow> bool" and complete :: "'x \<Rightarrow> 'c \<Rightarrow> 's \<Rightarrow> ('s, 'e, bool) effect"
    and step :: "'s \<Rightarrow> 's \<Rightarrow> bool" and fresh :: "'c \<Rightarrow> bool"
  assumes stale_completion: "\<not> held c s \<Longrightarrow> complete x c s = (s, Inr False)"
    and completion_spends: "complete x c s = (s', Inr True) \<Longrightarrow> \<not> held c s'"
    and step_keeps: "step s s' \<Longrightarrow> fresh c \<Longrightarrow> held c s' \<Longrightarrow> held c s"
begin

lemma steps_keep: "step\<^sup>*\<^sup>* s s' \<Longrightarrow> fresh c \<Longrightarrow> held c s' \<Longrightarrow> held c s"
  by (induction rule: rtranclp_induct) (blast intro: step_keeps)+

lemma spent_forever:
  assumes "complete x c s = (s', Inr True)" "fresh c" "step\<^sup>*\<^sup>* s' s''"
  shows "complete y c s'' = (s'', Inr False)"
  using assms by (blast intro: stale_completion dest: completion_spends steps_keep)

end

end
