(* ===== verification/Relay_Domain.thy ===== *)
theory Relay_Domain
  imports Relay_Prelude
begin

text \<open>
  The domain crate \<open>crates/relay-domain/src/lib.rs\<close>: the closed set of device scopes with
  their wire names, the safe projection of a run with its validation, and the delivery statuses
  of a notification with the transitions the domain allows. The status type is also the type of
  the \<open>status\<close> column of \<open>notification_outbox\<close>, whose CHECK constraint lists the same nine names.
\<close>

section \<open>Device scopes\<close>

datatype device_scope =
    NotifyWrite | NotifyReadOwn | ChannelRead | ChannelManage | GatewayConnect | JobQuery
  | JobControl

definition device_scope_all :: "device_scope list" where
  "device_scope_all =
     [NotifyWrite, NotifyReadOwn, ChannelRead, ChannelManage, GatewayConnect, JobQuery, JobControl]"

primrec scope_as_str :: "device_scope \<Rightarrow> string" where
  "scope_as_str NotifyWrite = ''notify:write''"
| "scope_as_str NotifyReadOwn = ''notify:read_own''"
| "scope_as_str ChannelRead = ''channel:read''"
| "scope_as_str ChannelManage = ''channel:manage''"
| "scope_as_str GatewayConnect = ''gateway:connect''"
| "scope_as_str JobQuery = ''job:query''"
| "scope_as_str JobControl = ''job:control''"

datatype unknown_device_scope = UnknownDeviceScope

definition scope_from_str :: "string \<Rightarrow> unknown_device_scope + device_scope" where
  "scope_from_str value =
     ok_or UnknownDeviceScope (find (\<lambda>scope. scope_as_str scope = value) device_scope_all)"

section \<open>Run projections\<close>

datatype desired_run_state = DesiredRunning | DesiredStopped | DesiredDeleted

datatype run_phase =
    PhasePending | PhaseProvisioning | PhaseStarting | PhaseActive | PhaseWaitingInput
  | PhaseStopping | PhaseFinalizing | PhaseFinished

datatype run_outcome =
    OutcomeSucceeded | OutcomeFailed | OutcomeCancelled | OutcomeInterrupted | OutcomeBlocked
  | OutcomeUnknown

datatype run_condition_type =
    CondAccepted | CondWorkspaceReady | CondRuntimeReady | CondSessionReady
  | CondEventStreamReady | CondRunning | CondWaitingForInput | CondCancellationRequested
  | CondTerminalObserved | CondVerificationComplete | CondArtifactsReady | CondCleanupComplete
  | CondDegraded | CondRetrying | CondBlocked

datatype condition_status = StatusTrue | StatusFalse | StatusUnknown

record run_condition =
  condition_type :: run_condition_type
  condition_status :: condition_status
  reason_code :: string
  observed_at :: i64

datatype projection_error =
    InvalidCondition | TooManyConditions | InvalidCounts | OutcomeBeforeFinish
  | MissingTerminalOutcome

definition max_reason_code_bytes :: nat where "max_reason_code_bytes = 64"

definition validate_condition :: "run_condition \<Rightarrow> projection_error + unit" where
  "validate_condition c =
     (if observed_at c < 0
         \<or> reason_code c = []
         \<or> length (reason_code c) > max_reason_code_bytes
         \<or> \<not> list_all (\<lambda>b. ascii_upper b \<or> ascii_digit b \<or> b = CHR ''_'') (reason_code c)
      then Inl InvalidCondition
      else Inr ())"

record safe_run_projection =
  desired_state :: desired_run_state
  phase :: run_phase
  outcome :: "run_outcome option"
  conditions :: "run_condition list"
  attention_count :: u32
  child_count :: u32
  active_child_count :: u32

definition max_conditions :: nat where "max_conditions = 32"

fun validate_conditions :: "run_condition list \<Rightarrow> projection_error + unit" where
  "validate_conditions [] = Inr ()"
| "validate_conditions (c # cs) = and_then (validate_condition c) (\<lambda>_. validate_conditions cs)"

definition validate_phase_outcome ::
  "run_phase \<Rightarrow> run_outcome option \<Rightarrow> projection_error + unit" where
  "validate_phase_outcome p res =
     (case (p, res) of
        (PhaseFinished, None) \<Rightarrow> Inl MissingTerminalOutcome
      | (PhaseFinished, Some _) \<Rightarrow> Inr ()
      | (_, None) \<Rightarrow> Inr ()
      | (_, Some _) \<Rightarrow> Inl OutcomeBeforeFinish)"

definition validate_projection :: "safe_run_projection \<Rightarrow> projection_error + unit" where
  "validate_projection p =
     (if length (conditions p) > max_conditions then Inl TooManyConditions
      else and_then (validate_conditions (conditions p)) (\<lambda>_.
        if active_child_count p > child_count p then Inl InvalidCounts
        else validate_phase_outcome (phase p) (outcome p)))"

section \<open>Delivery status\<close>

datatype delivery_status =
    PendingChannel | SendingChannel | RetryWait | BlockedActivation | BlockedReconnect
  | ProviderAccepted | Expired | Cancelled | DeadLetter

definition is_terminal :: "delivery_status \<Rightarrow> bool" where
  "is_terminal s \<longleftrightarrow> s \<in> {ProviderAccepted, Expired, Cancelled, DeadLetter}"

definition can_transition_to :: "delivery_status \<Rightarrow> delivery_status \<Rightarrow> bool" where
  "can_transition_to s n =
     (if is_terminal s then s = n
      else case s of
        PendingChannel \<Rightarrow>
          n \<in> {SendingChannel, BlockedActivation, BlockedReconnect, Expired, Cancelled}
      | SendingChannel \<Rightarrow>
          n \<in> {ProviderAccepted, RetryWait, BlockedActivation, BlockedReconnect, Expired, DeadLetter}
      | RetryWait \<Rightarrow> n \<in> {SendingChannel, Expired, Cancelled, DeadLetter}
      | BlockedActivation \<Rightarrow> n \<in> {SendingChannel, Expired, Cancelled, DeadLetter}
      | BlockedReconnect \<Rightarrow> n \<in> {SendingChannel, Expired, Cancelled, DeadLetter}
      | _ \<Rightarrow> False)"

section \<open>Lemmas\<close>

lemma device_scope_all_complete: "s \<in> set device_scope_all"
  by (cases s) (simp_all add: device_scope_all_def)

lemma scope_from_str_Inr: "scope_from_str v = Inr s \<longleftrightarrow> scope_as_str s = v"
proof
  assume "scope_from_str v = Inr s"
  then show "scope_as_str s = v"
    by (auto simp: scope_from_str_def find_Some_iff)
next
  assume v: "scope_as_str s = v"
  have "scope_from_str (scope_as_str s) = Inr s"
    by (cases s) (simp_all add: scope_from_str_def device_scope_all_def)
  with v show "scope_from_str v = Inr s" by simp
qed

lemma validate_conditions_ok:
  "validate_conditions cs = Inr () \<longleftrightarrow> list_all (\<lambda>c. validate_condition c = Inr ()) cs"
  by (induction cs) (auto simp: and_then_eq_Inr)

lemma validate_conditions_error:
  "validate_conditions cs = Inl e \<Longrightarrow> e = InvalidCondition"
  by (induction cs) (auto simp: and_then_eq_Inl validate_condition_def split: if_splits)

lemma validate_phase_outcome_ok:
  "validate_phase_outcome p r = Inr () \<longleftrightarrow> (p = PhaseFinished \<longleftrightarrow> r \<noteq> None)"
  by (cases p; cases r) (simp_all add: validate_phase_outcome_def)

lemma is_terminal_simps [simp]:
  "is_terminal ProviderAccepted" "is_terminal Expired" "is_terminal Cancelled"
  "is_terminal DeadLetter" "\<not> is_terminal PendingChannel" "\<not> is_terminal SendingChannel"
  "\<not> is_terminal RetryWait" "\<not> is_terminal BlockedActivation" "\<not> is_terminal BlockedReconnect"
  by (simp_all add: is_terminal_def)

end
