(* ===== verification/Relay_Schema.thy ===== *)
theory Relay_Schema
  imports Relay_Domain
begin

text \<open>
  The relay's SQLite schema, \<open>crates/relay-storage-sqlite/migrations/001_init.sql\<close>: one record
  per table with the columns the modelled code reads or writes, the CHECK constraints of
  \<open>notification_outbox\<close>, its trigger on \<open>results\<close>, and the statements on it. A statement whose new
  rows break a constraint fails as a whole and changes nothing (\<open>None\<close>); the services turn that
  into their database error.
\<close>

section \<open>Rows\<close>

datatype origin_kind = OriginDevice | OriginSystem | OriginAdmin
datatype body_kind = PlainBody | ProtectedResultLink

record device_row =
  dv_id :: string
  dv_name :: string
  dv_token_hash :: string
  dv_enabled :: bool
  dv_credential_version :: i64
  dv_created_at :: i64
  dv_last_seen_at :: "i64 option"
  dv_revoked_at :: "i64 option"
  dv_rotated_at :: "i64 option"

record scope_row =
  sc_device_id :: string
  sc_scope :: string

record outbox_row =
  ob_id :: string
  ob_origin_kind :: origin_kind
  ob_origin_key :: string
  ob_origin_device_id :: "string option"
  ob_notification_id :: string
  ob_dedupe_key :: string
  ob_payload_hash :: string
  ob_kind :: string
  ob_target_account_fingerprint :: "string option"
  ob_title :: string
  ob_body :: string
  ob_body_kind :: body_kind
  ob_protected_body_ciphertext :: "string option"
  ob_protected_body_nonce :: "string option"
  ob_result_row_id :: "string option"
  ob_correlation_key :: "string option"
  ob_priority :: i64
  ob_status :: delivery_status
  ob_not_before :: i64
  ob_expires_at :: i64
  ob_attempt_count :: i64
  ob_claim_token :: "string option"
  ob_claimed_at :: "i64 option"
  ob_next_attempt_at :: "i64 option"
  ob_last_error_code :: "string option"
  ob_last_error_message :: "string option"
  ob_provider_message_id :: "string option"
  ob_provider_accepted_at :: "i64 option"
  ob_created_at :: i64
  ob_updated_at :: i64
  ob_sensitive_body :: bool

record result_row =
  rs_id :: string
  rs_origin_device_id :: string
  rs_origin_key :: string
  rs_result_id :: string
  rs_dedupe_key :: string
  rs_request_digest :: string
  rs_kind :: string
  rs_content_mode :: string
  rs_source :: string
  rs_correlation_key :: string
  rs_result_revision :: string
  rs_safe_title :: string
  rs_body_ciphertext :: "string option"
  rs_body_nonce :: "string option"
  rs_body_bytes :: i64
  rs_source_hash :: string
  rs_started_at :: "i64 option"
  rs_completed_at :: "i64 option"
  rs_duration_ms :: "i64 option"
  rs_accepted_at :: i64
  rs_created_at :: i64
  rs_page_expires_at :: i64
  rs_body_retain_until :: i64
  rs_body_purged_at :: "i64 option"
  rs_revoked_at :: "i64 option"
  rs_initial_notification_id :: string
  rs_current_notification_id :: string
  rs_notification_status :: delivery_status
  rs_updated_at :: i64

record share_row =
  sh_result_row_id :: string
  sh_token_digest :: string
  sh_token_ciphertext :: string
  sh_token_nonce :: string
  sh_public_origin :: string
  sh_created_at :: i64
  sh_revoked_at :: "i64 option"

datatype action_kind = ActionRevoke | ActionResend

record action_row =
  ac_result_row_id :: string
  ac_action_kind :: action_kind
  ac_request_id :: string
  ac_notification_id :: "string option"
  ac_created_at :: i64

datatype bundle_status =
    BundleQueued | BundleDelivering | BundlePartialFailed | BundleProviderAccepted | BundleExpired
  | BundleBlockedTargetChanged | BundleDeliveryUnknown

record bundle_row =
  bn_id :: string
  bn_origin_key :: string
  bn_origin_device_id :: string
  bn_bundle_id :: string
  bn_dedupe_key :: string
  bn_request_digest :: string
  bn_kind :: string
  bn_content_mode :: string
  bn_source :: string
  bn_correlation_key :: string
  bn_result_revision :: i64
  bn_title :: string
  bn_body_ciphertext :: "string option"
  bn_body_nonce :: "string option"
  bn_body_bytes :: i64
  bn_source_hash :: string
  bn_target_account_fingerprint :: string
  bn_status :: bundle_status
  bn_segment_count :: i64
  bn_accepted_segments :: i64
  bn_accepted_at :: i64
  bn_created_at :: i64
  bn_expires_at :: i64
  bn_updated_at :: i64
  bn_body_retain_until :: i64
  bn_body_purged_at :: "i64 option"

datatype segment_status =
    SegPendingChannel | SegSendingChannel | SegRetryWait | SegBlockedActivation
  | SegBlockedReconnect | SegBlockedTargetChanged | SegProviderAccepted | SegDeliveryUnknown
  | SegExpired | SegDeadLetter

record segment_row =
  sg_id :: string
  sg_bundle_row_id :: string
  sg_segment_index :: i64
  sg_byte_start :: i64
  sg_byte_end :: i64
  sg_content_hash :: string
  sg_rendered_header :: string
  sg_client_id :: string
  sg_status :: segment_status
  sg_not_before :: i64
  sg_expires_at :: i64
  sg_attempt_count :: i64
  sg_claim_token :: "string option"
  sg_claimed_at :: "i64 option"
  sg_next_attempt_at :: "i64 option"
  sg_last_error_code :: "string option"
  sg_provider_message_id :: "string option"
  sg_provider_accepted_at :: "i64 option"
  sg_created_at :: i64
  sg_updated_at :: i64

record relay_db =
  db_devices :: "device_row list"
  db_scopes :: "scope_row list"
  db_outbox :: "outbox_row list"
  db_results :: "result_row list"
  db_shares :: "share_row list"
  db_actions :: "action_row list"
  db_bundles :: "bundle_row list"
  db_segments :: "segment_row list"

section \<open>CHECK constraints of the outbox\<close>

text \<open>\<open>length(X)\<close> on TEXT counts the characters before the first NUL.\<close>

definition sql_length :: "string \<Rightarrow> nat" where
  "sql_length s = length (takeWhile (\<lambda>n. n \<noteq> 0) (utf8_decode s))"

definition hex_code_point :: "nat \<Rightarrow> bool" where
  "hex_code_point n \<longleftrightarrow> (48 \<le> n \<and> n \<le> 57) \<or> (97 \<le> n \<and> n \<le> 102)"

definition fingerprint_check :: "string \<Rightarrow> bool" where
  "fingerprint_check f \<longleftrightarrow>
     sql_length f = 67
     \<and> take 3 (utf8_decode f) = map byte_of ''wx:''
     \<and> list_all hex_code_point (drop 3 (utf8_decode f))"

definition ascii_to_lower :: "char \<Rightarrow> char" where
  "ascii_to_lower c = (if ascii_upper c then char_of (byte_of c + 32) else c)"

text \<open>\<open>X LIKE 'system:%'\<close> ignores the case of ASCII letters.\<close>

definition like_prefix :: "string \<Rightarrow> string \<Rightarrow> bool" where
  "like_prefix p s \<longleftrightarrow>
     length p \<le> length s \<and> map ascii_to_lower (take (length p) s) = map ascii_to_lower p"

definition target_check :: "outbox_row \<Rightarrow> bool" where
  "target_check r \<longleftrightarrow>
     (case ob_target_account_fingerprint r of None \<Rightarrow> True | Some f \<Rightarrow> fingerprint_check f)"

definition body_kind_check :: "outbox_row \<Rightarrow> bool" where
  "body_kind_check r \<longleftrightarrow>
     (ob_body_kind r = PlainBody \<and> ob_protected_body_ciphertext r = None
        \<and> ob_protected_body_nonce r = None \<and> ob_result_row_id r = None)
     \<or> (ob_body_kind r = ProtectedResultLink \<and> ob_body r = ''[PROTECTED_RESULT_LINK]''
        \<and> ob_protected_body_ciphertext r \<noteq> None
        \<and> (case ob_protected_body_nonce r of None \<Rightarrow> False | Some n \<Rightarrow> length n = 24)
        \<and> ob_result_row_id r \<noteq> None)"

definition origin_check :: "outbox_row \<Rightarrow> bool" where
  "origin_check r \<longleftrightarrow>
     (case ob_origin_kind r of
        OriginDevice \<Rightarrow>
          (case ob_origin_device_id r of None \<Rightarrow> False | Some d \<Rightarrow> ob_origin_key r = ''device:'' @ d)
      | OriginSystem \<Rightarrow> ob_origin_device_id r = None \<and> like_prefix ''system:'' (ob_origin_key r)
      | OriginAdmin \<Rightarrow> ob_origin_device_id r = None \<and> ob_origin_key r = ''admin:singleton'')"

definition kind_check :: "outbox_row \<Rightarrow> bool" where
  "kind_check r \<longleftrightarrow>
     (case ob_origin_kind r of
        OriginSystem \<Rightarrow>
          ob_kind r = ''interactive_reply'' \<and> ob_target_account_fingerprint r \<noteq> None
      | OriginDevice \<Rightarrow>
          (ob_kind r = ''result_link'' \<and> ob_target_account_fingerprint r \<noteq> None)
          \<or> (ob_kind r \<noteq> ''interactive_reply'' \<and> ob_kind r \<noteq> ''result_link''
             \<and> ob_target_account_fingerprint r = None)
      | OriginAdmin \<Rightarrow> ob_kind r = ''test'' \<and> ob_target_account_fingerprint r = None)"

definition claim_check :: "outbox_row \<Rightarrow> bool" where
  "claim_check r \<longleftrightarrow>
     (if ob_status r = SendingChannel then ob_claim_token r \<noteq> None \<and> ob_claimed_at r \<noteq> None
      else ob_claim_token r = None \<and> ob_claimed_at r = None)"

definition outbox_checks :: "outbox_row \<Rightarrow> bool" where
  "outbox_checks r \<longleftrightarrow>
     sql_length (ob_title r) \<le> 128
     \<and> sql_length (ob_body r) \<le> 6000
     \<and> 0 \<le> ob_priority r \<and> ob_priority r \<le> 255
     \<and> 0 \<le> ob_attempt_count r
     \<and> ob_expires_at r > ob_created_at r
     \<and> ob_updated_at r \<ge> ob_created_at r
     \<and> target_check r \<and> body_kind_check r \<and> origin_check r \<and> kind_check r \<and> claim_check r"

section \<open>CHECK constraints of the bundles\<close>

definition hash_check :: "string \<Rightarrow> bool" where
  "hash_check h \<longleftrightarrow> sql_length h = 64 \<and> list_all hex_code_point (utf8_decode h)"

definition bundle_checks :: "bundle_row \<Rightarrow> bool" where
  "bundle_checks b \<longleftrightarrow>
     1 \<le> sql_length (bn_bundle_id b) \<and> sql_length (bn_bundle_id b) \<le> 128
     \<and> 1 \<le> sql_length (bn_dedupe_key b) \<and> sql_length (bn_dedupe_key b) \<le> 256
     \<and> length (bn_request_digest b) = 32
     \<and> bn_kind b = ''run_completed'' \<and> bn_content_mode b = ''full_final'' \<and> bn_source b = ''codex_stop''
     \<and> 1 \<le> sql_length (bn_correlation_key b) \<and> sql_length (bn_correlation_key b) \<le> 128
     \<and> bn_result_revision b > 0
     \<and> 1 \<le> sql_length (bn_title b) \<and> sql_length (bn_title b) \<le> 128
     \<and> 1 \<le> bn_body_bytes b \<and> bn_body_bytes b \<le> 262144
     \<and> hash_check (bn_source_hash b)
     \<and> fingerprint_check (bn_target_account_fingerprint b)
     \<and> 1 \<le> bn_segment_count b \<and> bn_segment_count b \<le> 128
     \<and> 0 \<le> bn_accepted_segments b \<and> bn_accepted_segments b \<le> bn_segment_count b
     \<and> bn_origin_key b = ''device:'' @ bn_origin_device_id b
     \<and> bn_expires_at b > bn_created_at b
     \<and> bn_updated_at b \<ge> bn_accepted_at b
     \<and> bn_body_retain_until b \<ge> bn_accepted_at b
     \<and> (case bn_body_purged_at b of
          None \<Rightarrow> bn_body_ciphertext b \<noteq> None \<and> is_some_and (\<lambda>n. length n = 24) (bn_body_nonce b)
        | Some _ \<Rightarrow> bn_body_ciphertext b = None \<and> bn_body_nonce b = None)"

definition segment_checks :: "segment_row \<Rightarrow> bool" where
  "segment_checks s \<longleftrightarrow>
     0 \<le> sg_segment_index s \<and> sg_segment_index s \<le> 127
     \<and> 0 \<le> sg_byte_start s \<and> sg_byte_end s > sg_byte_start s
     \<and> hash_check (sg_content_hash s)
     \<and> 1 \<le> sql_length (sg_client_id s) \<and> sql_length (sg_client_id s) \<le> 128
     \<and> 0 \<le> sg_attempt_count s
     \<and> sg_expires_at s > sg_created_at s \<and> sg_updated_at s \<ge> sg_created_at s
     \<and> (if sg_status s = SegSendingChannel then sg_claim_token s \<noteq> None \<and> sg_claimed_at s \<noteq> None
        else sg_claim_token s = None \<and> sg_claimed_at s = None)"

section \<open>Statements on the outbox\<close>

text \<open>
  The trigger \<open>notification_outbox_current_result_status\<close>: after an update of \<open>status\<close> or
  \<open>updated_at\<close>, the result whose current notice the row is takes the row's status.
\<close>

definition result_status_trigger :: "outbox_row \<Rightarrow> result_row list \<Rightarrow> result_row list" where
  "result_status_trigger new t =
     (case ob_result_row_id new of
        None \<Rightarrow> t
      | Some rid \<Rightarrow>
          update_where
            (\<lambda>r. rs_id r = rid \<and> rs_current_notification_id r = ob_notification_id new)
            (\<lambda>r. r\<lparr>rs_notification_status := ob_status new,
                   rs_updated_at := (if ob_updated_at new > rs_updated_at r
                                     then ob_updated_at new else rs_updated_at r + 1)\<rparr>)
            t)"

definition update_outbox ::
  "(outbox_row \<Rightarrow> bool) \<Rightarrow> (outbox_row \<Rightarrow> outbox_row) \<Rightarrow> relay_db \<Rightarrow> (relay_db \<times> nat) option" where
  "update_outbox p f db =
     (let changed = map f (filter p (db_outbox db))
      in if list_all outbox_checks changed
         then Some (db\<lparr>db_outbox := update_where p f (db_outbox db),
                       db_results := fold result_status_trigger changed (db_results db)\<rparr>,
                    length changed)
         else None)"

text \<open>
  \<open>INSERT\<close> with \<open>ON CONFLICT DO NOTHING\<close> on the two unique indexes: the constraints are checked
  first, then the indexes of the conflict clauses, where a collision inserts nothing, then the
  primary key and, for the row inserted, the foreign key, whose violations are errors.
\<close>

definition outbox_collides :: "outbox_row \<Rightarrow> outbox_row \<Rightarrow> bool" where
  "outbox_collides new r \<longleftrightarrow>
     ob_origin_key r = ob_origin_key new
     \<and> (ob_notification_id r = ob_notification_id new \<or> ob_dedupe_key r = ob_dedupe_key new)"

definition device_exists :: "relay_db \<Rightarrow> string option \<Rightarrow> bool" where
  "device_exists db d =
     (case d of None \<Rightarrow> True | Some i \<Rightarrow> list_ex (\<lambda>dv. dv_id dv = i) (db_devices db))"

definition insert_outbox :: "outbox_row \<Rightarrow> relay_db \<Rightarrow> (relay_db \<times> nat) option" where
  "insert_outbox new db =
     (if \<not> outbox_checks new then None
      else if list_ex (outbox_collides new) (db_outbox db) then Some (db, 0)
      else if list_ex (\<lambda>r. ob_id r = ob_id new) (db_outbox db)
              \<or> \<not> device_exists db (ob_origin_device_id new)
      then None
      else Some (db\<lparr>db_outbox := db_outbox db @ [new]\<rparr>, 1))"

section \<open>The invariant of the schema\<close>

definition outbox_keys_unique :: "outbox_row list \<Rightarrow> bool" where
  "outbox_keys_unique t \<longleftrightarrow>
     distinct (map ob_id t)
     \<and> distinct (map (\<lambda>r. (ob_origin_key r, ob_notification_id r)) t)
     \<and> distinct (map (\<lambda>r. (ob_origin_key r, ob_dedupe_key r)) t)"

definition schema_inv :: "relay_db \<Rightarrow> bool" where
  "schema_inv db \<longleftrightarrow> list_all outbox_checks (db_outbox db) \<and> outbox_keys_unique (db_outbox db)"

text \<open>The columns an update of the outbox never writes: identity, payload and lifetime.\<close>

definition frozen_columns :: "(outbox_row \<Rightarrow> outbox_row) \<Rightarrow> bool" where
  "frozen_columns f \<longleftrightarrow>
     (\<forall>r. ob_id (f r) = ob_id r \<and> ob_origin_kind (f r) = ob_origin_kind r
          \<and> ob_origin_key (f r) = ob_origin_key r
          \<and> ob_notification_id (f r) = ob_notification_id r \<and> ob_dedupe_key (f r) = ob_dedupe_key r
          \<and> ob_payload_hash (f r) = ob_payload_hash r \<and> ob_kind (f r) = ob_kind r
          \<and> ob_result_row_id (f r) = ob_result_row_id r
          \<and> ob_expires_at (f r) = ob_expires_at r \<and> ob_created_at (f r) = ob_created_at r
          \<and> ob_sensitive_body (f r) = ob_sensitive_body r)"

section \<open>Lemmas\<close>

lemma update_outbox_Some:
  "update_outbox p f db = Some (db', n) \<longleftrightarrow>
     (\<forall>r \<in> set (db_outbox db). p r \<longrightarrow> outbox_checks (f r))
     \<and> n = count_where p (db_outbox db)
     \<and> db' = db\<lparr>db_outbox := update_where p f (db_outbox db),
                db_results := fold result_status_trigger (map f (filter p (db_outbox db)))
                                (db_results db)\<rparr>"
  by (auto simp: update_outbox_def Let_def count_where_def list_all_iff)

lemma update_outbox_outbox:
  "update_outbox p f db = Some (db', n) \<Longrightarrow> db_outbox db' = update_where p f (db_outbox db)"
  by (simp add: update_outbox_Some)

lemma update_outbox_frame:
  assumes "update_outbox p f db = Some (db', n)"
  shows "db_devices db' = db_devices db" "db_shares db' = db_shares db"
    "db_actions db' = db_actions db" "db_bundles db' = db_bundles db"
    "db_segments db' = db_segments db"
  using assms by (simp_all add: update_outbox_Some)

lemma update_outbox_none:
  assumes "\<And>r. r \<in> set (db_outbox db) \<Longrightarrow> \<not> p r"
  shows "update_outbox p f db = Some (db, 0)"
proof -
  have "filter p (db_outbox db) = []" using assms by (auto simp: filter_empty_conv)
  moreover have "update_where p f (db_outbox db) = db_outbox db"
    using assms by (rule update_where_none)
  ultimately show ?thesis by (simp add: update_outbox_def)
qed

lemma keys_unique_update_where:
  assumes "frozen_columns f"
  shows "outbox_keys_unique (update_where p f t) = outbox_keys_unique t"
  using assms by (simp add: outbox_keys_unique_def frozen_columns_def map_update_where)

lemma schema_inv_update:
  assumes "schema_inv db" "frozen_columns f" "update_outbox p f db = Some (db', n)"
  shows "schema_inv db'"
proof -
  have "outbox_checks r'" if "r' \<in> set (update_where p f (db_outbox db))" for r'
    using that assms by (auto elim!: update_where_mem simp: update_outbox_Some schema_inv_def list_all_iff)
  with assms show ?thesis
    by (auto simp: schema_inv_def update_outbox_Some keys_unique_update_where list_all_iff)
qed

lemma schema_inv_insert:
  assumes "schema_inv db" "insert_outbox new db = Some (db', n)"
  shows "schema_inv db'"
  using assms
  by (auto simp: schema_inv_def insert_outbox_def outbox_keys_unique_def outbox_collides_def
      list_ex_iff list_all_iff split: if_splits) metis+

lemma schema_inv_id_unique:
  "schema_inv db \<Longrightarrow> r \<in> set (db_outbox db) \<Longrightarrow> r' \<in> set (db_outbox db) \<Longrightarrow> ob_id r = ob_id r' \<Longrightarrow> r = r'"
  by (auto simp: schema_inv_def outbox_keys_unique_def distinct_map inj_on_def)

lemma schema_inv_checks: "schema_inv db \<Longrightarrow> r \<in> set (db_outbox db) \<Longrightarrow> outbox_checks r"
  by (simp add: schema_inv_def list_all_iff)

end
