(* ===== verification/Outbox_Ingress.thy ===== *)
theory Outbox_Ingress
  imports Relay_Schema
begin

text \<open>
  Accepting notifications into the relay's durable outbox: the request types and errors of
  \<open>apps/server/src/outbox/model.rs\<close>, the validation of \<open>validation.rs\<close> and the idempotent insert of
  \<open>ingress.rs\<close> with the payload digest it compares replays by. The BLAKE3 hasher is outside the
  repository: the digest of the framed payload is the parameter \<open>blake3\<close>, a function from the
  bytes fed to the hasher to the hexadecimal digest. A fresh UUID is an argument, and so is the
  reading of the system clock.
\<close>

section \<open>Requests, receipts and errors\<close>

record relay_notification =
  nt_schema_version :: i64
  nt_notification_id :: string
  nt_dedupe_key :: string
  nt_kind :: string
  nt_priority :: i64
  nt_title :: string
  nt_body :: string
  nt_correlation_key :: "string option"
  nt_created_at :: i64
  nt_expires_at :: i64

record interactive_reply =
  ir_schema_version :: i64
  ir_notification_id :: string
  ir_dedupe_key :: string
  ir_priority :: i64
  ir_target_account_fingerprint :: string
  ir_title :: string
  ir_body :: string
  ir_sensitive_body :: bool
  ir_correlation_key :: "string option"
  ir_created_at :: i64
  ir_expires_at :: i64

record accepted_notification =
  an_notification_id :: string
  an_relay_status :: string
  an_existing :: bool
  an_accepted_at :: i64

datatype outbox_error =
    Validation | IdempotencyConflict | NotFound | QueueFull | TargetUnavailable
  | CryptoUnavailable | CorruptContent | Database | Clock

definition into_parts :: "interactive_reply \<Rightarrow> relay_notification \<times> string \<times> bool" where
  "into_parts r =
     (\<lparr>nt_schema_version = ir_schema_version r, nt_notification_id = ir_notification_id r,
        nt_dedupe_key = ir_dedupe_key r, nt_kind = ''interactive_reply'',
        nt_priority = ir_priority r, nt_title = ir_title r, nt_body = ir_body r,
        nt_correlation_key = ir_correlation_key r, nt_created_at = ir_created_at r,
        nt_expires_at = ir_expires_at r\<rparr>,
      ir_target_account_fingerprint r, ir_sensitive_body r)"

section \<open>The service\<close>

text \<open>
  The pool is the database; \<open>sv_wake\<close> is the permit of the \<open>Notify\<close> the worker sleeps on, which
  \<open>notify_one\<close> sets. Best-effort WAL checkpoints have no logical effect and are not modelled.
\<close>

record outbox_service =
  sv_db :: relay_db
  sv_wake :: bool

definition notify_worker :: "outbox_service \<Rightarrow> outbox_service" where
  "notify_worker sv = sv\<lparr>sv_wake := True\<rparr>"

text \<open>
  \<open>unix_timestamp_ms\<close>: \<open>None\<close> is a clock before the epoch, a reading that does not fit i64 is a
  clock error too.
\<close>

definition unix_timestamp_ms :: "nat option \<Rightarrow> outbox_error + i64" where
  "unix_timestamp_ms millis =
     (case millis of
        None \<Rightarrow> Inl Clock
      | Some m \<Rightarrow> if int m \<le> i64_max then Inr (int m) else Inl Clock)"

section \<open>Validation\<close>

definition max_ttl_ms :: i64 where "max_ttl_ms = 30 * 24 * 60 * 60 * 1000"

definition allowed_kinds :: "string list" where
  "allowed_kinds =
     [''run_started'', ''run_completed'', ''run_failed'', ''run_interrupted'',
      ''attention_required'', ''test'', ''generic'', ''interactive_reply'']"

definition byte_length_between :: "string \<Rightarrow> nat \<Rightarrow> nat \<Rightarrow> bool" where
  "byte_length_between v lo hi \<longleftrightarrow> lo \<le> length v \<and> length v \<le> hi"

definition char_length_between :: "string \<Rightarrow> nat \<Rightarrow> nat \<Rightarrow> bool" where
  "char_length_between v lo hi \<longleftrightarrow> lo \<le> chars_count v \<and> chars_count v \<le> hi"

definition validate_notification :: "relay_notification \<Rightarrow> i64 \<Rightarrow> outbox_error + unit" where
  "validate_notification n accepted_at =
     ensure Validation
       (nt_schema_version n = 1
        \<and> byte_length_between (nt_notification_id n) 1 128
        \<and> byte_length_between (nt_dedupe_key n) 1 256
        \<and> nt_kind n \<in> set allowed_kinds
        \<and> 0 \<le> nt_priority n \<and> nt_priority n \<le> 255
        \<and> char_length_between (nt_title n) 1 128
        \<and> char_length_between (nt_body n) 1 6000
        \<and> (case nt_correlation_key n of None \<Rightarrow> True | Some v \<Rightarrow> byte_length_between v 1 128)
        \<and> 0 \<le> nt_created_at n
        \<and> nt_created_at n < nt_expires_at n
        \<and> accepted_at < nt_expires_at n
        \<and> i64_sub (nt_expires_at n) accepted_at \<le> max_ttl_ms)"

definition validate_target_account_fingerprint :: "string \<Rightarrow> outbox_error + unit" where
  "validate_target_account_fingerprint v =
     ensure Validation
       (case strip_prefix ''wx:'' v of
          None \<Rightarrow> False
        | Some d \<Rightarrow> length d = 64 \<and> list_all lower_hex d)"

section \<open>Payload digest\<close>

definition payload_frames :: "relay_notification \<Rightarrow> string option \<Rightarrow> string list" where
  "payload_frames n target =
     [i64_be_bytes (nt_schema_version n), nt_kind n, nt_title n, nt_body n,
      i64_be_bytes (nt_priority n)]
     @ (case nt_correlation_key n of Some v \<Rightarrow> [[char_of (1 :: nat)], v] | None \<Rightarrow> [[char_of (0 :: nat)]])
     @ [i64_be_bytes (nt_created_at n), i64_be_bytes (nt_expires_at n)]
     @ (case target of Some t \<Rightarrow> [''target_account_fingerprint'', t] | None \<Rightarrow> [])"

definition payload_bytes :: "relay_notification \<Rightarrow> string option \<Rightarrow> string" where
  "payload_bytes n target = concat (map frame (payload_frames n target))"

definition payload_hash_with_target ::
  "(string \<Rightarrow> string) \<Rightarrow> relay_notification \<Rightarrow> string option \<Rightarrow> string" where
  "payload_hash_with_target blake3 n target = blake3 (payload_bytes n target)"

text \<open>
  The values a request of the wire format can hold: integers in the i64 range and strings whose
  length fits the frame header. The digest covers every field but the two keys.
\<close>

definition representable :: "relay_notification \<Rightarrow> string option \<Rightarrow> bool" where
  "representable n target \<longleftrightarrow>
     list_all in_i64 [nt_schema_version n, nt_priority n, nt_created_at n, nt_expires_at n]
     \<and> list_all (\<lambda>v. length v < 2 ^ 64) [nt_kind n, nt_title n, nt_body n]
     \<and> pred_option (\<lambda>v. length v < 2 ^ 64) (nt_correlation_key n)
     \<and> pred_option (\<lambda>v. length v < 2 ^ 64) target"

definition same_payload ::
  "relay_notification \<Rightarrow> string option \<Rightarrow> relay_notification \<Rightarrow> string option \<Rightarrow> bool" where
  "same_payload n target n' target' \<longleftrightarrow>
     n\<lparr>nt_notification_id := [], nt_dedupe_key := []\<rparr> = n'\<lparr>nt_notification_id := [], nt_dedupe_key := []\<rparr>
     \<and> target = target'"

section \<open>Staging\<close>

datatype outbox_origin = Device string | SystemInteractive | Admin

primrec origin_kind_of :: "outbox_origin \<Rightarrow> origin_kind" where
  "origin_kind_of (Device d) = OriginDevice"
| "origin_kind_of SystemInteractive = OriginSystem"
| "origin_kind_of Admin = OriginAdmin"

primrec origin_key_of :: "outbox_origin \<Rightarrow> string" where
  "origin_key_of (Device d) = ''device:'' @ d"
| "origin_key_of SystemInteractive = ''system:interactive''"
| "origin_key_of Admin = ''admin:singleton''"

primrec origin_device_id_of :: "outbox_origin \<Rightarrow> string option" where
  "origin_device_id_of (Device d) = Some d"
| "origin_device_id_of SystemInteractive = None"
| "origin_device_id_of Admin = None"

definition staged_row ::
  "string \<Rightarrow> outbox_origin \<Rightarrow> relay_notification \<Rightarrow> string \<Rightarrow> string option \<Rightarrow> bool \<Rightarrow> i64 \<Rightarrow> outbox_row"
where
  "staged_row row_id origin n hash target sensitive accepted_at =
     \<lparr>ob_id = row_id, ob_origin_kind = origin_kind_of origin, ob_origin_key = origin_key_of origin,
      ob_origin_device_id = origin_device_id_of origin,
      ob_notification_id = nt_notification_id n, ob_dedupe_key = nt_dedupe_key n,
      ob_payload_hash = hash, ob_kind = nt_kind n, ob_target_account_fingerprint = target,
      ob_title = nt_title n, ob_body = nt_body n, ob_body_kind = PlainBody,
      ob_protected_body_ciphertext = None, ob_protected_body_nonce = None,
      ob_result_row_id = None, ob_correlation_key = nt_correlation_key n,
      ob_priority = nt_priority n, ob_status = PendingChannel, ob_not_before = accepted_at,
      ob_expires_at = nt_expires_at n, ob_attempt_count = 0, ob_claim_token = None,
      ob_claimed_at = None, ob_next_attempt_at = None, ob_last_error_code = None,
      ob_last_error_message = None, ob_provider_message_id = None,
      ob_provider_accepted_at = None, ob_created_at = accepted_at, ob_updated_at = accepted_at,
      ob_sensitive_body = sensitive\<rparr>"

definition replayed :: "outbox_row \<Rightarrow> outbox_row list \<Rightarrow> outbox_error + accepted_notification" where
  "replayed new collisions =
     (case collisions of
        [r] \<Rightarrow>
          if ob_notification_id r = ob_notification_id new \<and> ob_dedupe_key r = ob_dedupe_key new
             \<and> ob_payload_hash r = ob_payload_hash new
          then Inr \<lparr>an_notification_id = ob_notification_id new, an_relay_status = ''accepted'',
                    an_existing = True, an_accepted_at = ob_created_at r\<rparr>
          else Inl IdempotencyConflict
      | _ \<Rightarrow> Inl IdempotencyConflict)"

definition stage_origin_in ::
  "(string \<Rightarrow> string) \<Rightarrow> string \<Rightarrow> outbox_origin \<Rightarrow> relay_notification \<Rightarrow> string option \<Rightarrow> bool \<Rightarrow> i64
   \<Rightarrow> relay_db \<Rightarrow> outbox_error + (relay_db \<times> accepted_notification)"
where
  "stage_origin_in blake3 row_id origin n target sensitive accepted_at db =
     and_then (validate_notification n accepted_at) (\<lambda>_.
       let new = staged_row row_id origin n (payload_hash_with_target blake3 n target) target
                   sensitive accepted_at
       in and_then (ok_or Database (insert_outbox new db)) (\<lambda>(db', inserted).
            if inserted = 1
            then Inr (db', \<lparr>an_notification_id = nt_notification_id n, an_relay_status = ''accepted'',
                            an_existing = False, an_accepted_at = accepted_at\<rparr>)
            else and_then (replayed new (filter (outbox_collides new) (db_outbox db'))) (\<lambda>receipt.
                   Inr (db', receipt))))"

text \<open>
  A failed stage drops the transaction, so an error leaves the database as it was; a first
  acceptance wakes the worker after the commit.
\<close>

definition commit_staged ::
  "outbox_service \<Rightarrow> outbox_error + (relay_db \<times> accepted_notification)
   \<Rightarrow> (outbox_service, outbox_error, accepted_notification) effect" where
  "commit_staged sv staged =
     (case staged of
        Inl e \<Rightarrow> (sv, Inl e)
      | Inr (db', accepted) \<Rightarrow>
          let sv' = sv\<lparr>sv_db := db'\<rparr>
          in (if an_existing accepted then sv' else notify_worker sv', Inr accepted))"

definition enqueue_device_at ::
  "(string \<Rightarrow> string) \<Rightarrow> string \<Rightarrow> string \<Rightarrow> relay_notification \<Rightarrow> i64 \<Rightarrow> outbox_service
   \<Rightarrow> (outbox_service, outbox_error, accepted_notification) effect" where
  "enqueue_device_at blake3 row_id device_id n accepted_at sv =
     (if nt_kind n = ''interactive_reply'' then (sv, Inl Validation)
      else commit_staged sv
             (stage_origin_in blake3 row_id (Device device_id) n None False accepted_at (sv_db sv)))"

definition stage_system_reply_in ::
  "(string \<Rightarrow> string) \<Rightarrow> string \<Rightarrow> interactive_reply \<Rightarrow> i64 \<Rightarrow> relay_db
   \<Rightarrow> outbox_error + (relay_db \<times> accepted_notification)" where
  "stage_system_reply_in blake3 row_id reply accepted_at db =
     (let (n, target, sensitive) = into_parts reply
      in and_then (validate_target_account_fingerprint target) (\<lambda>_.
           stage_origin_in blake3 row_id SystemInteractive n (Some target) sensitive accepted_at db))"

definition enqueue_system_reply_at ::
  "(string \<Rightarrow> string) \<Rightarrow> string \<Rightarrow> interactive_reply \<Rightarrow> i64 \<Rightarrow> outbox_service
   \<Rightarrow> (outbox_service, outbox_error, accepted_notification) effect" where
  "enqueue_system_reply_at blake3 row_id reply accepted_at sv =
     commit_staged sv (stage_system_reply_in blake3 row_id reply accepted_at (sv_db sv))"

definition admin_test_ttl_ms :: i64 where "admin_test_ttl_ms = 5 * 60 * 1000"

definition admin_test_title :: string where
  "admin_test_title = ''PromptDock Relay '' @ utf8_encode [0x6D4B, 0x8BD5]"

definition admin_test_body :: string where
  "admin_test_body =
     utf8_encode [0x2705] @ '' PromptDock Relay '' @ utf8_encode [0x6D4B, 0x8BD5, 0x901A, 0x77E5]"

definition admin_test_notification :: "string \<Rightarrow> i64 \<Rightarrow> relay_notification" where
  "admin_test_notification uuid accepted_at =
     \<lparr>nt_schema_version = 1, nt_notification_id = ''admin-test-'' @ uuid,
      nt_dedupe_key = ''admin-test-'' @ uuid, nt_kind = ''test'', nt_priority = 100,
      nt_title = admin_test_title, nt_body = admin_test_body, nt_correlation_key = None,
      nt_created_at = accepted_at,
      nt_expires_at = i64_saturating_add accepted_at admin_test_ttl_ms\<rparr>"

definition enqueue_admin_test_at ::
  "(string \<Rightarrow> string) \<Rightarrow> string \<Rightarrow> string \<Rightarrow> i64 \<Rightarrow> outbox_service
   \<Rightarrow> (outbox_service, outbox_error, accepted_notification) effect" where
  "enqueue_admin_test_at blake3 row_id uuid accepted_at sv =
     commit_staged sv
       (stage_origin_in blake3 row_id Admin (admin_test_notification uuid accepted_at) None False
          accepted_at (sv_db sv))"

text \<open>The new row meets the constraints, its device exists and its identifier is fresh.\<close>

definition stageable :: "outbox_row \<Rightarrow> relay_db \<Rightarrow> bool" where
  "stageable new db \<longleftrightarrow>
     outbox_checks new \<and> device_exists db (ob_origin_device_id new)
     \<and> (\<forall>r \<in> set (db_outbox db). ob_id r \<noteq> ob_id new)"

section \<open>A demonstration state\<close>

definition demo_device :: device_row where
  "demo_device = \<lparr>dv_id = ''d1'', dv_name = ''Desk'', dv_token_hash = [], dv_enabled = True, dv_credential_version = 2,
      dv_created_at = 0, dv_last_seen_at = None, dv_revoked_at = None, dv_rotated_at = None\<rparr>"

definition demo_notification :: relay_notification where
  "demo_notification =
     \<lparr>nt_schema_version = 1, nt_notification_id = ''n1'', nt_dedupe_key = ''k1'', nt_kind = ''generic'',
      nt_priority = 5, nt_title = ''t'', nt_body = ''b'', nt_correlation_key = None,
      nt_created_at = 10, nt_expires_at = 1000\<rparr>"

definition demo_db :: relay_db where
  "demo_db =
     \<lparr>db_devices = [demo_device], db_scopes = [], db_outbox = [], db_results = [], db_shares = [], db_actions = [],
      db_bundles = [], db_segments = []\<rparr>"

text \<open>The database after the demonstration notification was accepted at time 20.\<close>

definition demo_row :: outbox_row where
  "demo_row =
     staged_row ''r1'' (Device ''d1'') demo_notification
       (payload_hash_with_target id demo_notification None) None False 20"

definition demo_service :: outbox_service where
  "demo_service = \<lparr>sv_db = demo_db\<lparr>db_outbox := [demo_row]\<rparr>, sv_wake = True\<rparr>"

section \<open>Lemmas: the payload digest\<close>

lemma same_payload_iff:
  "same_payload n target n' target' \<longleftrightarrow>
     nt_schema_version n = nt_schema_version n' \<and> nt_kind n = nt_kind n' \<and> nt_priority n = nt_priority n'
     \<and> nt_title n = nt_title n' \<and> nt_body n = nt_body n'
     \<and> nt_correlation_key n = nt_correlation_key n' \<and> nt_created_at n = nt_created_at n'
     \<and> nt_expires_at n = nt_expires_at n' \<and> target = target'"
  by (cases n; cases n') (simp add: same_payload_def)

lemma payload_frames_lengths:
  "representable n target \<Longrightarrow> list_all (\<lambda>v. length v < 2 ^ 64) (payload_frames n target)"
  by (auto simp: representable_def payload_frames_def i64_be_bytes_def split: option.splits)

lemma payload_frames_inject:
  assumes "representable n target" "representable n' target'"
    and "payload_frames n target = payload_frames n' target'"
  shows "same_payload n target n' target'"
  using assms
  by (auto simp: same_payload_iff representable_def payload_frames_def i64_be_bytes_inject
      split: option.splits)

lemma payload_bytes_inject:
  assumes "representable n target" "representable n' target'"
    and "payload_bytes n target = payload_bytes n' target'"
  shows "same_payload n target n' target'"
proof -
  have "payload_frames n target = payload_frames n' target'"
    using assms framing.concat_inject payload_frames_lengths
    unfolding payload_bytes_def by blast
  with assms show ?thesis by (blast intro: payload_frames_inject)
qed

lemma same_payload_hash:
  "same_payload n target n' target' \<Longrightarrow>
   payload_hash_with_target blake3 n target = payload_hash_with_target blake3 n' target'"
  by (simp add: same_payload_iff payload_hash_with_target_def payload_bytes_def payload_frames_def)

section \<open>Lemmas: staging\<close>

lemma sql_length_le_chars: "sql_length v \<le> chars_count v"
  by (simp add: sql_length_def chars_count_def length_takeWhile_le)

lemma lower_hex_ascii: "lower_hex c \<Longrightarrow> byte_of c < 128 \<and> byte_of c \<noteq> 0 \<and> hex_code_point (byte_of c)"
  by (auto simp: lower_hex_def ascii_digit_def hex_code_point_def)

lemma validated_fingerprint:
  assumes "validate_target_account_fingerprint v = Inr ()"
  shows "fingerprint_check v"
proof -
  obtain d where d: "strip_prefix ''wx:'' v = Some d" "length d = 64" "list_all lower_hex d"
    using assms by (auto simp: validate_target_account_fingerprint_def split: option.splits)
  then have v: "v = ''wx:'' @ d" by (simp only: strip_prefix_Some)
  from d(3) have ascii: "list_all (\<lambda>c. byte_of c < 128) v"
    and nz: "list_all (\<lambda>c. byte_of c \<noteq> 0) v" and hex: "list_all hex_code_point (map byte_of d)"
    unfolding v using lower_hex_ascii by (auto simp: list_all_iff byte_of_def)
  have dec: "utf8_decode v = map byte_of v" using ascii by (rule utf8_decode_ascii)
  from nz have "takeWhile (\<lambda>n. n \<noteq> 0) (map byte_of v) = map byte_of v"
    by (simp add: takeWhile_eq_all_conv list_all_iff)
  then show ?thesis using d(2) hex unfolding fingerprint_check_def sql_length_def dec by (simp add: v)
qed

text \<open>The kind and target each origin's caller passes make the staged row satisfy the schema.\<close>

lemma staged_row_checks:
  assumes "validate_notification n accepted_at = Inr ()"
    and "case origin of
           Device d \<Rightarrow> nt_kind n \<noteq> ''interactive_reply'' \<and> target = None
         | SystemInteractive \<Rightarrow> nt_kind n = ''interactive_reply'' \<and>
             (\<exists>f. target = Some f \<and> validate_target_account_fingerprint f = Inr ())
         | Admin \<Rightarrow> nt_kind n = ''test'' \<and> target = None"
  shows "outbox_checks (staged_row row_id origin n hash target sensitive accepted_at)"
proof -
  have "sql_length (nt_title n) \<le> 128" "sql_length (nt_body n) \<le> 6000"
    using assms(1) sql_length_le_chars [of "nt_title n"] sql_length_le_chars [of "nt_body n"]
    by (auto simp: validate_notification_def char_length_between_def)
  moreover have "nt_kind n \<noteq> ''result_link''"
    using assms(1) by (auto simp: validate_notification_def allowed_kinds_def)
  ultimately show ?thesis using assms validated_fingerprint
    by (cases origin)
      (auto simp: outbox_checks_def staged_row_def validate_notification_def target_check_def
        body_kind_check_def origin_check_def kind_check_def claim_check_def like_prefix_def)
qed

lemma staged_row_sel [simp]:
  "ob_id (staged_row i og n h t se a) = i" "ob_origin_key (staged_row i og n h t se a) = origin_key_of og"
  "ob_origin_device_id (staged_row i og n h t se a) = origin_device_id_of og"
  "ob_notification_id (staged_row i og n h t se a) = nt_notification_id n"
  "ob_dedupe_key (staged_row i og n h t se a) = nt_dedupe_key n"
  "ob_payload_hash (staged_row i og n h t se a) = h" "ob_status (staged_row i og n h t se a) = PendingChannel"
  "ob_created_at (staged_row i og n h t se a) = a" "ob_expires_at (staged_row i og n h t se a) = nt_expires_at n"
  "ob_not_before (staged_row i og n h t se a) = a" "ob_next_attempt_at (staged_row i og n h t se a) = None"
  "ob_sensitive_body (staged_row i og n h t se a) = se" "ob_body (staged_row i og n h t se a) = nt_body n"
  "ob_body_kind (staged_row i og n h t se a) = PlainBody"
  "ob_provider_accepted_at (staged_row i og n h t se a) = None"
  by (simp_all add: staged_row_def)


lemma insert_outbox_collision:
  "outbox_checks new \<Longrightarrow> list_ex (outbox_collides new) (db_outbox db) \<Longrightarrow> insert_outbox new db = Some (db, 0)"
  by (simp add: insert_outbox_def)

lemma insert_outbox_fresh:
  assumes "stageable new db" "\<not> list_ex (outbox_collides new) (db_outbox db)"
  shows "insert_outbox new db = Some (db\<lparr>db_outbox := db_outbox db @ [new]\<rparr>, 1)"
  using assms by (auto simp: insert_outbox_def stageable_def list_ex_iff)

lemma insert_outbox_SomeD:
  assumes "insert_outbox new db = Some (db', k)"
  shows "outbox_checks new" "\<not> list_ex (outbox_collides new) (db_outbox db) \<Longrightarrow> stageable new db"
  using assms by (auto simp: insert_outbox_def stageable_def list_ex_iff split: if_splits)


lemma collisions_single:
  assumes "schema_inv db" "r \<in> set (db_outbox db)" "ob_origin_key r = ob_origin_key new"
    and "ob_notification_id r = ob_notification_id new" "ob_dedupe_key r = ob_dedupe_key new"
  shows "filter (outbox_collides new) (db_outbox db) = [r]"
proof (rule filter_unique)
  show "distinct (db_outbox db)"
    using assms(1) by (simp add: schema_inv_def outbox_keys_unique_def distinct_map)
  show "r' = r" if "r' \<in> set (db_outbox db)" "outbox_collides new r'" for r'
    using assms that
    by (auto simp: schema_inv_def outbox_keys_unique_def distinct_map inj_on_def outbox_collides_def)
qed (use assms in \<open>simp_all add: outbox_collides_def\<close>)

lemma replayed_Inr:
  "replayed new cs = Inr a \<longleftrightarrow>
     (\<exists>r. cs = [r] \<and> ob_notification_id r = ob_notification_id new \<and> ob_dedupe_key r = ob_dedupe_key new
        \<and> ob_payload_hash r = ob_payload_hash new
        \<and> a = \<lparr>an_notification_id = ob_notification_id new, an_relay_status = ''accepted'',
               an_existing = True, an_accepted_at = ob_created_at r\<rparr>)"
  by (auto simp: replayed_def split: list.splits if_splits)

lemma replayed_Inl: "replayed new cs = Inl e \<Longrightarrow> e = IdempotencyConflict"
  by (auto simp: replayed_def split: list.splits if_splits)

text \<open>The three outcomes of a stage whose row may be inserted.\<close>

lemma stage_fresh:
  assumes "validate_notification n t = Inr ()"
    and "new = staged_row i og n (payload_hash_with_target b3 n tg) tg se t" "stageable new db"
    and "\<And>r. r \<in> set (db_outbox db) \<Longrightarrow> \<not> outbox_collides new r"
  shows "stage_origin_in b3 i og n tg se t db =
    Inr (db\<lparr>db_outbox := db_outbox db @ [new]\<rparr>,
         \<lparr>an_notification_id = nt_notification_id n, an_relay_status = ''accepted'',
          an_existing = False, an_accepted_at = t\<rparr>)"
proof -
  have "\<not> list_ex (outbox_collides new) (db_outbox db)" using assms(4) by (simp add: list_ex_iff)
  then show ?thesis using assms(1-3)
    by (simp add: stage_origin_in_def Let_def insert_outbox_fresh)
qed

lemma stage_collision:
  assumes "validate_notification n t = Inr ()"
    and "new = staged_row i og n (payload_hash_with_target b3 n tg) tg se t" "outbox_checks new"
    and "r \<in> set (db_outbox db)" "outbox_collides new r"
  shows "stage_origin_in b3 i og n tg se t db =
    and_then (replayed new (filter (outbox_collides new) (db_outbox db))) (\<lambda>receipt. Inr (db, receipt))"
proof -
  have "list_ex (outbox_collides new) (db_outbox db)" using assms(4,5) by (auto simp: list_ex_iff)
  then show ?thesis using assms(1-3)
    by (simp add: stage_origin_in_def Let_def insert_outbox_collision)
qed

lemma stage_origin_in_Inr:
  assumes st: "stage_origin_in b3 i og n tg se t db = Inr (db', a)"
    and new: "new = staged_row i og n (payload_hash_with_target b3 n tg) tg se t"
  obtains (inserted) "validate_notification n t = Inr ()" "stageable new db"
      "db' = db\<lparr>db_outbox := db_outbox db @ [new]\<rparr>" "insert_outbox new db = Some (db', 1)"
      "\<not> an_existing a" "an_accepted_at a = t" "an_notification_id a = nt_notification_id n"
    | (existing) r where "db' = db" "r \<in> set (db_outbox db)" "ob_origin_key r = origin_key_of og"
      "ob_notification_id r = nt_notification_id n" "ob_dedupe_key r = nt_dedupe_key n"
      "ob_payload_hash r = ob_payload_hash new" "an_existing a" "an_accepted_at a = ob_created_at r"
proof -
  from st have v: "validate_notification n t = Inr ()"
    by (cases "validate_notification n t") (simp_all add: stage_origin_in_def)
  from st v obtain db1 k where i: "insert_outbox new db = Some (db1, k)"
    by (cases "insert_outbox new db") (auto simp: stage_origin_in_def Let_def new)
  note c = insert_outbox_SomeD [OF i]
  show ?thesis
  proof (cases "list_ex (outbox_collides new) (db_outbox db)")
    case False
    then have s: "stageable new db" by (rule c(2))
    have "stage_origin_in b3 i og n tg se t db =
      Inr (db\<lparr>db_outbox := db_outbox db @ [new]\<rparr>,
           \<lparr>an_notification_id = nt_notification_id n, an_relay_status = ''accepted'',
            an_existing = False, an_accepted_at = t\<rparr>)"
      using False by (intro stage_fresh v new s) (simp add: list_ex_iff)
    with st have db': "db' = db\<lparr>db_outbox := db_outbox db @ [new]\<rparr>"
      and a: "a = \<lparr>an_notification_id = nt_notification_id n, an_relay_status = ''accepted'',
            an_existing = False, an_accepted_at = t\<rparr>" by simp_all
    have "insert_outbox new db = Some (db', 1)"
      unfolding db' using s False by (rule insert_outbox_fresh)
    then show ?thesis by (rule inserted [OF v s db']) (simp_all add: a)
  next
    case True
    then obtain r0 where "r0 \<in> set (db_outbox db)" "outbox_collides new r0" by (auto simp: list_ex_iff)
    from stage_collision [OF v new c(1) this]
    have "and_then (replayed new (filter (outbox_collides new) (db_outbox db)))
            (\<lambda>receipt. Inr (db, receipt)) = Inr (db', a)"
      unfolding st by (rule sym)
    then obtain r where r: "filter (outbox_collides new) (db_outbox db) = [r]" "db' = db"
        "ob_notification_id r = ob_notification_id new" "ob_dedupe_key r = ob_dedupe_key new"
        "ob_payload_hash r = ob_payload_hash new"
        "a = \<lparr>an_notification_id = ob_notification_id new, an_relay_status = ''accepted'',
              an_existing = True, an_accepted_at = ob_created_at r\<rparr>"
      unfolding and_then_eq_Inr replayed_Inr by blast
    from r(1) have "r \<in> set (filter (outbox_collides new) (db_outbox db))" by simp
    then have "r \<in> set (db_outbox db)" "ob_origin_key r = ob_origin_key new"
      by (simp_all add: outbox_collides_def)
    with r(2-6) show ?thesis by (intro existing [of r]) (simp_all add: new)
  qed
qed

lemma commit_staged_error: "commit_staged sv st = (sv', Inl e) \<Longrightarrow> sv' = sv"
  by (auto simp: commit_staged_def Let_def split: sum.splits prod.splits if_splits)

lemma commit_staged_db:
  "sv_db (fst (commit_staged sv st)) = (case st of Inl _ \<Rightarrow> sv_db sv | Inr (db', _) \<Rightarrow> db')"
  by (auto simp: commit_staged_def notify_worker_def Let_def split: sum.splits prod.splits)

lemma stage_origin_in_inv:
  assumes "schema_inv db" "stage_origin_in b3 i og n tg se t db = Inr (db', a)"
  shows "schema_inv db'"
  using assms(2) refl
proof (cases rule: stage_origin_in_Inr)
  case inserted
  with assms(1) show ?thesis by (blast intro: schema_inv_insert)
next
  case existing
  with assms(1) show ?thesis by simp
qed

lemma device_new_checks:
  assumes "nt_kind n \<noteq> ''interactive_reply''" "validate_notification n t = Inr ()"
  shows "outbox_checks (staged_row i (Device d) n h None se t)"
  using assms by (intro staged_row_checks) simp_all

lemma replay_receipt:
  assumes "schema_inv db" "validate_notification n t = Inr ()"
    and new: "new = staged_row i og n (payload_hash_with_target b3 n tg) tg se t" "outbox_checks new"
    and r: "r \<in> set (db_outbox db)" "ob_origin_key r = origin_key_of og"
      "ob_notification_id r = nt_notification_id n" "ob_dedupe_key r = nt_dedupe_key n"
      "ob_payload_hash r = payload_hash_with_target b3 n tg"
  shows "stage_origin_in b3 i og n tg se t db =
    Inr (db, \<lparr>an_notification_id = nt_notification_id n, an_relay_status = ''accepted'',
              an_existing = True, an_accepted_at = ob_created_at r\<rparr>)"
proof -
  have "outbox_collides new r" using r by (simp add: outbox_collides_def new)
  moreover have "filter (outbox_collides new) (db_outbox db) = [r]"
    using assms by (intro collisions_single) (simp_all add: new)
  ultimately show ?thesis
    using stage_collision [OF assms(2) new r(1)] r by (simp add: replayed_def new)
qed

lemma conflicting_receipt:
  assumes "schema_inv db" "validate_notification n t = Inr ()"
    and new: "new = staged_row i og n (payload_hash_with_target b3 n tg) tg se t" "outbox_checks new"
    and r: "r \<in> set (db_outbox db)" "outbox_collides new r"
      "ob_notification_id r \<noteq> nt_notification_id n \<or> ob_dedupe_key r \<noteq> nt_dedupe_key n
       \<or> ob_payload_hash r \<noteq> payload_hash_with_target b3 n tg"
  shows "stage_origin_in b3 i og n tg se t db = Inl IdempotencyConflict"
proof -
  have "replayed new (filter (outbox_collides new) (db_outbox db)) \<noteq> Inr a" for a
  proof
    assume "replayed new (filter (outbox_collides new) (db_outbox db)) = Inr a"
    then obtain r' where r': "filter (outbox_collides new) (db_outbox db) = [r']"
      "ob_notification_id r' = ob_notification_id new" "ob_dedupe_key r' = ob_dedupe_key new"
      "ob_payload_hash r' = ob_payload_hash new"
      unfolding replayed_Inr by blast
    have "r \<in> set (filter (outbox_collides new) (db_outbox db))" using r by simp
    then have "r = r'" unfolding r'(1) by simp
    with r r' show False by (simp add: new)
  qed
  then obtain e where e: "replayed new (filter (outbox_collides new) (db_outbox db)) = Inl e"
    by (cases "replayed new (filter (outbox_collides new) (db_outbox db))") auto
  then have "e = IdempotencyConflict" by (rule replayed_Inl)
  with e show ?thesis using stage_collision [OF assms(2) new r(1,2)] by simp
qed



lemma demo_valid:
  "validate_notification demo_notification 20 = Inr ()"
  "validate_notification demo_notification 30 = Inr ()"
  "validate_notification (demo_notification\<lparr>nt_body := ''c''\<rparr>) 30 = Inr ()"
  by code_simp+

lemma demo_representable:
  "representable demo_notification None" "representable (demo_notification\<lparr>nt_body := ''c''\<rparr>) None"
  by (simp_all add: representable_def demo_notification_def i64_simps)

lemma demo_service_sel:
  "db_outbox (sv_db demo_service) = [demo_row]" "device_exists (sv_db demo_service) (Some ''d1'')"
  "ob_id demo_row = ''r1''" "ob_created_at demo_row = 20" 
  by (simp_all add: demo_service_def demo_db_def device_exists_def demo_device_def demo_row_def)

lemma demo_schema_inv: "schema_inv (sv_db demo_service)"
proof -
  have "outbox_checks demo_row"
    unfolding demo_row_def using demo_valid(1) 
    by (intro staged_row_checks) (simp_all add: demo_notification_def)
  then show ?thesis by (simp add: schema_inv_def demo_service_sel outbox_keys_unique_def)
qed
lemmas demo_facts = demo_valid demo_representable demo_service_sel demo_schema_inv

text \<open>A device that repeats a stored request gets the receipt of its first acceptance.\<close>

lemma device_replay:
  assumes "schema_inv (sv_db sv)" "r \<in> set (db_outbox (sv_db sv))"
    and "ob_origin_key r = ''device:'' @ d" "ob_notification_id r = nt_notification_id n"
    and "ob_dedupe_key r = nt_dedupe_key n" "ob_payload_hash r = payload_hash_with_target blake3 n None"
    and "nt_kind n \<noteq> ''interactive_reply''" "validate_notification n t = Inr ()"
  shows "enqueue_device_at blake3 i d n t sv =
    (sv, Inr \<lparr>an_notification_id = nt_notification_id n, an_relay_status = ''accepted'',
              an_existing = True, an_accepted_at = ob_created_at r\<rparr>)"
proof -
  have "stage_origin_in blake3 i (Device d) n None False t (sv_db sv) =
    Inr (sv_db sv, \<lparr>an_notification_id = nt_notification_id n, an_relay_status = ''accepted'',
                    an_existing = True, an_accepted_at = ob_created_at r\<rparr>)"
    using assms by (intro replay_receipt [OF _ _ refl] device_new_checks) simp_all
  with assms(7) show ?thesis by (simp add: enqueue_device_at_def commit_staged_def)
qed

section \<open>Properties\<close>

text \<open>
  C14: A key is never reused for another payload: when a stored row of the device shares the
  notification identifier or the dedupe key, and the request differs from what the row was
  accepted with in a key or in any payload field, the request is refused as an idempotency
  conflict and nothing changes. The digest is assumed not to collide on these two payloads.
\<close>

theorem enqueue_device_conflict:
  assumes "schema_inv (sv_db sv)" "r \<in> set (db_outbox (sv_db sv))"
    and "ob_origin_key r = ''device:'' @ d"
    and "ob_notification_id r = nt_notification_id n \<or> ob_dedupe_key r = nt_dedupe_key n"
    and "ob_payload_hash r = payload_hash_with_target blake3 n0 None"
    and "representable n None" "representable n0 None"
    and "blake3 (payload_bytes n None) = blake3 (payload_bytes n0 None) \<Longrightarrow>
         payload_bytes n None = payload_bytes n0 None"
    and "ob_notification_id r \<noteq> nt_notification_id n \<or> ob_dedupe_key r \<noteq> nt_dedupe_key n
         \<or> \<not> same_payload n None n0 None"
    and "nt_kind n \<noteq> ''interactive_reply''" "validate_notification n t = Inr ()"
  shows "enqueue_device_at blake3 i d n t sv = (sv, Inl IdempotencyConflict)"
proof -
  have "ob_notification_id r \<noteq> nt_notification_id n \<or> ob_dedupe_key r \<noteq> nt_dedupe_key n
       \<or> ob_payload_hash r \<noteq> payload_hash_with_target blake3 n None"
    using assms(5-9) payload_bytes_inject [of n None n0 None]
    by (auto simp: payload_hash_with_target_def)
  then have "stage_origin_in blake3 i (Device d) n None False t (sv_db sv) = Inl IdempotencyConflict"
    using assms(1-4,10,11)
    by (intro conflicting_receipt [OF assms(1,11) refl _ assms(2)] device_new_checks)
      (simp_all add: outbox_collides_def)
  with assms(10) show ?thesis by (simp add: enqueue_device_at_def commit_staged_def)
qed

theorem enqueue_device_conflict_witness:
  "enqueue_device_at id ''r2'' ''d1'' (demo_notification\<lparr>nt_body := ''c''\<rparr>) 30 demo_service =
    (demo_service, Inl IdempotencyConflict)"
  using enqueue_device_conflict [of demo_service demo_row "''d1''" "demo_notification\<lparr>nt_body := ''c''\<rparr>"
      id demo_notification 30 "''r2''"] demo_facts
  by (simp add: demo_row_def same_payload_def demo_notification_def)


end
