(* ===== verification/Outbox_Delivery.thy ===== *)
theory Outbox_Delivery
  imports Outbox_Ingress
begin

text \<open>
  Delivering the relay's outbox: claiming, expiring and recovering rows
  (\<open>apps/server/src/outbox/claim.rs\<close>), the retry policy and the completion of a claim (\<open>retry.rs\<close>),
  the send-time resolution of result links (\<open>repository.rs\<close>) and one pass of the worker
  (\<open>worker.rs\<close>). UUIDs, clock readings, the provider channel, the AEAD cipher and UUID parsing are
  arguments.
\<close>

section \<open>Model types\<close>

record claimed_notification =
  cl_row_id :: string
  cl_claim_token :: string
  cl_origin_key :: string
  cl_target_account_fingerprint :: "string option"
  cl_notification_id :: string
  cl_dedupe_key :: string
  cl_kind :: string
  cl_title :: string
  cl_body :: string
  cl_correlation_key :: "string option"
  cl_priority :: i64
  cl_expires_at :: i64
  cl_attempt_count :: i64

record channel_message =
  cm_client_id :: string
  cm_body :: string
  cm_correlation_key :: "string option"
  cm_target_account_fingerprint :: "string option"

datatype retry_class = Network | RateLimited | ContextChanged | ContextRejected | AmbiguousMinusTwo

datatype channel_outcome =
    ChAccepted "string option"
  | ChCancelled
  | ChRetryable retry_class
  | ChBlockedActivation
  | ChBlockedReconnect
  | ChBlockedTargetChanged
  | ChPermanentFailure

primrec error_code :: "retry_class \<Rightarrow> string" where
  "error_code Network = ''NETWORK''"
| "error_code RateLimited = ''RATE_LIMITED''"
| "error_code ContextChanged = ''CONTEXT_CHANGED''"
| "error_code ContextRejected = ''CONTEXT_REJECTED''"
| "error_code AmbiguousMinusTwo = ''AMBIGUOUS_MINUS_TWO''"

definition redacted :: string where "redacted = ''[REDACTED]''"

definition execute_update ::
  "(outbox_row \<Rightarrow> bool) \<Rightarrow> (outbox_row \<Rightarrow> outbox_row) \<Rightarrow> outbox_service
   \<Rightarrow> (outbox_service, outbox_error, nat) effect" where
  "execute_update p f sv =
     (case update_outbox p f (sv_db sv) of
        None \<Rightarrow> (sv, Inl Database)
      | Some (db', n) \<Rightarrow> (sv\<lparr>sv_db := db'\<rparr>, Inr n))"

section \<open>Claiming\<close>

definition expirable :: "i64 \<Rightarrow> outbox_row \<Rightarrow> bool" where
  "expirable now r \<longleftrightarrow>
     ob_expires_at r \<le> now
     \<and> ob_status r \<in> {PendingChannel, RetryWait, BlockedActivation, BlockedReconnect}"

definition expire_row :: "i64 \<Rightarrow> outbox_row \<Rightarrow> outbox_row" where
  "expire_row now r =
     r\<lparr>ob_status := Expired, ob_claim_token := None, ob_claimed_at := None,
       ob_next_attempt_at := None,
       ob_body := (if ob_sensitive_body r then redacted else ob_body r),
       ob_updated_at := now\<rparr>"

definition expire_due_at :: "i64 \<Rightarrow> outbox_service \<Rightarrow> (outbox_service, outbox_error, nat) effect" where
  "expire_due_at now sv = execute_update (expirable now) (expire_row now) sv"

definition due :: "i64 \<Rightarrow> outbox_row \<Rightarrow> bool" where
  "due now r \<longleftrightarrow>
     ((ob_status r = PendingChannel \<and> ob_not_before r \<le> now)
      \<or> (ob_status r = RetryWait
         \<and> (case ob_next_attempt_at r of None \<Rightarrow> False | Some t \<Rightarrow> t \<le> now)))
     \<and> ob_expires_at r > now"

definition claim_order :: "outbox_row \<Rightarrow> i64 \<times> i64 \<times> i64 \<times> string" where
  "claim_order r =
     (- ob_priority r,
      (case ob_next_attempt_at r of Some t \<Rightarrow> t | None \<Rightarrow> ob_not_before r),
      ob_created_at r, ob_id r)"

definition claim_row :: "string \<Rightarrow> i64 \<Rightarrow> outbox_row \<Rightarrow> outbox_row" where
  "claim_row token now r =
     r\<lparr>ob_status := SendingChannel, ob_claim_token := Some token, ob_claimed_at := Some now,
       ob_attempt_count := ob_attempt_count r + 1, ob_updated_at := now\<rparr>"

text \<open>Reading the \<open>RETURNING\<close> row: a missing claim token does not decode as a string.\<close>

definition claimed_from_row :: "outbox_row \<Rightarrow> outbox_error + claimed_notification" where
  "claimed_from_row r =
     and_then (ok_or Database (ob_claim_token r)) (\<lambda>token.
       Inr \<lparr>cl_row_id = ob_id r, cl_claim_token = token, cl_origin_key = ob_origin_key r,
            cl_target_account_fingerprint = ob_target_account_fingerprint r,
            cl_notification_id = ob_notification_id r, cl_dedupe_key = ob_dedupe_key r,
            cl_kind = ob_kind r, cl_title = ob_title r, cl_body = ob_body r,
            cl_correlation_key = ob_correlation_key r, cl_priority = ob_priority r,
            cl_expires_at = ob_expires_at r, cl_attempt_count = ob_attempt_count r\<rparr>)"

definition claimable :: "string \<Rightarrow> outbox_row \<Rightarrow> bool" where
  "claimable rid r \<longleftrightarrow> ob_id r = rid \<and> ob_status r \<in> {PendingChannel, RetryWait}"

text \<open>The \<open>UPDATE .. RETURNING\<close> statement of a claim and the whole operation.\<close>

definition claim_due_at ::
  "string \<Rightarrow> i64 \<Rightarrow> outbox_service \<Rightarrow> (outbox_service, outbox_error, claimed_notification option) effect"
where
  "claim_due_at token now sv =
     (case first_row (select_ordered (due now) claim_order (db_outbox (sv_db sv))) of
        None \<Rightarrow> (sv, Inr None)
      | Some r \<Rightarrow>
          let returning = map (claim_row token now) (filter (claimable (ob_id r)) (db_outbox (sv_db sv)))
          in st_then (execute_update (claimable (ob_id r)) (claim_row token now) sv) (\<lambda>sv _.
               (sv, case first_row returning of
                      None \<Rightarrow> Inr None
                    | Some row \<Rightarrow> and_then (claimed_from_row row) (\<lambda>c. Inr (Some c)))))"

definition claim_next_at ::
  "string \<Rightarrow> i64 \<Rightarrow> outbox_service \<Rightarrow> (outbox_service, outbox_error, claimed_notification option) effect"
where
  "claim_next_at token now sv =
     st_then (expire_due_at now sv) (\<lambda>sv _. claim_due_at token now sv)"

definition stale_claim_ms :: i64 where "stale_claim_ms = 5 * 60 * 1000"

definition recover_row :: "i64 \<Rightarrow> outbox_row \<Rightarrow> outbox_row" where
  "recover_row now r =
     r\<lparr>ob_status := RetryWait, ob_claim_token := None, ob_claimed_at := None,
       ob_next_attempt_at := Some now, ob_last_error_code := Some ''STALE_CLAIM_RECOVERED'',
       ob_last_error_message := None, ob_updated_at := now\<rparr>"

definition stale_claim :: "i64 \<Rightarrow> outbox_row \<Rightarrow> bool" where
  "stale_claim now r \<longleftrightarrow>
     ob_status r = SendingChannel \<and> ob_expires_at r > now
     \<and> (case ob_claimed_at r of None \<Rightarrow> True | Some t \<Rightarrow> t < i64_sub now stale_claim_ms)"

definition recover_stale_claims_at ::
  "i64 \<Rightarrow> outbox_service \<Rightarrow> (outbox_service, outbox_error, nat) effect" where
  "recover_stale_claims_at now sv =
     st_then (execute_update (\<lambda>r. ob_status r = SendingChannel \<and> ob_expires_at r \<le> now)
                (expire_row now) sv) (\<lambda>sv expired.
       st_then (execute_update (stale_claim now) (recover_row now) sv) (\<lambda>sv retryable.
         (if retryable > 0 then notify_worker sv else sv, Inr (expired + retryable))))"

definition holds_claim :: "claimed_notification \<Rightarrow> outbox_row \<Rightarrow> bool" where
  "holds_claim c r \<longleftrightarrow>
     ob_id r = cl_row_id c \<and> ob_status r = SendingChannel \<and> ob_claim_token r = Some (cl_claim_token c)"

definition release_row :: "i64 \<Rightarrow> outbox_row \<Rightarrow> outbox_row" where
  "release_row now r =
     r\<lparr>ob_status := (if ob_expires_at r \<le> now then Expired else RetryWait),
       ob_next_attempt_at := (if ob_expires_at r \<le> now then None else Some now),
       ob_attempt_count := (if ob_attempt_count r > 0 then ob_attempt_count r - 1 else 0),
       ob_claim_token := None, ob_claimed_at := None,
       ob_last_error_code := Some ''SEND_CANCELLED'', ob_last_error_message := None,
       ob_body := (if ob_sensitive_body r \<and> ob_expires_at r \<le> now then redacted else ob_body r),
       ob_updated_at := now\<rparr>"

definition release_claim_at ::
  "claimed_notification \<Rightarrow> i64 \<Rightarrow> outbox_service \<Rightarrow> (outbox_service, outbox_error, bool) effect" where
  "release_claim_at c now sv =
     st_then (execute_update (holds_claim c) (release_row now) sv) (\<lambda>sv changed.
       (sv, Inr (changed = 1)))"

section \<open>Completing a claim\<close>

definition network_retry_ms :: "i64 list" where
  "network_retry_ms = [5000, 30000, 120000, 600000, 1800000]"

definition rate_limit_retry_ms :: "i64 list" where
  "rate_limit_retry_ms = [30000, 120000, 600000]"

definition retry_delay :: "i64 list \<Rightarrow> i64 \<Rightarrow> i64 option" where
  "retry_delay schedule attempt_count =
     (let i = i64_saturating_sub attempt_count 1
      in if i < 0 then None
         else if nat i < length schedule then Some (schedule ! nat i) else None)"

primrec retry_after :: "retry_class \<Rightarrow> i64 \<Rightarrow> i64 option" where
  "retry_after Network a = retry_delay network_retry_ms a"
| "retry_after RateLimited a = retry_delay rate_limit_retry_ms a"
| "retry_after ContextChanged a = (if a \<le> 1 then Some 0 else None)"
| "retry_after ContextRejected a = (if a \<le> 1 then Some 30000 else None)"
| "retry_after AmbiguousMinusTwo a = (if a \<le> 1 then Some 30000 else None)"

text \<open>\<open>None\<close> is the \<open>unreachable!\<close> arm: acceptance is handled before the transition is looked up.\<close>

fun failure_transition ::
  "channel_outcome \<Rightarrow> i64 \<Rightarrow> i64 \<Rightarrow> (delivery_status \<times> i64 option \<times> string option) option" where
  "failure_transition (ChRetryable class) attempt_count now =
     (case retry_after class attempt_count of
        Some delay \<Rightarrow> Some (RetryWait, Some (i64_add now delay), Some (error_code class))
      | None \<Rightarrow>
          if class \<in> {ContextChanged, ContextRejected, AmbiguousMinusTwo}
          then Some (BlockedActivation, None, Some (error_code class))
          else Some (DeadLetter, None, Some (error_code class)))"
| "failure_transition ChBlockedActivation attempt_count now =
     Some (BlockedActivation, None, Some ''ACTIVATION_REQUIRED'')"
| "failure_transition ChBlockedReconnect attempt_count now =
     Some (BlockedReconnect, None, Some ''RECONNECT_REQUIRED'')"
| "failure_transition ChBlockedTargetChanged attempt_count now =
     Some (DeadLetter, None, Some ''TARGET_ACCOUNT_CHANGED'')"
| "failure_transition ChPermanentFailure attempt_count now =
     Some (DeadLetter, None, Some ''PERMANENT_FAILURE'')"
| "failure_transition ChCancelled attempt_count now = Some (Cancelled, None, None)"
| "failure_transition (ChAccepted _) attempt_count now = None"

definition accept_row :: "string option \<Rightarrow> i64 \<Rightarrow> outbox_row \<Rightarrow> outbox_row" where
  "accept_row mid now r =
     r\<lparr>ob_status := ProviderAccepted, ob_provider_message_id := mid,
       ob_provider_accepted_at := Some now, ob_claim_token := None, ob_claimed_at := None,
       ob_next_attempt_at := None, ob_last_error_code := None, ob_last_error_message := None,
       ob_body := (if ob_sensitive_body r then redacted else ob_body r), ob_updated_at := now\<rparr>"

definition fail_row ::
  "delivery_status \<times> i64 option \<times> string option \<Rightarrow> i64 \<Rightarrow> outbox_row \<Rightarrow> outbox_row" where
  "fail_row tr now r =
     (case tr of (status, next_attempt_at, code) \<Rightarrow>
        r\<lparr>ob_status := status, ob_next_attempt_at := next_attempt_at, ob_last_error_code := code,
          ob_last_error_message := None, ob_claim_token := None, ob_claimed_at := None,
          ob_body := (if ob_sensitive_body r \<and> status \<in> {Expired, DeadLetter, Cancelled}
                      then redacted else ob_body r),
          ob_updated_at := now\<rparr>)"

definition claim_failure ::
  "claimed_notification \<Rightarrow> channel_outcome \<Rightarrow> i64 \<Rightarrow> delivery_status \<times> i64 option \<times> string option" where
  "claim_failure c oc now =
     (let (status, next, code) =
            (if now \<ge> cl_expires_at c then (Expired, None, None)
             else the (failure_transition oc (cl_attempt_count c) now))
      in (case next of
            Some t \<Rightarrow> if t \<ge> cl_expires_at c then (Expired, None, None) else (status, next, code)
          | None \<Rightarrow> (status, next, code)))"

definition finish_claim_at ::
  "claimed_notification \<Rightarrow> channel_outcome \<Rightarrow> i64 \<Rightarrow> outbox_service
   \<Rightarrow> (outbox_service, outbox_error, bool) effect" where
  "finish_claim_at c oc now sv =
     (case oc of
        ChAccepted mid \<Rightarrow>
          st_then (execute_update (holds_claim c) (accept_row mid now) sv) (\<lambda>sv n. (sv, Inr (n = 1)))
      | _ \<Rightarrow>
          st_then (execute_update (holds_claim c) (fail_row (claim_failure c oc now) now) sv)
            (\<lambda>sv n. (sv, Inr (n = 1))))"

section \<open>Unblocking\<close>

definition unblock_row :: "i64 \<Rightarrow> outbox_row \<Rightarrow> outbox_row" where
  "unblock_row now r =
     r\<lparr>ob_status := RetryWait, ob_next_attempt_at := Some now, ob_last_error_code := None,
       ob_last_error_message := None, ob_updated_at := now\<rparr>"

primrec segment_status_of :: "delivery_status \<Rightarrow> segment_status option" where
  "segment_status_of PendingChannel = Some SegPendingChannel"
| "segment_status_of SendingChannel = Some SegSendingChannel"
| "segment_status_of RetryWait = Some SegRetryWait"
| "segment_status_of BlockedActivation = Some SegBlockedActivation"
| "segment_status_of BlockedReconnect = Some SegBlockedReconnect"
| "segment_status_of ProviderAccepted = Some SegProviderAccepted"
| "segment_status_of Expired = Some SegExpired"
| "segment_status_of Cancelled = None"
| "segment_status_of DeadLetter = Some SegDeadLetter"

definition unblock_segment :: "i64 \<Rightarrow> segment_row \<Rightarrow> segment_row" where
  "unblock_segment now s =
     s\<lparr>sg_status := SegRetryWait, sg_next_attempt_at := Some now, sg_last_error_code := None,
       sg_updated_at := now\<rparr>"

definition unblock_bundle_segments_at ::
  "delivery_status \<Rightarrow> i64 \<Rightarrow> outbox_service \<Rightarrow> (outbox_service, outbox_error, nat) effect" where
  "unblock_bundle_segments_at status now sv =
     (let p = (\<lambda>s. Some (sg_status s) = segment_status_of status \<and> sg_expires_at s > now);
          t = db_segments (sv_db sv);
          n = count_where p t
      in if list_all (\<lambda>s. p s \<longrightarrow> segment_checks (unblock_segment now s)) t
         then let sv' = sv\<lparr>sv_db := (sv_db sv)\<lparr>db_segments := update_where p (unblock_segment now) t\<rparr>\<rparr>
              in (if n > 0 then notify_worker sv' else sv', Inr n)
         else (sv, Inl Database))"

definition unblock_at ::
  "delivery_status \<Rightarrow> i64 \<Rightarrow> outbox_service \<Rightarrow> (outbox_service, outbox_error, nat) effect" where
  "unblock_at status now sv =
     st_then (execute_update (\<lambda>r. ob_status r = status \<and> ob_expires_at r > now) (unblock_row now) sv)
       (\<lambda>sv rows. st_then (unblock_bundle_segments_at status now sv) (\<lambda>sv bundle_rows.
          (if rows > 0 \<or> bundle_rows > 0 then notify_worker sv else sv, Inr (rows + bundle_rows))))"

definition unblock_activation :: "nat option \<Rightarrow> outbox_service \<Rightarrow> (outbox_service, outbox_error, nat) effect" where
  "unblock_activation clock sv =
     (case unix_timestamp_ms clock of
        Inl e \<Rightarrow> (sv, Inl e) | Inr now \<Rightarrow> unblock_at BlockedActivation now sv)"

definition unblock_reconnect :: "nat option \<Rightarrow> outbox_service \<Rightarrow> (outbox_service, outbox_error, nat) effect" where
  "unblock_reconnect clock sv =
     (case unix_timestamp_ms clock of
        Inl e \<Rightarrow> (sv, Inl e) | Inr now \<Rightarrow> unblock_at BlockedReconnect now sv)"

section \<open>Status queries\<close>

record notification_status =
  ns_notification_id :: string
  ns_status :: delivery_status
  ns_attempt_count :: i64
  ns_last_error_code :: "string option"
  ns_provider_message_id :: "string option"
  ns_updated_at :: i64
  ns_provider_accepted_at :: "i64 option"

definition status_from_row :: "outbox_row \<Rightarrow> notification_status" where
  "status_from_row r =
     \<lparr>ns_notification_id = ob_notification_id r, ns_status = ob_status r,
      ns_attempt_count = ob_attempt_count r, ns_last_error_code = ob_last_error_code r,
      ns_provider_message_id = ob_provider_message_id r, ns_updated_at = ob_updated_at r,
      ns_provider_accepted_at = ob_provider_accepted_at r\<rparr>"

definition device_notification :: "string \<Rightarrow> string \<Rightarrow> outbox_row \<Rightarrow> bool" where
  "device_notification d nid r \<longleftrightarrow>
     ob_origin_kind r = OriginDevice \<and> ob_origin_device_id r = Some d
     \<and> ob_origin_key r = ''device:'' @ d \<and> ob_notification_id r = nid"

definition notification_status_of ::
  "string \<Rightarrow> string \<Rightarrow> relay_db \<Rightarrow> outbox_error + notification_status" where
  "notification_status_of d nid db =
     (if nid = [] \<or> chars_count nid > 128 then Inl NotFound
      else and_then (ok_or NotFound (find (device_notification d nid) (db_outbox db)))
             (\<lambda>r. Inr (status_from_row r)))"

record channel_outbox_status =
  co_pending_notifications :: nat
  co_blocked_notifications :: nat
  co_last_provider_accepted_at :: "i64 option"

definition max_of_column :: "i64 option list \<Rightarrow> i64 option" where
  "max_of_column xs =
     fold (\<lambda>x m. case x of None \<Rightarrow> m
                 | Some v \<Rightarrow> (case m of None \<Rightarrow> Some v | Some w \<Rightarrow> Some (max v w))) xs None"

definition channel_status :: "relay_db \<Rightarrow> channel_outbox_status" where
  "channel_status db =
     \<lparr>co_pending_notifications =
        count_where (\<lambda>r. ob_status r \<in> {PendingChannel, SendingChannel, RetryWait}) (db_outbox db),
      co_blocked_notifications =
        count_where (\<lambda>r. ob_status r \<in> {BlockedActivation, BlockedReconnect}) (db_outbox db),
      co_last_provider_accepted_at =
        max_of_column (map ob_provider_accepted_at (db_outbox db))\<rparr>"

section \<open>Resolving a result link\<close>

text \<open>
  The content cipher of \<open>crypto.rs\<close>. Opening XChaCha20-Poly1305 under the master key is the
  parameter: nonce, ciphertext and associated data to the plaintext, \<open>None\<close> when the tag does not
  match. A service without a master key has no cipher.
\<close>

type_synonym aead_open = "string \<Rightarrow> string \<Rightarrow> string \<Rightarrow> string option"

definition nonce_bytes :: nat where "nonce_bytes = 24"

definition framed_aad :: "string \<Rightarrow> string" where
  "framed_aad aad = ''promptdock-relay:notification-bundle:v1'' @ frame aad"

definition decrypt :: "aead_open \<Rightarrow> string \<Rightarrow> string \<Rightarrow> string \<Rightarrow> outbox_error + string" where
  "decrypt aead nonce ciphertext aad =
     (if length nonce \<noteq> nonce_bytes then Inl CorruptContent
      else ok_or CorruptContent (aead nonce ciphertext (framed_aad aad)))"

definition notice_aad :: "string \<Rightarrow> string \<Rightarrow> string \<Rightarrow> string \<Rightarrow> string" where
  "notice_aad device result_id source_hash notification_id =
     ''ResultLinkNotice'' @ device @ result_id @ source_hash @ notification_id"

definition protected_result_link_body ::
  "aead_open option \<Rightarrow> (string \<Rightarrow> string option) \<Rightarrow> string \<Rightarrow> i64 \<Rightarrow> relay_db
   \<Rightarrow> outbox_error + string option" where
  "protected_result_link_body cipher parse_uuid row_id now db =
     (case find (\<lambda>o'. ob_id o' = row_id \<and> ob_body_kind o' = ProtectedResultLink) (db_outbox db) of
        None \<Rightarrow> Inr None
      | Some o' \<Rightarrow>
          (case find (\<lambda>r. Some (rs_id r) = ob_result_row_id o') (db_results db) of
             None \<Rightarrow> Inr None
           | Some r \<Rightarrow>
               if rs_revoked_at r \<noteq> None \<or> rs_page_expires_at r \<le> now then Inr None
               else
                 and_then (ok_or CryptoUnavailable cipher) (\<lambda>aead.
                 and_then (ok_or Database (parse_uuid (rs_origin_device_id r))) (\<lambda>device.
                 and_then (ok_or Database (ob_protected_body_nonce o')) (\<lambda>nonce.
                 and_then (ok_or Database (ob_protected_body_ciphertext o')) (\<lambda>ciphertext.
                 and_then (decrypt aead nonce ciphertext
                             (notice_aad device (rs_result_id r) (rs_source_hash r)
                                (ob_notification_id o'))) (\<lambda>token.
                 if utf8_valid token then Inr (Some token) else Inl CorruptContent)))))))"

section \<open>One pass of the worker\<close>

datatype worker_pass = Idle | Applied | Interrupted

definition stable_client_id :: "(string \<Rightarrow> string) \<Rightarrow> string \<Rightarrow> string \<Rightarrow> string" where
  "stable_client_id blake3_client origin_key dedupe_key =
     ''promptdock-relay-'' @ take 32 (blake3_client (frame origin_key @ frame dedupe_key))"

text \<open>
  What one pass reads from outside: the clock before the claim and after the send, a fresh claim
  token, the channel's answer to the message (\<open>None\<close> when cancellation wins the select), whether
  the token is cancelled when there was nothing to do, and what other tasks do to the service
  between the claim and the look-up of the body and while the send is in flight.
\<close>

record pass_env =
  pe_now :: "nat option"
  pe_token :: string
  pe_after_claim :: "outbox_service \<Rightarrow> outbox_service"
  pe_send :: "channel_message \<Rightarrow> channel_outcome option"
  pe_interleave :: "outbox_service \<Rightarrow> outbox_service"
  pe_finish_now :: "nat option"
  pe_cancelled :: bool

definition claim_message :: "(string \<Rightarrow> string) \<Rightarrow> claimed_notification \<Rightarrow> string \<Rightarrow> channel_message" where
  "claim_message blake3_client c body =
     \<lparr>cm_client_id = stable_client_id blake3_client (cl_origin_key c) (cl_dedupe_key c),
      cm_body = body, cm_correlation_key = cl_correlation_key c,
      cm_target_account_fingerprint = cl_target_account_fingerprint c\<rparr>"

definition at_clock ::
  "nat option \<Rightarrow> outbox_service \<Rightarrow> (i64 \<Rightarrow> (outbox_service, outbox_error, 'a) effect)
   \<Rightarrow> (outbox_service, outbox_error, 'a) effect" where
  "at_clock clock sv f = (case unix_timestamp_ms clock of Inl e \<Rightarrow> (sv, Inl e) | Inr now \<Rightarrow> f now)"

definition deliver_message ::
  "pass_env \<Rightarrow> claimed_notification \<Rightarrow> channel_message \<Rightarrow> outbox_service
   \<Rightarrow> (outbox_service, outbox_error, worker_pass) effect" where
  "deliver_message env c message sv0 =
     (let sv = pe_interleave env sv0
      in case pe_send env message of
           None \<Rightarrow>
             at_clock (pe_finish_now env) sv (\<lambda>now.
               st_then (release_claim_at c now sv) (\<lambda>sv _. (sv, Inr Interrupted)))
         | Some ChCancelled \<Rightarrow>
             at_clock (pe_finish_now env) sv (\<lambda>now.
               st_then (release_claim_at c now sv) (\<lambda>sv _. (sv, Inr Interrupted)))
         | Some oc \<Rightarrow>
             at_clock (pe_finish_now env) sv (\<lambda>now.
               st_then (finish_claim_at c oc now sv) (\<lambda>sv applied.
                 (sv, Inr (if applied then Applied else Interrupted)))))"

text \<open>The result of a pass, with the messages handed to the channel during it.\<close>

definition run_pass ::
  "aead_open option \<Rightarrow> (string \<Rightarrow> string option) \<Rightarrow> (string \<Rightarrow> string) \<Rightarrow> pass_env \<Rightarrow> outbox_service
   \<Rightarrow> (outbox_service, outbox_error, worker_pass) effect \<times> channel_message list" where
  "run_pass cipher parse_uuid blake3_client env sv =
     (case unix_timestamp_ms (pe_now env) of
        Inl e \<Rightarrow> ((sv, Inl e), [])
      | Inr now \<Rightarrow>
          (case claim_next_at (pe_token env) now sv of
             (sv, Inl e) \<Rightarrow> ((sv, Inl e), [])
           | (sv, Inr None) \<Rightarrow> ((sv, Inr (if pe_cancelled env then Interrupted else Idle)), [])
           | (sv1, Inr (Some c)) \<Rightarrow>
               let sv = pe_after_claim env sv1
               in if cl_kind c = ''result_link'' then
                 (case protected_result_link_body cipher parse_uuid (cl_row_id c) now (sv_db sv) of
                    Inl e \<Rightarrow> ((sv, Inl e), [])
                  | Inr None \<Rightarrow>
                      (st_then (finish_claim_at c ChPermanentFailure now sv) (\<lambda>sv _. (sv, Inr Applied)),
                       [])
                  | Inr (Some body) \<Rightarrow>
                      let m = claim_message blake3_client c body
                      in (deliver_message env c m sv, [m]))
               else
                 let m = claim_message blake3_client c (cl_body c)
                 in (deliver_message env c m sv, [m])))"

text \<open>
  Startup recovery: at most four attempts, only a database error is retried. The argument gives
  the effect of each attempt.
\<close>

fun recover_startup_from ::
  "nat list \<Rightarrow> (nat \<Rightarrow> outbox_service \<Rightarrow> (outbox_service, outbox_error, nat) effect) \<Rightarrow> outbox_service
   \<Rightarrow> (outbox_service, outbox_error, unit) effect option" where
  "recover_startup_from [] recover sv = None"
| "recover_startup_from (attempt # rest) recover sv =
     (case recover attempt sv of
        (sv', Inr _) \<Rightarrow> Some (sv', Inr ())
      | (sv', Inl e) \<Rightarrow>
          if e = Database \<and> attempt < 3 then recover_startup_from rest recover sv'
          else Some (sv', Inl e))"

definition recover_startup ::
  "(nat \<Rightarrow> outbox_service \<Rightarrow> (outbox_service, outbox_error, nat) effect) \<Rightarrow> outbox_service
   \<Rightarrow> (outbox_service, outbox_error, unit) effect option" where
  "recover_startup = recover_startup_from [0, 1, 2, 3]"

section \<open>Statements of the result service on the outbox\<close>

text \<open>
  The notice row that publishing and resending a result insert (\<open>apps/server/src/results.rs\<close>), a
  plain \<open>INSERT\<close>, where every violation is an error, \<open>INSERT OR IGNORE\<close>, where only the foreign
  key is, and the cancellation of a revoked result's waiting notices.
\<close>

record link_notice =
  ln_outbox_id :: string
  ln_device_id :: string
  ln_notification_id :: string
  ln_dedupe_key :: string
  ln_payload_hash :: string
  ln_target :: string
  ln_title :: string
  ln_ciphertext :: string
  ln_nonce :: string
  ln_result_row_id :: string
  ln_now :: i64
  ln_expires_at :: i64

definition link_notice_row :: "link_notice \<Rightarrow> outbox_row" where
  "link_notice_row l =
     \<lparr>ob_id = ln_outbox_id l, ob_origin_kind = OriginDevice,
      ob_origin_key = ''device:'' @ ln_device_id l, ob_origin_device_id = Some (ln_device_id l),
      ob_notification_id = ln_notification_id l, ob_dedupe_key = ln_dedupe_key l,
      ob_payload_hash = ln_payload_hash l, ob_kind = ''result_link'',
      ob_target_account_fingerprint = Some (ln_target l), ob_title = ln_title l,
      ob_body = ''[PROTECTED_RESULT_LINK]'', ob_body_kind = ProtectedResultLink,
      ob_protected_body_ciphertext = Some (ln_ciphertext l),
      ob_protected_body_nonce = Some (ln_nonce l), ob_result_row_id = Some (ln_result_row_id l),
      ob_correlation_key = Some (ln_result_row_id l), ob_priority = 80, ob_status = PendingChannel,
      ob_not_before = ln_now l, ob_expires_at = ln_expires_at l, ob_attempt_count = 0,
      ob_claim_token = None, ob_claimed_at = None, ob_next_attempt_at = None,
      ob_last_error_code = None, ob_last_error_message = None, ob_provider_message_id = None,
      ob_provider_accepted_at = None, ob_created_at = ln_now l, ob_updated_at = ln_now l,
      ob_sensitive_body = False\<rparr>"

definition insert_outbox_abort :: "outbox_row \<Rightarrow> relay_db \<Rightarrow> relay_db option" where
  "insert_outbox_abort new db =
     (case insert_outbox new db of None \<Rightarrow> None | Some (db', n) \<Rightarrow> if n = 1 then Some db' else None)"

definition insert_outbox_ignore :: "outbox_row \<Rightarrow> relay_db \<Rightarrow> relay_db option" where
  "insert_outbox_ignore new db =
     (if \<not> outbox_checks new \<or> list_ex (outbox_collides new) (db_outbox db)
         \<or> list_ex (\<lambda>r. ob_id r = ob_id new) (db_outbox db)
      then Some db else insert_outbox_abort new db)"

definition cancellable_notice :: "string \<Rightarrow> outbox_row \<Rightarrow> bool" where
  "cancellable_notice rid r \<longleftrightarrow>
     ob_result_row_id r = Some rid \<and> ob_claim_token r = None \<and> ob_kind r = ''result_link''
     \<and> ob_status r \<in> {PendingChannel, RetryWait, BlockedActivation, BlockedReconnect}"

definition cancel_row :: "i64 \<Rightarrow> outbox_row \<Rightarrow> outbox_row" where
  "cancel_row now r =
     r\<lparr>ob_status := Cancelled, ob_claimed_at := None, ob_next_attempt_at := None,
       ob_updated_at := max (ob_updated_at r + 1) now\<rparr>"

section \<open>Every statement on the outbox\<close>

text \<open>
  The statements of the operations above, one step each, so that every interleaving of concurrent
  operations at their await points is a sequence of steps; statements that only write other
  tables are steps too. \<open>T\<close> holds the tokens of the claims made during it: they are fresh UUIDs.
  Retention, which deletes old rows, is not one of these statements.
\<close>

inductive outbox_update :: "string set \<Rightarrow> relay_db \<Rightarrow> (outbox_row \<Rightarrow> bool) \<Rightarrow> (outbox_row \<Rightarrow> outbox_row) \<Rightarrow> bool"
  for T :: "string set" and db :: relay_db where
  expire: "outbox_update T db (expirable now) (expire_row now)"
| claim: "first_row (select_ordered (due now) claim_order (db_outbox db)) = Some r \<Longrightarrow> token \<in> T
    \<Longrightarrow> outbox_update T db (claimable (ob_id r)) (claim_row token now)"
| expire_claimed:
    "outbox_update T db (\<lambda>r. ob_status r = SendingChannel \<and> ob_expires_at r \<le> now) (expire_row now)"
| recover: "outbox_update T db (stale_claim now) (recover_row now)"
| release: "outbox_update T db (holds_claim c) (release_row now)"
| accept: "outbox_update T db (holds_claim c) (accept_row mid now)"
| failed: "oc \<notin> range ChAccepted
    \<Longrightarrow> outbox_update T db (holds_claim c) (fail_row (claim_failure c oc now) now)"
| unblock: "status \<in> {BlockedActivation, BlockedReconnect}
    \<Longrightarrow> outbox_update T db (\<lambda>r. ob_status r = status \<and> ob_expires_at r > now) (unblock_row now)"
| cancel: "outbox_update T db (cancellable_notice rid) (cancel_row now)"

inductive outbox_step :: "(string \<Rightarrow> string) \<Rightarrow> string set \<Rightarrow> outbox_service \<Rightarrow> outbox_service \<Rightarrow> bool"
  for blake3 :: "string \<Rightarrow> string" and T :: "string set" where
  device: "outbox_step blake3 T sv (fst (enqueue_device_at blake3 i d n t sv))"
| system_reply: "outbox_step blake3 T sv (fst (enqueue_system_reply_at blake3 i rep t sv))"
| admin_test: "outbox_step blake3 T sv (fst (enqueue_admin_test_at blake3 i u t sv))"
| update: "outbox_update T (sv_db sv) p f \<Longrightarrow> outbox_step blake3 T sv (fst (execute_update p f sv))"
| segments: "status \<in> {BlockedActivation, BlockedReconnect}
    \<Longrightarrow> outbox_step blake3 T sv (fst (unblock_bundle_segments_at status now sv))"
| link: "insert_outbox_abort (link_notice_row l) (sv_db sv) = Some db'
    \<Longrightarrow> outbox_step blake3 T sv (sv\<lparr>sv_db := db'\<rparr>)"
| other_tables: "db_outbox db' = db_outbox (sv_db sv) \<Longrightarrow> outbox_step blake3 T sv (sv\<lparr>sv_db := db'\<rparr>)"
| wake: "outbox_step blake3 T sv (notify_worker sv)"

inductive_cases outbox_updateE: "outbox_update T db p f"
inductive_cases outbox_stepE: "outbox_step blake3 T sv sv'"

text \<open>What holds of every row, beside the constraints of the schema.\<close>

definition row_inv :: "outbox_row \<Rightarrow> bool" where
  "row_inv r \<longleftrightarrow>
     (case ob_status r of
        RetryWait \<Rightarrow> ob_next_attempt_at r \<noteq> None
      | SendingChannel \<Rightarrow> True
      | _ \<Rightarrow> ob_next_attempt_at r = None)
     \<and> (ob_status r = ProviderAccepted \<longleftrightarrow> ob_provider_accepted_at r \<noteq> None)
     \<and> (is_terminal (ob_status r) \<and> ob_sensitive_body r \<longrightarrow> ob_body r = redacted)
     \<and> (ob_body_kind r = ProtectedResultLink \<longrightarrow> \<not> ob_sensitive_body r)"

definition outbox_inv :: "outbox_service \<Rightarrow> bool" where
  "outbox_inv sv \<longleftrightarrow> schema_inv (sv_db sv) \<and> list_all row_inv (db_outbox (sv_db sv))"

text \<open>A completion of a claim, as the worker makes it.\<close>

datatype completion = Finish channel_outcome | Release

definition complete_claim ::
  "completion \<times> i64 \<Rightarrow> claimed_notification \<Rightarrow> outbox_service \<Rightarrow> (outbox_service, outbox_error, bool) effect" where
  "complete_claim x c sv =
     (case x of (Finish oc, now) \<Rightarrow> finish_claim_at c oc now sv | (Release, now) \<Rightarrow> release_claim_at c now sv)"

definition claim_held :: "claimed_notification \<Rightarrow> outbox_service \<Rightarrow> bool" where
  "claim_held c sv \<longleftrightarrow> list_ex (holds_claim c) (db_outbox (sv_db sv))"

text \<open>The status changes the statements make.\<close>

definition lifecycle :: "delivery_status \<Rightarrow> delivery_status \<Rightarrow> bool" where
  "lifecycle s s' =
     (case s of
        PendingChannel \<Rightarrow> s' \<in> {SendingChannel, Expired, Cancelled}
      | RetryWait \<Rightarrow> s' \<in> {SendingChannel, Expired, Cancelled}
      | SendingChannel \<Rightarrow>
          s' \<in> {ProviderAccepted, RetryWait, BlockedActivation, BlockedReconnect, Expired, DeadLetter,
                Cancelled}
      | BlockedActivation \<Rightarrow> s' \<in> {RetryWait, Expired, Cancelled}
      | BlockedReconnect \<Rightarrow> s' \<in> {RetryWait, Expired, Cancelled}
      | _ \<Rightarrow> False)"

text \<open>What a row keeps for its whole life.\<close>

definition same_identity :: "outbox_row \<Rightarrow> outbox_row \<Rightarrow> bool" where
  "same_identity r r' \<longleftrightarrow>
     ob_id r' = ob_id r \<and> ob_origin_key r' = ob_origin_key r
     \<and> ob_notification_id r' = ob_notification_id r \<and> ob_dedupe_key r' = ob_dedupe_key r
     \<and> ob_payload_hash r' = ob_payload_hash r \<and> ob_kind r' = ob_kind r
     \<and> ob_expires_at r' = ob_expires_at r \<and> ob_created_at r' = ob_created_at r"

section \<open>Lemmas: statements and steps\<close>

lemma execute_update_cases:
  obtains (failed) "execute_update p f sv = (sv, Inl Database)" "update_outbox p f (sv_db sv) = None"
  | (ok) db' n where "execute_update p f sv = (sv\<lparr>sv_db := db'\<rparr>, Inr n)"
      "update_outbox p f (sv_db sv) = Some (db', n)"
  by (cases "update_outbox p f (sv_db sv)") (auto simp: execute_update_def)

lemma execute_update_none:
  assumes "\<And>r. r \<in> set (db_outbox (sv_db sv)) \<Longrightarrow> \<not> p r"
  shows "execute_update p f sv = (sv, Inr 0)"
proof -
  have "update_outbox p f (sv_db sv) = Some (sv_db sv, 0)" using assms by (rule update_outbox_none)
  then show ?thesis by (simp add: execute_update_def)
qed

lemma retry_after_nonneg: "retry_after k a = Some d \<Longrightarrow> 0 \<le> d \<and> d \<le> 1800000"
proof (cases k)
  case Network
  assume "retry_after k a = Some d"
  with Network have "d \<in> set network_retry_ms"
    by (auto simp: retry_delay_def Let_def split: if_splits)
  then show ?thesis by (auto simp: network_retry_ms_def)
next
  case RateLimited
  assume "retry_after k a = Some d"
  with RateLimited have "d \<in> set rate_limit_retry_ms"
    by (auto simp: retry_delay_def Let_def split: if_splits)
  then show ?thesis by (auto simp: rate_limit_retry_ms_def)
qed (auto split: if_splits)

lemma failure_transition_status:
  "failure_transition oc a now = Some (s, nx, code) \<Longrightarrow>
   s \<in> {RetryWait, BlockedActivation, BlockedReconnect, DeadLetter, Cancelled}
   \<and> (s = RetryWait \<longleftrightarrow> nx \<noteq> None)"
  by (cases oc) (auto split: option.splits if_splits)

lemma failure_transition_total: "oc \<notin> range ChAccepted \<Longrightarrow> failure_transition oc a now \<noteq> None"
  by (cases oc) (auto split: option.splits)

lemma claim_failure_status:
  assumes "oc \<notin> range ChAccepted" "claim_failure c oc now = (s, nx, code)"
  shows "s \<in> {RetryWait, BlockedActivation, BlockedReconnect, DeadLetter, Cancelled, Expired}"
    and "s = RetryWait \<longleftrightarrow> nx \<noteq> None"
proof -
  obtain s0 nx0 code0 where f: "failure_transition oc (cl_attempt_count c) now = Some (s0, nx0, code0)"
    using failure_transition_total [OF assms(1)] by (metis option.exhaust prod_cases3)
  note fs = failure_transition_status [OF f]
  have "s \<in> {RetryWait, BlockedActivation, BlockedReconnect, DeadLetter, Cancelled, Expired}
      \<and> (s = RetryWait \<longleftrightarrow> nx \<noteq> None)"
    using assms(2) f fs by (auto simp: claim_failure_def Let_def split: if_splits option.splits)
  then show "s \<in> {RetryWait, BlockedActivation, BlockedReconnect, DeadLetter, Cancelled, Expired}"
    "s = RetryWait \<longleftrightarrow> nx \<noteq> None" by blast+
qed

lemmas row_updates = expire_row_def claim_row_def recover_row_def release_row_def accept_row_def
  fail_row_def unblock_row_def cancel_row_def

lemma outbox_update_frozen: "outbox_update T db p f \<Longrightarrow> frozen_columns f"
  by (erule outbox_updateE) (auto simp: frozen_columns_def row_updates split: prod.splits)

lemma outbox_update_lifecycle:
  assumes "outbox_update T db p f" "p r"
  shows "lifecycle (ob_status r) (ob_status (f r))"
  using assms
proof (cases rule: outbox_update.cases)
  case (failed oc c now)
  obtain s nx code where cf: "claim_failure c oc now = (s, nx, code)" by (metis prod_cases3)
  with failed claim_failure_status [OF failed(3) cf] assms(2) show ?thesis
    by (auto simp: holds_claim_def lifecycle_def fail_row_def)
qed (auto simp: lifecycle_def row_updates expirable_def claimable_def stale_claim_def holds_claim_def
    cancellable_notice_def)

lemma lifecycle_not_terminal: "lifecycle s s' \<Longrightarrow> \<not> is_terminal s"
  by (cases s) (simp_all add: lifecycle_def)

lemma outbox_update_row_inv:
  assumes "outbox_update T db p f" "p r" "row_inv r" "outbox_checks r"
  shows "row_inv (f r)"
  using assms(1)
proof (cases rule: outbox_update.cases)
  case (failed oc c now)
  obtain s nx code where cf: "claim_failure c oc now = (s, nx, code)" by (metis prod_cases3)
  with failed claim_failure_status [OF failed(3) cf] assms show ?thesis
    by (auto simp: row_inv_def holds_claim_def fail_row_def)
next
  case (cancel rid now)
  with assms(2,4) have "ob_body_kind r = ProtectedResultLink"
    by (auto simp: outbox_checks_def body_kind_check_def cancellable_notice_def)
  with cancel assms(2,3) show ?thesis
    by (auto simp: row_inv_def cancel_row_def cancellable_notice_def)
qed (use assms(2,3) in \<open>auto simp: row_inv_def row_updates expirable_def claimable_def stale_claim_def
      holds_claim_def split: delivery_status.splits\<close>)

lemma link_notice_row_inv: "row_inv (link_notice_row l)"
  by (simp add: row_inv_def link_notice_row_def)

lemma insert_outbox_abort_Some:
  "insert_outbox_abort new db = Some db' \<longleftrightarrow> insert_outbox new db = Some (db', 1)"
  by (auto simp: insert_outbox_abort_def split: option.splits if_splits)

lemma insert_outbox_appends: "insert_outbox new db = Some (db', 1) \<Longrightarrow> db_outbox db' = db_outbox db @ [new]"
  by (auto simp: insert_outbox_def split: if_splits)

lemma staged_row_inv: "row_inv (staged_row i og n h t se a)"
  by (simp add: row_inv_def)

lemma commit_staged_outbox:
  assumes "sv' = fst (commit_staged sv (stage_origin_in b3 i og n tg se t (sv_db sv)))"
  obtains (same) "sv_db sv' = sv_db sv"
  | (new) new where "insert_outbox new (sv_db sv) = Some (sv_db sv', 1)" "row_inv new"
      "ob_status new = PendingChannel" "db_outbox (sv_db sv') = db_outbox (sv_db sv) @ [new]"
proof (cases "stage_origin_in b3 i og n tg se t (sv_db sv)")
  case (Inl e)
  with assms have "sv_db sv' = sv_db sv" by (simp add: commit_staged_db)
  then show ?thesis by (rule same)
next
  case (Inr q)
  then obtain db' a where st: "stage_origin_in b3 i og n tg se t (sv_db sv) = Inr (db', a)"
    by (cases q) simp
  with assms have db': "sv_db sv' = db'" by (simp add: commit_staged_db)
  show ?thesis using st refl
  proof (cases rule: stage_origin_in_Inr)
    case inserted
    show ?thesis
    proof (rule new)
      show "insert_outbox (staged_row i og n (payload_hash_with_target b3 n tg) tg se t) (sv_db sv)
        = Some (sv_db sv', 1)" unfolding db' by (rule inserted)
      show "db_outbox (sv_db sv') = db_outbox (sv_db sv)
         @ [staged_row i og n (payload_hash_with_target b3 n tg) tg se t]"
        unfolding db' inserted(3) by simp
    qed (simp_all add: staged_row_inv)
  next
    case existing
    then show ?thesis by (intro same) (simp only: db')
  qed
qed

lemma outbox_step_cases:
  assumes "outbox_step b3 T sv sv'"
  obtains (same) "db_outbox (sv_db sv') = db_outbox (sv_db sv)"
  | (new) new where "insert_outbox new (sv_db sv) = Some (sv_db sv', 1)" "row_inv new"
      "ob_status new = PendingChannel" "db_outbox (sv_db sv') = db_outbox (sv_db sv) @ [new]"
  | (updated) p f n where "outbox_update T (sv_db sv) p f"
      "update_outbox p f (sv_db sv) = Some (sv_db sv', n)"
  using assms
proof (cases rule: outbox_step.cases)
  case (device i d n t)
  show ?thesis
  proof (cases "nt_kind n = ''interactive_reply''")
    case True
    with device show ?thesis by (intro same) (simp add: enqueue_device_at_def)
  next
    case False
    with device have "sv' = fst (commit_staged sv (stage_origin_in b3 i (Device d) n None False t (sv_db sv)))"
      by (simp add: enqueue_device_at_def)
    then show ?thesis by (rule commit_staged_outbox) (auto intro: same new)
  qed
next
  case (system_reply i rep t)
  show ?thesis
  proof (cases "validate_target_account_fingerprint (ir_target_account_fingerprint rep)")
    case (Inl e)
    then show ?thesis using system_reply
      by (intro same) (simp add: enqueue_system_reply_at_def stage_system_reply_in_def into_parts_def commit_staged_def)
  next
    case (Inr u)
    then have "sv' = fst (commit_staged sv (stage_origin_in b3 i SystemInteractive (fst (into_parts rep))
        (Some (ir_target_account_fingerprint rep)) (ir_sensitive_body rep) t (sv_db sv)))"
      using system_reply by (simp add: enqueue_system_reply_at_def stage_system_reply_in_def into_parts_def)
    then show ?thesis by (rule commit_staged_outbox) (auto intro: same new)
  qed
next
  case (admin_test i u t)
  then show ?thesis unfolding enqueue_admin_test_at_def
    by (rule commit_staged_outbox) (auto intro: same new)
next
  case (update p f)
  show ?thesis
  proof (cases rule: execute_update_cases [of p f sv])
    case failed
    then show ?thesis using update by (intro same) simp
  next
    case (ok db' n)
    then show ?thesis using update by (intro updated) simp_all
  qed
next
  case (segments status now)
  then show ?thesis
    by (intro same) (simp add: unblock_bundle_segments_at_def notify_worker_def Let_def)
next
  case (link l db')
  then have i: "insert_outbox (link_notice_row l) (sv_db sv) = Some (sv_db sv', 1)"
    by (simp add: insert_outbox_abort_Some)
  show ?thesis using i link_notice_row_inv
    by (rule new) (simp_all add: insert_outbox_appends [OF i], simp add: link_notice_row_def)
next
  case (other_tables db')
  then show ?thesis by (intro same) simp
next
  case wake
  then show ?thesis by (intro same) (simp add: notify_worker_def)
qed

lemma row_inv_update_where:
  assumes "list_all row_inv t" "list_all outbox_checks t" "outbox_update T db p f"
  shows "list_all row_inv (update_where p f t)"
  using assms outbox_update_row_inv by (auto simp: list_all_iff update_where_def)

lemma outbox_step_inv:
  assumes "outbox_step b3 T sv sv'" "outbox_inv sv"
  shows "outbox_inv sv'"
  using assms(1)
proof (cases rule: outbox_step_cases)
  case same
  with assms(2) show ?thesis by (simp add: outbox_inv_def schema_inv_def)
next
  case (new new)
  with assms(2) show ?thesis
    using schema_inv_insert [OF _ new(1)] by (simp add: outbox_inv_def)
next
  case (updated p f n)
  note u = outbox_update_frozen [OF updated(1)]
  show ?thesis
    using assms(2) schema_inv_update [OF _ u updated(2)] row_inv_update_where [OF _ _ updated(1)]
    by (simp add: outbox_inv_def schema_inv_def update_outbox_outbox [OF updated(2)])
qed

interpretation outbox_system: invariant_system "outbox_step b3 T" outbox_inv for b3 T
  by unfold_locales (rule outbox_step_inv)

lemma outbox_step_mem:
  assumes "outbox_step b3 T sv sv'" "r \<in> set (db_outbox (sv_db sv))"
  obtains (kept) "r \<in> set (db_outbox (sv_db sv'))"
  | (changed) p f where "outbox_update T (sv_db sv) p f" "p r" "f r \<in> set (db_outbox (sv_db sv'))"
  using assms(1)
proof (cases rule: outbox_step_cases)
  case same
  with assms(2) show ?thesis by (intro kept) simp
next
  case (new new)
  with assms(2) show ?thesis by (intro kept) simp
next
  case (updated p f n)
  have "db_outbox (sv_db sv') = update_where p f (db_outbox (sv_db sv))"
    using updated(2) by (rule update_outbox_outbox)
  with assms(2) have "(if p r then f r else r) \<in> set (db_outbox (sv_db sv'))"
    by (auto simp: update_where_def)
  with updated(1) show ?thesis by (cases "p r") (auto intro: kept changed)
qed

lemma outbox_steps_terminal:
  assumes "(outbox_step b3 T)\<^sup>*\<^sup>* sv sv'" "r \<in> set (db_outbox (sv_db sv))" "is_terminal (ob_status r)"
  shows "r \<in> set (db_outbox (sv_db sv'))"
  using assms
proof (induction rule: rtranclp_induct)
  case base
  then show ?case by simp
next
  case (step u v)
  then have "r \<in> set (db_outbox (sv_db u))" by simp
  with step(2) show ?case
  proof (cases rule: outbox_step_mem)
    case (changed p f)
    from lifecycle_not_terminal [OF outbox_update_lifecycle [OF changed(1,2)]] step show ?thesis by simp
  qed
qed

lemma same_identity_refl [simp]: "same_identity r r"
  by (simp add: same_identity_def)

lemma same_identity_trans: "same_identity r r' \<Longrightarrow> same_identity r' r'' \<Longrightarrow> same_identity r r''"
  by (simp add: same_identity_def)

lemma outbox_steps_identity:
  assumes "(outbox_step b3 T)\<^sup>*\<^sup>* sv sv'" "r \<in> set (db_outbox (sv_db sv))"
  shows "\<exists>r' \<in> set (db_outbox (sv_db sv')). same_identity r r'"
  using assms
proof (induction rule: rtranclp_induct)
  case base
  then show ?case using same_identity_refl by blast
next
  case (step u v)
  then obtain r' where r': "r' \<in> set (db_outbox (sv_db u))" "same_identity r r'" by blast
  from step(2) r'(1) show ?case
  proof (cases rule: outbox_step_mem)
    case kept
    with r' show ?thesis by blast
  next
    case (changed p f)
    have "same_identity r' (f r')"
      using outbox_update_frozen [OF changed(1)] by (simp add: frozen_columns_def same_identity_def)
    with r' changed(3) show ?thesis by (blast intro: same_identity_trans)
  qed
qed

section \<open>Lemmas: claims are fenced by their token\<close>

lemma outbox_update_token:
  assumes "outbox_update T db p f" "p r" "holds_claim c (f r)" "cl_claim_token c \<notin> T"
  shows False
  using assms(1)
proof (cases rule: outbox_update.cases)
  case (failed oc c' now)
  obtain s nx code where cf: "claim_failure c' oc now = (s, nx, code)" by (metis prod_cases3)
  with failed claim_failure_status [OF failed(3) cf] assms show ?thesis
    by (auto simp: holds_claim_def fail_row_def)
qed (use assms in \<open>auto simp: holds_claim_def row_updates split: if_splits\<close>)

lemma outbox_step_held:
  assumes "outbox_step b3 T sv sv'" "cl_claim_token c \<notin> T" "claim_held c sv'"
  shows "claim_held c sv"
  using assms(1)
proof (cases rule: outbox_step_cases)
  case same
  with assms(3) show ?thesis by (simp add: claim_held_def)
next
  case (new new)
  with assms(3) show ?thesis by (auto simp: claim_held_def holds_claim_def)
next
  case (updated p f n)
  have "db_outbox (sv_db sv') = update_where p f (db_outbox (sv_db sv))"
    using updated(2) by (rule update_outbox_outbox)
  with assms(3) obtain r where "r \<in> set (db_outbox (sv_db sv))" "holds_claim c (if p r then f r else r)"
    by (auto simp: claim_held_def list_ex_iff update_where_def)
  then show ?thesis
    using outbox_update_token [OF updated(1) _ _ assms(2)]
    by (cases "p r") (auto simp: claim_held_def list_ex_iff)
qed

end
