(* ===== verification/Outbox_Correct.thy ===== *)
theory Outbox_Correct
  imports Outbox_Delivery
begin

text \<open>
  Correctness of the relay's delivery: which statements succeed, that every operation and every
  pass of the worker is a sequence of the statements of \<open>outbox_step\<close>, that claims are fenced by
  their token (the interface \<open>fenced_claims\<close>), what a claim takes, and the properties of the
  delivery that follow.
\<close>

section \<open>The row a claim takes and the row a completion leaves\<close>

definition completion_row :: "completion \<times> i64 \<Rightarrow> claimed_notification \<Rightarrow> outbox_row \<Rightarrow> outbox_row" where
  "completion_row x c =
     (case x of
        (Release, now) \<Rightarrow> release_row now
      | (Finish oc, now) \<Rightarrow>
          (case oc of
             ChAccepted mid \<Rightarrow> accept_row mid now
           | _ \<Rightarrow> fail_row (claim_failure c oc now) now))"

definition claim_of :: "string \<Rightarrow> i64 \<Rightarrow> outbox_row \<Rightarrow> claimed_notification" where
  "claim_of token now r =
     \<lparr>cl_row_id = ob_id r, cl_claim_token = token, cl_origin_key = ob_origin_key r,
      cl_target_account_fingerprint = ob_target_account_fingerprint r,
      cl_notification_id = ob_notification_id r, cl_dedupe_key = ob_dedupe_key r,
      cl_kind = ob_kind r, cl_title = ob_title r, cl_body = ob_body r,
      cl_correlation_key = ob_correlation_key r, cl_priority = ob_priority r,
      cl_expires_at = ob_expires_at r, cl_attempt_count = ob_attempt_count r + 1\<rparr>"

section \<open>Demonstration states\<close>

definition demo_claim :: claimed_notification where
  "demo_claim = claim_of ''tok'' 30 demo_row"

definition demo_sending :: outbox_service where
  "demo_sending = demo_service\<lparr>sv_db := (sv_db demo_service)\<lparr>db_outbox := [claim_row ''tok'' 30 demo_row]\<rparr>\<rparr>"


definition recovered_row :: "i64 \<Rightarrow> outbox_row \<Rightarrow> outbox_row" where
  "recovered_row now r =
     (if ob_status r \<noteq> SendingChannel then r
      else if ob_expires_at r \<le> now then expire_row now r
      else if the (ob_claimed_at r) < now - 300000 then recover_row now r
      else r)"

definition demo_blocked :: outbox_service where
  "demo_blocked =
     demo_service\<lparr>sv_db := (sv_db demo_service)\<lparr>db_outbox := [demo_row\<lparr>ob_status := BlockedActivation\<rparr>]\<rparr>\<rparr>"

definition demo_env :: pass_env where
  "demo_env = \<lparr>pe_now = Some 30, pe_token = ''tok'', pe_after_claim = id, pe_send = (\<lambda>_. Some (ChAccepted None)),
     pe_interleave = id, pe_finish_now = Some 40, pe_cancelled = False\<rparr>"

definition demo_link :: outbox_row where
  "demo_link = demo_row\<lparr>ob_kind := ''result_link'', ob_target_account_fingerprint := Some (''wx:'' @ replicate 64 (CHR ''a'')),
     ob_body := ''[PROTECTED_RESULT_LINK]'', ob_body_kind := ProtectedResultLink,
     ob_protected_body_ciphertext := Some ''c'', ob_protected_body_nonce := Some (replicate 24 (CHR ''n'')),
     ob_result_row_id := Some ''res''\<rparr>"

definition demo_result :: result_row where
  "demo_result =
     \<lparr>rs_id = ''res'', rs_origin_device_id = ''d1'', rs_origin_key = ''device:d1'', rs_result_id = ''x'',
      rs_dedupe_key = ''k1'', rs_request_digest = [], rs_kind = ''run_completed'', rs_content_mode = ''full_final'',
      rs_source = ''codex_stop'', rs_correlation_key = ''c'', rs_result_revision = ''1'', rs_safe_title = ''t'',
      rs_body_ciphertext = None, rs_body_nonce = None, rs_body_bytes = 0, rs_source_hash = [],
      rs_started_at = None, rs_completed_at = None, rs_duration_ms = None, rs_accepted_at = 20,
      rs_created_at = 20, rs_page_expires_at = 900, rs_body_retain_until = 900, rs_body_purged_at = None,
      rs_revoked_at = None, rs_initial_notification_id = ''n1'', rs_current_notification_id = ''n1'',
      rs_notification_status = PendingChannel, rs_updated_at = 20\<rparr>"

definition demo_link_service :: outbox_service where
  "demo_link_service = demo_service\<lparr>sv_db := (sv_db demo_service)\<lparr>db_outbox := [demo_link], db_results := [demo_result]\<rparr>\<rparr>"

section \<open>Lemmas: statements succeed\<close>

lemma redacted_length: "sql_length redacted \<le> 6000"
  by code_simp

lemma checks_transfer:
  assumes "outbox_checks r"
    and "ob_title r' = ob_title r" "ob_priority r' = ob_priority r"
      "ob_target_account_fingerprint r' = ob_target_account_fingerprint r"
      "ob_body_kind r' = ob_body_kind r" "ob_protected_body_ciphertext r' = ob_protected_body_ciphertext r"
      "ob_protected_body_nonce r' = ob_protected_body_nonce r" "ob_result_row_id r' = ob_result_row_id r"
      "ob_origin_kind r' = ob_origin_kind r" "ob_origin_key r' = ob_origin_key r"
      "ob_origin_device_id r' = ob_origin_device_id r" "ob_kind r' = ob_kind r"
      "ob_created_at r' = ob_created_at r" "ob_expires_at r' = ob_expires_at r"
    and "ob_created_at r \<le> ob_updated_at r'" "0 \<le> ob_attempt_count r'" "claim_check r'"
    and "ob_body r' = ob_body r \<or> ob_body r' = redacted \<and> ob_body_kind r = PlainBody"
  shows "outbox_checks r'"
proof -
  have "target_check r'" "origin_check r'" "kind_check r'"
    using assms(1) unfolding outbox_checks_def target_check_def origin_check_def kind_check_def assms(2-14)
    by blast+
  moreover have "body_kind_check r'" "sql_length (ob_body r') \<le> 6000"
    using assms(1,18) redacted_length unfolding outbox_checks_def body_kind_check_def assms(2-14) by auto
  ultimately show ?thesis
    using assms(1,15-17) unfolding outbox_checks_def assms(2-14) by blast
qed

lemma plain_if_sensitive: "row_inv r \<Longrightarrow> ob_sensitive_body r \<Longrightarrow> ob_body_kind r = PlainBody"
  by (cases "ob_body_kind r") (simp_all add: row_inv_def)

lemma update_checks:
  assumes "outbox_update T db p f" "p r" "outbox_checks r" "row_inv r"
    and "ob_created_at r \<le> ob_updated_at (f r)"
  shows "outbox_checks (f r)"
proof -
  have a: "0 \<le> ob_attempt_count r" "claim_check r" using assms(3) by (simp_all add: outbox_checks_def)
  note p = plain_if_sensitive [OF assms(4)]
  show ?thesis using assms(1)
  proof (cases rule: outbox_update.cases)
    case (failed oc c now)
    obtain s nx code where cf: "claim_failure c oc now = (s, nx, code)" by (metis prod_cases3)
    then have "s \<noteq> SendingChannel" using claim_failure_status(1) [OF failed(3) cf] by auto
    with failed cf assms(5) a p show ?thesis
      by (intro checks_transfer [OF assms(3)]) (simp_all add: fail_row_def claim_check_def)
  qed (use assms(2,5) a p in
      \<open>auto intro!: checks_transfer [OF assms(3)] simp: row_updates claim_check_def cancellable_notice_def\<close>)
qed

lemma execute_update_ok:
  assumes "outbox_inv sv" "outbox_update T (sv_db sv) p f"
    and "\<And>r. r \<in> set (db_outbox (sv_db sv)) \<Longrightarrow> p r \<Longrightarrow> ob_created_at r \<le> ob_updated_at (f r)"
  obtains db' where "execute_update p f sv = (sv\<lparr>sv_db := db'\<rparr>, Inr (count_where p (db_outbox (sv_db sv))))"
    "db_outbox db' = update_where p f (db_outbox (sv_db sv))"
proof (cases rule: execute_update_cases [of p f sv])
  case failed
  have "outbox_checks (f r)" if "r \<in> set (db_outbox (sv_db sv))" "p r" for r
    using assms(1) that by (intro update_checks [OF assms(2)] assms(3))
      (simp_all add: outbox_inv_def schema_inv_def list_all_iff)
  then have "update_outbox p f (sv_db sv) \<noteq> None"
    by (auto simp: update_outbox_def Let_def list_all_iff)
  with failed show ?thesis by simp
next
  case (ok db' n)
  have "n = count_where p (db_outbox (sv_db sv))" using ok(2) unfolding update_outbox_Some by blast
  with ok(1) have "execute_update p f sv = (sv\<lparr>sv_db := db'\<rparr>, Inr (count_where p (db_outbox (sv_db sv))))"
    by simp
  then show ?thesis using update_outbox_outbox [OF ok(2)] by (rule that)
qed

section \<open>Lemmas: operations are sequences of statements\<close>

lemma update_steps: "outbox_update T (sv_db sv) p f \<Longrightarrow> (outbox_step b3 T)\<^sup>*\<^sup>* sv (fst (execute_update p f sv))"
  by (rule r_into_rtranclp) (rule outbox_step.update)

lemma expire_due_steps: "(outbox_step b3 T)\<^sup>*\<^sup>* sv (fst (expire_due_at now sv))"
  unfolding expire_due_at_def by (intro update_steps outbox_update.expire)



lemma recover_stale_steps: "(outbox_step b3 T)\<^sup>*\<^sup>* sv (fst (recover_stale_claims_at now sv))"
  unfolding recover_stale_claims_at_def
  by (intro st_then_steps update_steps outbox_update.expire_claimed outbox_update.recover)
    (auto intro: outbox_step.wake)



lemma wake_steps: "(outbox_step b3 T)\<^sup>*\<^sup>* sv (if b then notify_worker sv else sv)"
  by (auto intro: outbox_step.wake)

lemma segment_steps:
  "status \<in> {BlockedActivation, BlockedReconnect} \<Longrightarrow>
   (outbox_step b3 T)\<^sup>*\<^sup>* sv (fst (unblock_bundle_segments_at status now sv))"
  by (rule r_into_rtranclp) (rule outbox_step.segments)

lemma unblock_steps:
  assumes "status \<in> {BlockedActivation, BlockedReconnect}"
  shows "(outbox_step b3 T)\<^sup>*\<^sup>* sv (fst (unblock_at status now sv))"
  unfolding unblock_at_def
  by (intro st_then_steps update_steps outbox_update.unblock segment_steps assms)
    (simp only: fst_conv wake_steps)



section \<open>Lemmas: claims are fenced\<close>

lemma completion_cases:
  obtains (release) now where "x = (Release, now)" "completion_row x c = release_row now"
  | (accept) mid now where "x = (Finish (ChAccepted mid), now)" "completion_row x c = accept_row mid now"
  | (fail) oc now where "x = (Finish oc, now)" "oc \<notin> range ChAccepted"
      "completion_row x c = fail_row (claim_failure c oc now) now"
proof (cases x)
  case (Pair k now)
  show ?thesis
  proof (cases k)
    case Release
    with Pair show ?thesis by (intro release) (simp_all add: completion_row_def)
  next
    case (Finish oc)
    with Pair show ?thesis
      by (cases oc) (auto simp: completion_row_def intro: accept fail)
  qed
qed

lemma complete_claim_eq:
  "complete_claim x c s =
     st_then (execute_update (holds_claim c) (completion_row x c) s) (\<lambda>s n. (s, Inr (n = 1)))"
  by (cases rule: completion_cases [of x c])
    (auto simp: complete_claim_def release_claim_at_def finish_claim_at_def completion_row_def
      split: channel_outcome.splits)

lemma completion_update: "outbox_update T db (holds_claim c) (completion_row x c)"
  by (cases rule: completion_cases [of x c])
    (simp_all add: outbox_update.release outbox_update.accept outbox_update.failed)

lemma completion_row_status: "ob_status (completion_row x c r) \<noteq> SendingChannel"
proof (cases rule: completion_cases [of x c])
  case (fail oc now)
  obtain s nx code where cf: "claim_failure c oc now = (s, nx, code)" by (metis prod_cases3)
  have "s \<noteq> SendingChannel" using claim_failure_status(1) [OF fail(2) cf] by auto
  with fail cf show ?thesis by (simp add: fail_row_def)
qed (simp_all add: release_row_def accept_row_def)

lemma completion_row_updated_at: "ob_updated_at (completion_row x c r) = snd x"
  by (cases rule: completion_cases [of x c])
    (simp_all add: release_row_def accept_row_def fail_row_def split: prod.splits)

lemma not_held: "\<not> claim_held c sv \<longleftrightarrow> (\<forall>r \<in> set (db_outbox (sv_db sv)). \<not> holds_claim c r)"
  by (simp add: claim_held_def list_ex_iff)

lemma complete_not_held:
  assumes "\<not> claim_held c sv"
  shows "complete_claim x c sv = (sv, Inr False)"
proof -
  have "execute_update (holds_claim c) (completion_row x c) sv = (sv, Inr 0)"
    using assms by (intro execute_update_none) (simp add: not_held)
  then show ?thesis by (simp add: complete_claim_eq)
qed

lemma complete_spends:
  assumes "complete_claim x c sv = (sv', Inr b)"
  shows "\<not> claim_held c sv'"
proof (cases rule: execute_update_cases [of "holds_claim c" "completion_row x c" sv])
  case failed
  with assms show ?thesis by (simp add: complete_claim_eq)
next
  case (ok db' n)
  with assms have "sv_db sv' = db'" by (auto simp: complete_claim_eq)
  then show ?thesis using update_outbox_outbox [OF ok(2)] completion_row_status [of x c]
    by (auto simp: not_held update_where_def holds_claim_def)
qed

interpretation outbox_claims: fenced_claims claim_held complete_claim "outbox_step b3 T"
  "\<lambda>c. cl_claim_token c \<notin> T" for b3 T
  by unfold_locales (blast intro: complete_not_held outbox_step_held dest: complete_spends)+

lemma complete_held:
  assumes "outbox_inv sv" "r \<in> set (db_outbox (sv_db sv))" "holds_claim c r" "ob_created_at r \<le> snd x"
  obtains db' where "complete_claim x c sv = (sv\<lparr>sv_db := db'\<rparr>, Inr True)"
    "db_outbox db' = update_where (holds_claim c) (completion_row x c) (db_outbox (sv_db sv))"
proof -
  have only: "r' = r" if "r' \<in> set (db_outbox (sv_db sv))" "holds_claim c r'" for r'
    using assms that by (intro schema_inv_id_unique [of "sv_db sv"]) (auto simp: outbox_inv_def holds_claim_def)
  have "distinct (db_outbox (sv_db sv))"
    using assms(1) by (simp add: outbox_inv_def schema_inv_def outbox_keys_unique_def distinct_map)
  then have "filter (holds_claim c) (db_outbox (sv_db sv)) = [r]"
    using assms(2,3) only by (rule filter_unique)
  then have one: "count_where (holds_claim c) (db_outbox (sv_db sv)) = 1" by (simp add: count_where_def)
  have "ob_created_at r' \<le> ob_updated_at (completion_row x c r')"
    if "r' \<in> set (db_outbox (sv_db sv))" "holds_claim c r'" for r'
    unfolding completion_row_updated_at using only [OF that] assms(4) by (simp only:)
  then obtain db' where db': "execute_update (holds_claim c) (completion_row x c) sv
      = (sv\<lparr>sv_db := db'\<rparr>, Inr (count_where (holds_claim c) (db_outbox (sv_db sv))))"
      "db_outbox db' = update_where (holds_claim c) (completion_row x c) (db_outbox (sv_db sv))"
    by (rule execute_update_ok [OF assms(1) completion_update])
  then have "complete_claim x c sv = (sv\<lparr>sv_db := db'\<rparr>, Inr True)" by (simp add: complete_claim_eq one)
  then show ?thesis using db'(2) by (rule that)
qed

section \<open>Lemmas: claiming\<close>

lemma due_not_expirable: "due now r \<Longrightarrow> \<not> expirable now r"
  by (auto simp: due_def expirable_def)

lemma expired_not_due: "\<not> due now (expire_row now r)"
  by (simp add: due_def expire_row_def)

lemma due_update_expire:
  "filter (due now) (update_where (expirable now) (expire_row now) t) = filter (due now) t"
  by (induction t) (auto simp: update_where_def due_not_expirable expired_not_due)

lemma due_status: "due now r \<Longrightarrow> ob_status r \<in> {PendingChannel, RetryWait}"
  by (auto simp: due_def)

lemma claim_due_None:
  "\<forall>r \<in> set (db_outbox (sv_db sv)). \<not> due now r \<Longrightarrow> claim_due_at token now sv = (sv, Inr None)"
  by (auto simp: claim_due_at_def select_ordered_def first_row_def filter_empty_conv split: list.splits)

lemma claimed_from_claim_row: "claimed_from_row (claim_row token now r) = Inr (claim_of token now r)"
  by (simp add: claimed_from_row_def claim_row_def claim_of_def)

lemma claim_due_Some:
  assumes inv: "outbox_inv sv"
    and r: "first_row (select_ordered (due now) claim_order (db_outbox (sv_db sv))) = Some r"
    and "ob_created_at r \<le> now"
  obtains db' where "claim_due_at token now sv = (sv\<lparr>sv_db := db'\<rparr>, Inr (Some (claim_of token now r)))"
    "db_outbox db' = update_where (\<lambda>x. ob_id x = ob_id r) (claim_row token now) (db_outbox (sv_db sv))"
proof -
  have mem: "r \<in> set (db_outbox (sv_db sv))" "due now r" using first_row_select [OF r] by blast+
  have only: "r' = r" if "r' \<in> set (db_outbox (sv_db sv))" "ob_id r' = ob_id r" for r'
    using inv that mem(1) by (intro schema_inv_id_unique [of "sv_db sv"]) (auto simp: outbox_inv_def)
  have cl: "claimable (ob_id r) r" using due_status [OF mem(2)] by (simp add: claimable_def)
  have "filter (claimable (ob_id r)) (db_outbox (sv_db sv)) = [r]"
  proof (rule filter_unique)
    show "r \<in> set (db_outbox (sv_db sv))" "claimable (ob_id r) r" by (fact mem(1) cl)+
    show "distinct (db_outbox (sv_db sv))"
      using inv by (simp add: outbox_inv_def schema_inv_def outbox_keys_unique_def distinct_map)
    show "r' = r" if "r' \<in> set (db_outbox (sv_db sv))" "claimable (ob_id r) r'" for r'
      using that by (intro only) (simp_all add: claimable_def)
  qed
  moreover have "ob_created_at r' \<le> ob_updated_at (claim_row token now r')"
    if "r' \<in> set (db_outbox (sv_db sv))" "claimable (ob_id r) r'" for r'
  proof -
    have "r' = r" using that by (intro only) (simp_all add: claimable_def)
    with assms(3) show ?thesis by (simp add: claim_row_def)
  qed
  then obtain db' n where "execute_update (claimable (ob_id r)) (claim_row token now) sv = (sv\<lparr>sv_db := db'\<rparr>, Inr n)"
      "db_outbox db' = update_where (claimable (ob_id r)) (claim_row token now) (db_outbox (sv_db sv))"
    using execute_update_ok [OF inv outbox_update.claim [OF r UNIV_I]] by metis
  moreover have "update_where (claimable (ob_id r)) (claim_row token now) (db_outbox (sv_db sv))
      = update_where (\<lambda>x. ob_id x = ob_id r) (claim_row token now) (db_outbox (sv_db sv))"
    unfolding update_where_def
  proof (rule map_cong [OF refl])
    fix x assume "x \<in> set (db_outbox (sv_db sv))"
    then have "ob_id x = ob_id r \<longleftrightarrow> claimable (ob_id r) x"
      using only [of x] cl by (auto simp: claimable_def)
    then show "(if claimable (ob_id r) x then claim_row token now x else x) =
        (if ob_id x = ob_id r then claim_row token now x else x)" by simp
  qed
  ultimately show ?thesis
    by (intro that [of db']) (simp_all add: claim_due_at_def r Let_def claimed_from_claim_row)
qed

lemma expire_due_ok:
  assumes "outbox_inv sv" "\<And>r. r \<in> set (db_outbox (sv_db sv)) \<Longrightarrow> ob_created_at r \<le> now"
  obtains db' where "expire_due_at now sv = (sv\<lparr>sv_db := db'\<rparr>, Inr (count_where (expirable now) (db_outbox (sv_db sv))))"
    "db_outbox db' = update_where (expirable now) (expire_row now) (db_outbox (sv_db sv))"
    "outbox_inv (sv\<lparr>sv_db := db'\<rparr>)"
proof -
  have "ob_created_at r \<le> ob_updated_at (expire_row now r)" if "r \<in> set (db_outbox (sv_db sv))" for r
    using assms(2) [OF that] by (simp add: expire_row_def)
  then obtain db' where db': "expire_due_at now sv = (sv\<lparr>sv_db := db'\<rparr>, Inr (count_where (expirable now) (db_outbox (sv_db sv))))"
    "db_outbox db' = update_where (expirable now) (expire_row now) (db_outbox (sv_db sv))"
    unfolding expire_due_at_def
    by (rule execute_update_ok [OF assms(1) outbox_update.expire [of UNIV]])
  have "outbox_inv (fst (expire_due_at now sv))"
    using outbox_system.steps_inv [OF expire_due_steps] assms(1) .
  with db' that show ?thesis by simp
qed

lemma select_due_after_expiry:
  "select_ordered (due now) claim_order (update_where (expirable now) (expire_row now) t)
   = select_ordered (due now) claim_order t"
  by (simp add: select_ordered_def due_update_expire)

lemma claim_next_cases:
  assumes "outbox_inv sv" "\<And>r. r \<in> set (db_outbox (sv_db sv)) \<Longrightarrow> ob_created_at r \<le> now"
  obtains (none) db' where "\<forall>r \<in> set (db_outbox (sv_db sv)). \<not> due now r"
      "claim_next_at token now sv = (sv\<lparr>sv_db := db'\<rparr>, Inr None)"
      "db_outbox db' = update_where (expirable now) (expire_row now) (db_outbox (sv_db sv))"
  | (claimed) r db' where "r \<in> set (db_outbox (sv_db sv))" "due now r"
      "\<forall>r' \<in> set (db_outbox (sv_db sv)). due now r' \<longrightarrow> claim_order r \<le> claim_order r'"
      "claim_next_at token now sv = (sv\<lparr>sv_db := db'\<rparr>, Inr (Some (claim_of token now r)))"
      "db_outbox db' = update_where (\<lambda>x. ob_id x = ob_id r) (claim_row token now)
         (update_where (expirable now) (expire_row now) (db_outbox (sv_db sv)))"
proof -
  obtain db1 n where db1: "expire_due_at now sv = (sv\<lparr>sv_db := db1\<rparr>, Inr n)"
    "db_outbox db1 = update_where (expirable now) (expire_row now) (db_outbox (sv_db sv))"
    "outbox_inv (sv\<lparr>sv_db := db1\<rparr>)"
    using expire_due_ok [OF assms] by metis
  have sel: "select_ordered (due now) claim_order (db_outbox db1)
      = select_ordered (due now) claim_order (db_outbox (sv_db sv))"
    unfolding db1(2) by (rule select_due_after_expiry)
  show ?thesis
  proof (cases "first_row (select_ordered (due now) claim_order (db_outbox (sv_db sv)))")
    case None
    then have nd: "\<forall>r \<in> set (db_outbox (sv_db sv)). \<not> due now r"
      by (simp only: first_row_select_None)
    from None have "\<forall>r \<in> set (db_outbox db1). \<not> due now r"
      unfolding sel [symmetric] by (simp only: first_row_select_None)
    then have "claim_due_at token now (sv\<lparr>sv_db := db1\<rparr>) = (sv\<lparr>sv_db := db1\<rparr>, Inr None)"
      by (intro claim_due_None) simp
    with db1(1) have "claim_next_at token now sv = (sv\<lparr>sv_db := db1\<rparr>, Inr None)"
      by (simp add: claim_next_at_def)
    with nd show ?thesis using db1(2) by (intro none)
  next
    case (Some r)
    note r = first_row_select [OF this]
    have "ob_created_at r \<le> now" using r assms(2) by blast
    moreover have "first_row (select_ordered (due now) claim_order (db_outbox (sv_db (sv\<lparr>sv_db := db1\<rparr>)))) = Some r"
      using Some sel by simp
    ultimately obtain db' where
      "claim_due_at token now (sv\<lparr>sv_db := db1\<rparr>) = (sv\<lparr>sv_db := db1\<rparr>\<lparr>sv_db := db'\<rparr>, Inr (Some (claim_of token now r)))"
      "db_outbox db' = update_where (\<lambda>x. ob_id x = ob_id r) (claim_row token now) (db_outbox (sv_db (sv\<lparr>sv_db := db1\<rparr>)))"
      using claim_due_Some [OF db1(3)] by metis
    with db1 r show ?thesis by (intro claimed [of r db']) (simp_all add: claim_next_at_def)
  qed
qed

lemma demo_row_sel:
  "ob_status demo_row = PendingChannel" "ob_not_before demo_row = 20" "ob_expires_at demo_row = 1000"
  "ob_sensitive_body demo_row = False" "ob_body demo_row = ''b''" "ob_kind demo_row = ''generic''"
  "ob_origin_key demo_row = ''device:d1''" "ob_dedupe_key demo_row = ''k1''"
  "ob_notification_id demo_row = ''n1''" "ob_attempt_count demo_row = 0"
  by (simp_all add: demo_row_def demo_notification_def staged_row_def)

lemma demo_outbox_inv: "outbox_inv demo_service"
  using demo_schema_inv by (simp add: outbox_inv_def demo_service_sel demo_row_def staged_row_inv)

lemma demo_sending_facts:
  "db_outbox (sv_db demo_sending) = [claim_row ''tok'' 30 demo_row]"
  "holds_claim demo_claim (claim_row ''tok'' 30 demo_row)"
  "ob_created_at (claim_row ''tok'' 30 demo_row) = 20" "ob_id (claim_row ''tok'' 30 demo_row) = ''r1''"
  "ob_status (claim_row ''tok'' 30 demo_row) = SendingChannel"
  by (simp_all add: demo_sending_def demo_claim_def holds_claim_def claim_row_def claim_of_def
      demo_service_sel)

lemma demo_due: "due 30 demo_row"
  by (simp add: due_def demo_row_sel)

lemma demo_claim_update: "outbox_update UNIV (sv_db demo_service) (claimable ''r1'') (claim_row ''tok'' 30)"
  using outbox_update.claim [of 30 "sv_db demo_service" demo_row "''tok''" UNIV] demo_due
  by (simp add: demo_service_sel select_ordered_def)

lemma demo_claim_step: "outbox_step id UNIV demo_service demo_sending"
proof -
  have "outbox_checks demo_row" "row_inv demo_row"
    using demo_outbox_inv by (simp_all add: outbox_inv_def schema_inv_def demo_service_sel)
  then have "outbox_checks (claim_row ''tok'' 30 demo_row)"
    using update_checks [OF demo_claim_update, of demo_row]
    by (simp add: claimable_def demo_row_sel demo_service_sel claim_row_def)
  then have "fst (execute_update (claimable ''r1'') (claim_row ''tok'' 30) demo_service) = demo_sending"
    by (simp add: execute_update_def update_outbox_def demo_service_sel claimable_def demo_row_sel
        demo_sending_def update_where_def result_status_trigger_def claim_row_def demo_row_def
        demo_service_def demo_db_def staged_row_def)
  then show ?thesis using outbox_step.update [OF demo_claim_update, of id] by simp
qed

lemma demo_sending_inv: "outbox_inv demo_sending"
  using demo_claim_step demo_outbox_inv by (rule outbox_step_inv)

lemma finish_as_completion: "finish_claim_at c oc now sv = complete_claim (Finish oc, now) c sv"
  "release_claim_at c now sv = complete_claim (Release, now) c sv"
  by (simp_all add: complete_claim_def)

section \<open>Properties: the lifecycle of a row\<close>

text \<open>
  C1: Whatever the requests, workers and administrators do, and however their statements
  interleave, the outbox keeps its invariant: the schema's constraints and unique keys, a retry
  time exactly on the rows that wait for one, an acceptance time exactly on the accepted rows, and
  no body left in a finished row that was marked sensitive.
\<close>

theorem outbox_invariant:
  assumes "outbox_inv sv" "(outbox_step blake3 T)\<^sup>*\<^sup>* sv sv'"
  shows "outbox_inv sv'"
  using assms(2,1) by (rule outbox_system.steps_inv)

theorem outbox_invariant_witness:
  "outbox_inv (fst (expire_due_at 2000 demo_service))"
  using outbox_invariant [OF demo_outbox_inv expire_due_steps [of id UNIV]] by blast







section \<open>Properties: claims\<close>

text \<open>
  C9: A claim takes the right row: among the rows due at the time of the claim, the one of highest
  priority, then earliest due, then oldest, then least identifier. It fails only to find a due row
  when there is none. Exactly that row is marked as being sent, with the new token and one more
  attempt, and every row past its lifetime that is not being sent is expired.
\<close>

theorem claim_takes_least_due_row:
  assumes "outbox_inv sv" "\<And>r. r \<in> set (db_outbox (sv_db sv)) \<Longrightarrow> ob_created_at r \<le> now"
  shows "\<exists>sv'. sv_wake sv' = sv_wake sv \<and>
    (let expired = update_where (expirable now) (expire_row now) (db_outbox (sv_db sv))
     in (claim_next_at token now sv = (sv', Inr None)
         \<and> filter (due now) (db_outbox (sv_db sv)) = [] \<and> db_outbox (sv_db sv') = expired)
        \<or> (\<exists>r \<in> set (filter (due now) (db_outbox (sv_db sv))).
             claim_next_at token now sv = (sv', Inr (Some (claim_of token now r)))
             \<and> list_all (\<lambda>r'. claim_order r \<le> claim_order r') (filter (due now) (db_outbox (sv_db sv)))
             \<and> db_outbox (sv_db sv') =
                 update_where (\<lambda>x. ob_id x = ob_id r) (claim_row token now) expired))"
proof (rule claim_next_cases [OF assms, where token = token])
  fix db'
  assume "\<forall>r \<in> set (db_outbox (sv_db sv)). \<not> due now r"
    "claim_next_at token now sv = (sv\<lparr>sv_db := db'\<rparr>, Inr None)"
    "db_outbox db' = update_where (expirable now) (expire_row now) (db_outbox (sv_db sv))"
  then show ?thesis
    by (intro exI [of _ "sv\<lparr>sv_db := db'\<rparr>"]) (simp add: filter_empty_conv)
next
  fix r db'
  assume "r \<in> set (db_outbox (sv_db sv))" "due now r"
    "\<forall>r' \<in> set (db_outbox (sv_db sv)). due now r' \<longrightarrow> claim_order r \<le> claim_order r'"
    "claim_next_at token now sv = (sv\<lparr>sv_db := db'\<rparr>, Inr (Some (claim_of token now r)))"
    "db_outbox db' = update_where (\<lambda>x. ob_id x = ob_id r) (claim_row token now)
       (update_where (expirable now) (expire_row now) (db_outbox (sv_db sv)))"
  then show ?thesis
    unfolding Let_def
    by (intro exI [of _ "sv\<lparr>sv_db := db'\<rparr>"] conjI disjI2 bexI [of _ r]) (simp_all add: list_all_iff)
qed

theorem claim_takes_least_due_row_witness:
  "\<exists>sv'. claim_next_at ''tok'' 30 demo_service = (sv', Inr (Some demo_claim))"
  using claim_takes_least_due_row [OF demo_outbox_inv, of 30 "''tok''"] demo_due
  by (auto simp: demo_service_sel demo_claim_def Let_def)

text \<open>
  C2: Two workers never both complete a claim: after a finish or a release of the claim took
  effect, every later finish or release of it changes nothing and reports that it was not applied,
  whatever happened in between, as long as claim tokens are not issued twice.
\<close>

theorem spent_claims_have_no_effect:
  assumes "complete_claim x c sv = (sv', Inr True)" "cl_claim_token c \<notin> T"
    and "(outbox_step blake3 T)\<^sup>*\<^sup>* sv' sv''"
  shows "finish_claim_at c oc now sv'' = (sv'', Inr False) \<and> release_claim_at c now sv'' = (sv'', Inr False)"
  unfolding finish_as_completion using outbox_claims.spent_forever [OF assms] by blast

text \<open>
  C17: The holder of a claim can always complete it: with a clock that has not gone back before
  the row's acceptance, a finish or a release applies, and it writes the claimed row alone.
\<close>

theorem held_claims_complete:
  assumes "outbox_inv sv" "r \<in> set (db_outbox (sv_db sv))" "holds_claim c r" "ob_created_at r \<le> now"
  shows "\<exists>sv'. complete_claim (k, now) c sv = (sv', Inr True)
    \<and> db_outbox (sv_db sv') =
        update_where (\<lambda>x. ob_id x = ob_id r) (completion_row (k, now) c) (db_outbox (sv_db sv))"
proof -
  obtain db' where db': "complete_claim (k, now) c sv = (sv\<lparr>sv_db := db'\<rparr>, Inr True)"
    "db_outbox db' = update_where (holds_claim c) (completion_row (k, now) c) (db_outbox (sv_db sv))"
    using assms complete_held [of sv r c "(k, now)"] by auto
  have "holds_claim c x \<longleftrightarrow> ob_id x = ob_id r" if "x \<in> set (db_outbox (sv_db sv))" for x
  proof
    assume "ob_id x = ob_id r"
    with assms(1,2) that have "x = r"
      by (intro schema_inv_id_unique [of "sv_db sv"]) (simp_all add: outbox_inv_def)
    with assms(3) show "holds_claim c x" by simp
  qed (use assms(3) in \<open>simp add: holds_claim_def\<close>)
  then have "db_outbox db' = update_where (\<lambda>x. ob_id x = ob_id r) (completion_row (k, now) c) (db_outbox (sv_db sv))"
    unfolding db'(2) update_where_def by (intro map_cong) simp_all
  with db'(1) show ?thesis by (intro exI [of _ "sv\<lparr>sv_db := db'\<rparr>"]) simp
qed

theorem held_claims_complete_witness:
  "\<exists>sv'. complete_claim (Finish (ChAccepted None), 40) demo_claim demo_sending = (sv', Inr True)"
  using held_claims_complete [OF demo_sending_inv, of "claim_row ''tok'' 30 demo_row" demo_claim 40 "Finish (ChAccepted None)"]
  by (auto simp: demo_sending_facts)

theorem spent_claims_have_no_effect_witness:
  "\<exists>sv'. complete_claim (Release, 40) demo_claim demo_sending = (sv', Inr True)
    \<and> finish_claim_at demo_claim (ChAccepted None) 50 sv' = (sv', Inr False)"
proof -
  obtain db' where "complete_claim (Release, 40) demo_claim demo_sending = (demo_sending\<lparr>sv_db := db'\<rparr>, Inr True)"
    using complete_held [OF demo_sending_inv, of "claim_row ''tok'' 30 demo_row" demo_claim "(Release, 40)"]
    by (auto simp: demo_sending_facts)
  then show ?thesis
    using spent_claims_have_no_effect [of "(Release, 40)" demo_claim demo_sending _ "{}" id] by blast
qed

lemma execute_update_succeeds:
  assumes "outbox_inv sv" "outbox_update T (sv_db sv) p f"
    and "\<And>r. r \<in> set (db_outbox (sv_db sv)) \<Longrightarrow> ob_created_at r \<le> ob_updated_at (f r)"
  obtains db' where "execute_update p f sv = (sv\<lparr>sv_db := db'\<rparr>, Inr (count_where p (db_outbox (sv_db sv))))"
    "db_outbox db' = update_where p f (db_outbox (sv_db sv))" "outbox_inv (sv\<lparr>sv_db := db'\<rparr>)"
proof -
  obtain db' where db': "execute_update p f sv = (sv\<lparr>sv_db := db'\<rparr>, Inr (count_where p (db_outbox (sv_db sv))))"
    "db_outbox db' = update_where p f (db_outbox (sv_db sv))"
    by (rule execute_update_ok [OF assms(1,2)]) (auto intro: assms(3))
  have "outbox_inv (fst (execute_update p f sv))"
    using outbox_system.steps_inv [OF update_steps [OF assms(2)] assms(1)] .
  then show ?thesis using db' by (intro that) simp_all
qed

lemma failure_bounds:
  assumes "failure_transition oc a now = Some (s, Some t, code)" "0 \<le> now" "now + 1800000 \<le> i64_max"
  shows "now \<le> t \<and> t \<le> now + 1800000"
proof -
  obtain k d where "retry_after k a = Some d" "t = i64_add now d"
    using assms(1) by (cases oc) (auto split: option.splits if_splits)
  moreover from this(1) have "0 \<le> d" "d \<le> 1800000" using retry_after_nonneg by blast+
  moreover from this have "in_i64 (now + d)" using assms(2,3) by (simp add: in_i64_def i64_bounds)
  ultimately show ?thesis by (simp add: i64_add_id)
qed

text \<open>
  C19: The retry policy is bounded. A claim that comes back unaccepted is expired when its lifetime
  is over, and otherwise it waits for a retry exactly when a retry time is set, and that time is
  not in the past, at most thirty minutes ahead and before the end of the lifetime.
\<close>

theorem retry_is_bounded:
  assumes "oc \<notin> range ChAccepted" "0 \<le> now" "now + 1800000 \<le> i64_max"
  shows "case claim_failure c oc now of
      (status, Some t, code) \<Rightarrow> status = RetryWait \<and> now \<le> t \<and> t \<le> now + 1800000 \<and> t < cl_expires_at c
    | (status, None, code) \<Rightarrow>
        if cl_expires_at c \<le> now then status = Expired \<and> code = None
        else status \<in> {BlockedActivation, BlockedReconnect, DeadLetter, Cancelled, Expired}"
proof -
  obtain s nx code where f: "failure_transition oc (cl_attempt_count c) now = Some (s, nx, code)"
    using failure_transition_total [OF assms(1)] by (metis option.exhaust prod_cases3)
  note st = failure_transition_status [OF f]
  show ?thesis
  proof (cases nx)
    case None
    with f st show ?thesis by (auto simp: claim_failure_def)
  next
    case (Some t)
    with f failure_bounds [of oc "cl_attempt_count c" now s t code] assms st show ?thesis
      by (auto simp: claim_failure_def)
  qed
qed

theorem retry_is_bounded_witness:
  "claim_failure (claim_of ''tok'' 30 demo_row) (ChRetryable Network) 40 = (Expired, None, None)"
  using retry_is_bounded [of "ChRetryable Network" 40 "claim_of ''tok'' 30 demo_row"]
  by (auto simp: claim_failure_def i64_bounds retry_delay_def network_retry_ms_def claim_of_def demo_row_def
      staged_row_def demo_notification_def i64_add_id in_i64_def i64_saturating_sub_def i64_saturating_def)

lemma retry_delay_schedule:
  assumes "1 \<le> a" "in_i64 a"
  shows "retry_delay schedule a = (if a \<le> int (length schedule) then Some (schedule ! nat (a - 1)) else None)"
proof -
  have "i64_saturating_sub a 1 = a - 1"
    unfolding i64_saturating_sub_def using assms by (intro i64_saturating_id) (simp add: in_i64_def i64_bounds)
  with assms(1) show ?thesis by (auto simp: retry_delay_def Let_def)
qed

text \<open>
  The schedule for a failing network: attempts one to five are retried after 5 seconds,
  30 seconds, 2, 10 and 30 minutes, and from the sixth attempt on the notification is a dead
  letter.
\<close>

lemma network_retry_schedule:
  assumes "1 \<le> a" "in_i64 a" "0 \<le> now" "now + 1800000 \<le> i64_max"
  shows "failure_transition (ChRetryable Network) a now =
    (if a \<le> 5
     then Some (RetryWait, Some (now + [5000, 30000, 120000, 600000, 1800000] ! nat (a - 1)), Some ''NETWORK'')
     else Some (DeadLetter, None, Some ''NETWORK''))"
proof (cases "a \<le> 5")
  case True
  let ?d = "[5000, 30000, 120000, 600000, 1800000 :: int] ! nat (a - 1)"
  have "a \<in> {1, 2, 3, 4, 5}" using True assms(1) by auto
  then have "0 \<le> ?d" "?d \<le> 1800000" by auto
  then have "in_i64 (now + ?d)" using assms(3,4) by (simp add: in_i64_def i64_bounds)
  with True assms show ?thesis
    by (simp add: retry_delay_schedule network_retry_ms_def i64_add_id)
next
  case False
  with assms show ?thesis by (simp add: retry_delay_schedule network_retry_ms_def)
qed

lemma network_retry_schedule_witness:
  "failure_transition (ChRetryable Network) 2 1000 = Some (RetryWait, Some 31000, Some ''NETWORK'')"
  using network_retry_schedule [of 2 1000] by (simp add: in_i64_def i64_bounds)

section \<open>Properties: recovery\<close>

lemma recover_two_updates:
  assumes "outbox_inv sv" "in_i64 (now - 300000)"
  shows "update_where (stale_claim now) (recover_row now)
      (update_where (\<lambda>r. ob_status r = SendingChannel \<and> ob_expires_at r \<le> now) (expire_row now) (db_outbox (sv_db sv)))
    = map (recovered_row now) (db_outbox (sv_db sv))"
proof -
  have sub: "i64_sub now stale_claim_ms = now - 300000"
    using assms(2) by (simp add: i64_sub_id stale_claim_ms_def)
  have "(let r1 = if ob_status r = SendingChannel \<and> ob_expires_at r \<le> now then expire_row now r else r
         in if stale_claim now r1 then recover_row now r1 else r1) = recovered_row now r"
    if r: "r \<in> set (db_outbox (sv_db sv))" for r
  proof (cases "ob_status r = SendingChannel")
    case True
    have "claim_check r" using assms(1) r schema_inv_checks
      by (auto simp: outbox_inv_def outbox_checks_def)
    with True obtain t where "ob_claimed_at r = Some t" by (auto simp: claim_check_def)
    with True show ?thesis
      by (simp add: recovered_row_def stale_claim_def sub Let_def) (simp add: expire_row_def)
  next
    case False
    then show ?thesis by (simp add: recovered_row_def stale_claim_def)
  qed
  then show ?thesis unfolding update_where_def map_map comp_def Let_def by (intro map_cong refl)
qed

text \<open>
  C18: A crashed worker's claims are recovered: at startup every row still marked as being sent is
  expired when its lifetime is over, and put back to be sent at once when its claim is more than
  five minutes old; younger claims and all other rows are untouched.
\<close>

theorem stale_claims_recovered:
  assumes "outbox_inv sv" "\<And>r. r \<in> set (db_outbox (sv_db sv)) \<Longrightarrow> ob_created_at r \<le> now"
    and "in_i64 (now - 300000)"
  shows "\<exists>sv' n. recover_stale_claims_at now sv = (sv', Inr n)
    \<and> db_outbox (sv_db sv') =
       map (recovered_row now) (db_outbox (sv_db sv))"
proof -
  let ?p = "\<lambda>r. ob_status r = SendingChannel \<and> ob_expires_at r \<le> now"
  have c: "ob_created_at r \<le> ob_updated_at (expire_row now r)" if "r \<in> set (db_outbox (sv_db sv))" for r
    using assms(2) [OF that] by (simp add: expire_row_def)
  obtain db1 where d1: "execute_update ?p (expire_row now) sv = (sv\<lparr>sv_db := db1\<rparr>, Inr (count_where ?p (db_outbox (sv_db sv))))"
    "db_outbox db1 = update_where ?p (expire_row now) (db_outbox (sv_db sv))" "outbox_inv (sv\<lparr>sv_db := db1\<rparr>)"
    by (rule execute_update_succeeds [OF assms(1) outbox_update.expire_claimed [of UNIV _ now] c])
  define sv1 where "sv1 = sv\<lparr>sv_db := db1\<rparr>"
  have "ob_created_at r \<le> ob_updated_at (recover_row now r)" if "r \<in> set (db_outbox (sv_db sv1))" for r
    using that assms(2) by (auto simp: sv1_def d1(2) update_where_def expire_row_def recover_row_def)
  then obtain db2 where d2: "execute_update (stale_claim now) (recover_row now) sv1
      = (sv1\<lparr>sv_db := db2\<rparr>, Inr (count_where (stale_claim now) (db_outbox (sv_db sv1))))"
    "db_outbox db2 = update_where (stale_claim now) (recover_row now) (db_outbox (sv_db sv1))"
    by (rule execute_update_succeeds [OF d1(3) [folded sv1_def] outbox_update.recover [of UNIV _ now]])
  have "db_outbox db2 = map (recovered_row now) (db_outbox (sv_db sv))"
    using d2(2) recover_two_updates [OF assms(1,3)] by (simp add: sv1_def d1(2))
  moreover have "recover_stale_claims_at now sv =
      (if 0 < count_where (stale_claim now) (db_outbox (sv_db sv1)) then notify_worker (sv1\<lparr>sv_db := db2\<rparr>)
       else sv1\<lparr>sv_db := db2\<rparr>,
       Inr (count_where ?p (db_outbox (sv_db sv)) + count_where (stale_claim now) (db_outbox (sv_db sv1))))"
    unfolding recover_stale_claims_at_def d1(1) sv1_def [symmetric] st_then_simps d2(1) by (rule refl)
  ultimately show ?thesis by (auto simp: notify_worker_def)
qed

text \<open>
  Unblocking releases every waiting notification of its kind: when the account is activated
  or reconnected, each blocked row within its lifetime becomes due at once, and no other row of
  the outbox changes, whatever the outcome for the retired bundle segments.
\<close>

lemma unblocked_rows_are_due:
  assumes "outbox_inv sv" "\<And>r. r \<in> set (db_outbox (sv_db sv)) \<Longrightarrow> ob_created_at r \<le> now"
    and "status \<in> {BlockedActivation, BlockedReconnect}"
  shows "db_outbox (sv_db (fst (unblock_at status now sv))) =
      map (\<lambda>r. if ob_status r = status \<and> now < ob_expires_at r then unblock_row now r else r)
        (db_outbox (sv_db sv))
    \<and> list_all (due now) (map (unblock_row now) (filter (\<lambda>r. now < ob_expires_at r) (db_outbox (sv_db sv))))"
proof -
  have "ob_created_at r \<le> ob_updated_at (unblock_row now r)" if "r \<in> set (db_outbox (sv_db sv))" for r
    using assms(2) [OF that] by (simp add: unblock_row_def)
  then obtain db' where d: "execute_update (\<lambda>r. ob_status r = status \<and> ob_expires_at r > now) (unblock_row now) sv
      = (sv\<lparr>sv_db := db'\<rparr>, Inr (count_where (\<lambda>r. ob_status r = status \<and> ob_expires_at r > now) (db_outbox (sv_db sv))))"
    "db_outbox db' = update_where (\<lambda>r. ob_status r = status \<and> ob_expires_at r > now) (unblock_row now) (db_outbox (sv_db sv))"
    by (rule execute_update_succeeds [OF assms(1) outbox_update.unblock [OF assms(3), of UNIV _ now]])
  have seg: "db_outbox (sv_db (fst (unblock_bundle_segments_at status now s))) = db_outbox (sv_db s)" for s
    by (simp add: unblock_bundle_segments_at_def notify_worker_def Let_def)
  have "db_outbox (sv_db (fst (unblock_at status now sv))) = db_outbox db'"
    using seg [of "sv\<lparr>sv_db := db'\<rparr>"]
    by (cases "unblock_bundle_segments_at status now (sv\<lparr>sv_db := db'\<rparr>)"; cases "snd (unblock_bundle_segments_at status now (sv\<lparr>sv_db := db'\<rparr>))")
      (auto simp: unblock_at_def d(1) notify_worker_def)
  then show ?thesis by (auto simp: d(2) update_where_def list_all_iff due_def unblock_row_def)
qed



lemma link_body_Some:
  assumes "protected_result_link_body cipher parse_uuid row_id now db = Inr (Some body)"
  obtains o' r where "o' \<in> set (db_outbox db)" "ob_id o' = row_id" "ob_body_kind o' = ProtectedResultLink"
    "r \<in> set (db_results db)" "ob_result_row_id o' = Some (rs_id r)" "rs_revoked_at r = None" "now < rs_page_expires_at r"
proof -
  obtain o' where o': "find (\<lambda>o'. ob_id o' = row_id \<and> ob_body_kind o' = ProtectedResultLink) (db_outbox db) = Some o'"
    using assms by (auto simp: protected_result_link_body_def split: option.splits)
  moreover obtain r where r: "find (\<lambda>r. Some (rs_id r) = ob_result_row_id o') (db_results db) = Some r"
    using assms o' by (auto simp: protected_result_link_body_def split: option.splits)
  moreover have "\<not> (rs_revoked_at r \<noteq> None \<or> rs_page_expires_at r \<le> now)"
    using assms o' r by (auto simp: protected_result_link_body_def split: if_splits)
  ultimately show ?thesis
    by (intro that [of o' r]) (auto simp: find_Some_iff in_set_conv_nth)
qed

text \<open>
  C16: A withdrawn result is never sent: a pass that claims a result link hands a message to the
  channel only when, after the claim, the result behind the row is not revoked and its page has
  not expired; a pass never hands over more than one message.
\<close>

theorem link_messages_need_live_result:
  assumes "run_pass cipher parse_uuid blake3_client env sv = (res, messages)"
    and "unix_timestamp_ms (pe_now env) = Inr now"
    and "claim_next_at (pe_token env) now sv = (sv1, Inr (Some c))" "cl_kind c = ''result_link''"
  shows "messages = [] \<or>
    (\<exists>body o' r. messages = [claim_message blake3_client c body]
       \<and> o' \<in> set (db_outbox (sv_db (pe_after_claim env sv1))) \<and> ob_id o' = cl_row_id c
       \<and> r \<in> set (db_results (sv_db (pe_after_claim env sv1))) \<and> ob_result_row_id o' = Some (rs_id r)
       \<and> rs_revoked_at r = None \<and> now < rs_page_expires_at r)"
proof (cases "protected_result_link_body cipher parse_uuid (cl_row_id c) now (sv_db (pe_after_claim env sv1))")
  case (Inl e)
  then have "messages = []" using assms by (simp add: run_pass_def Let_def)
  then show ?thesis ..
next
  case (Inr b)
  show ?thesis
  proof (cases b)
    case None
    then have "messages = []" using assms Inr by (auto simp: run_pass_def Let_def)
    then show ?thesis ..
  next
    case (Some body)
    then have "messages = [claim_message blake3_client c body]"
      using assms Inr by (auto simp: run_pass_def Let_def)
    moreover from Inr Some
    have "protected_result_link_body cipher parse_uuid (cl_row_id c) now (sv_db (pe_after_claim env sv1)) = Inr (Some body)"
      by simp
    ultimately show ?thesis by (elim link_body_Some) blast
  qed
qed



section \<open>Witnesses: recovery and the worker\<close>

lemma demo_row_checks: "outbox_checks demo_row" "row_inv demo_row"
  using demo_outbox_inv by (simp_all add: outbox_inv_def schema_inv_def demo_service_sel)

lemma demo_fingerprint: "fingerprint_check (''wx:'' @ replicate 64 (CHR ''a''))"
  by code_simp

lemma demo_placeholder: "sql_length ''[PROTECTED_RESULT_LINK]'' \<le> 6000"
  by code_simp

lemma demo_link_inv: "outbox_inv demo_link_service"
proof -
  have "outbox_checks demo_link"
    using demo_row_checks(1) demo_fingerprint demo_placeholder
    unfolding outbox_checks_def demo_link_def target_check_def kind_check_def body_kind_check_def origin_check_def claim_check_def
    by (simp add: demo_row_def staged_row_def)
  moreover have "row_inv demo_link"
    using demo_row_checks(2) by (simp add: row_inv_def demo_link_def demo_row_sel)
  ultimately show ?thesis
    by (simp add: outbox_inv_def schema_inv_def demo_link_service_def outbox_keys_unique_def)
qed

lemma demo_env_clock: "unix_timestamp_ms (pe_now demo_env) = Inr 30" "unix_timestamp_ms (pe_finish_now demo_env) = Inr 40"
  by (simp_all add: demo_env_def unix_timestamp_ms_def i64_bounds)

theorem stale_claims_recovered_witness:
  "\<exists>sv' n. recover_stale_claims_at 400000 demo_sending = (sv', Inr n)
    \<and> db_outbox (sv_db sv') = [expire_row 400000 (claim_row ''tok'' 30 demo_row)]"
  using stale_claims_recovered [OF demo_sending_inv, of 400000]
  by (simp add: demo_sending_facts recovered_row_def in_i64_def i64_bounds) (simp add: claim_row_def demo_row_sel)

lemma demo_blocked_inv: "outbox_inv demo_blocked"
proof -
  have "outbox_checks (demo_row\<lparr>ob_status := BlockedActivation\<rparr>)"
    using demo_row_checks(1) by (intro checks_transfer [OF demo_row_checks(1)])
      (simp_all add: outbox_checks_def claim_check_def demo_row_sel)
  moreover have "row_inv (demo_row\<lparr>ob_status := BlockedActivation\<rparr>)"
    using demo_row_checks(2) by (simp add: row_inv_def demo_row_sel)
  ultimately show ?thesis
    by (simp add: outbox_inv_def schema_inv_def demo_blocked_def outbox_keys_unique_def)
qed

lemma unblocked_rows_are_due_witness:
  "db_outbox (sv_db (fst (unblock_at BlockedActivation 50 demo_blocked)))
   = [unblock_row 50 (demo_row\<lparr>ob_status := BlockedActivation\<rparr>)]"
  using unblocked_rows_are_due [OF demo_blocked_inv, of 50 BlockedActivation]
  by (simp add: demo_blocked_def demo_row_sel demo_service_sel)


theorem link_messages_need_live_result_witness:
  "\<exists>sv1 c res messages. claim_next_at ''tok'' 30 demo_link_service = (sv1, Inr (Some c)) \<and> cl_kind c = ''result_link''
    \<and> run_pass (Some (\<lambda>n c a. Some ''url'')) Some id demo_env demo_link_service = (res, messages)
    \<and> (messages = [] \<or> (\<exists>r \<in> set (db_results (sv_db sv1)). rs_revoked_at r = None \<and> 30 < rs_page_expires_at r))"
proof -
  have out: "db_outbox (sv_db demo_link_service) = [demo_link]" by (simp add: demo_link_service_def)
  have d: "due 30 demo_link" "ob_created_at demo_link \<le> 30" "ob_kind demo_link = ''result_link''"
    using demo_due by (simp_all add: due_def demo_link_def demo_service_sel)
  obtain sv1 where cl: "claim_next_at ''tok'' 30 demo_link_service = (sv1, Inr (Some (claim_of ''tok'' 30 demo_link)))"
    by (rule claim_next_cases [OF demo_link_inv, of 30 "''tok''"]) (use d in \<open>auto simp: out\<close>)
  obtain res ms where rp: "run_pass (Some (\<lambda>n c a. Some ''url'')) Some id demo_env demo_link_service = (res, ms)"
    by fastforce
  show ?thesis
    using link_messages_need_live_result [OF rp demo_env_clock(1), of sv1 "claim_of ''tok'' 30 demo_link"] cl rp d(3)
    by (auto simp: demo_env_def claim_of_def)
qed



end
