(* ===== verification/Result_Service.thy ===== *)
theory Result_Service
  imports Outbox_Correct
begin

text \<open>
  The result service of the relay (\<open>apps/server/src/results.rs\<close>): a device publishes an encrypted
  result with an unguessable share link, a notice with the link goes through the outbox, the
  owner or an administrator resends or revokes it, and the public page serves it. Transactions
  either commit as a whole or leave the database as it was. Library code is a parameter: the
  AEAD, the keyed hash, SHA-256, base64, JSON serialisation, URL parsing and UUID parsing.
\<close>

section \<open>Libraries, configuration and requests\<close>

record cipher_lib =
  ci_open :: aead_open
  ci_seal :: "string \<Rightarrow> string \<Rightarrow> string \<Rightarrow> string option"
  ci_mac :: "string \<Rightarrow> string"

record parsed_url =
  pu_scheme :: string
  pu_host :: "string option"
  pu_username :: string
  pu_password :: "string option"
  pu_query :: "string option"
  pu_fragment :: "string option"
  pu_path :: string
  pu_origin :: string

record uuid_value =
  uu_text :: string
  uu_bytes :: string

record result_publication =
  pb_schema_version :: i64
  pb_result_id :: string
  pb_dedupe_key :: string
  pb_kind :: string
  pb_content_mode :: string
  pb_source :: string
  pb_correlation_key :: string
  pb_result_revision :: string
  pb_title :: string
  pb_body :: string
  pb_source_hash :: string
  pb_created_at :: i64
  pb_notification_expires_at :: i64
  pb_started_at :: "i64 option"
  pb_completed_at :: "i64 option"
  pb_duration_ms :: "i64 option"

record result_libs =
  lb_sha256 :: "string \<Rightarrow> string"
  lb_b64_encode :: "string \<Rightarrow> string"
  lb_b64_decode :: "string \<Rightarrow> string option"
  lb_to_json :: "result_publication \<Rightarrow> string option"
  lb_parse_url :: "string \<Rightarrow> parsed_url option"
  lb_parse_uuid :: "string \<Rightarrow> string option"

record results_config =
  rc_enabled :: bool
  rc_public_origin :: "string option"
  rc_share_ttl_days :: nat
  rc_max_body_bytes :: nat
  rc_max_retained_body_bytes :: nat

record result_service =
  rv_config :: results_config
  rv_cipher :: "cipher_lib option"

datatype page_state = PageAvailable | PageRevoked | PageExpired | PageContentUnavailable

record result_receipt =
  rr_schema_version :: i64
  rr_result_id :: string
  rr_source_hash :: string
  rr_accepted_at :: i64
  rr_updated_at :: i64
  rr_page_state :: page_state
  rr_page_expires_at :: i64
  rr_notification_id :: string
  rr_notification_status :: delivery_status

text \<open>\<open>RPanic\<close> is the panic of \<open>Row::get\<close> on a NULL column.\<close>

datatype result_error =
    RValidation | RConflict | RNotFound | RInaccessible | RTargetUnavailable | RUnavailable
  | RCapacity | RDatabase | RClock | RPanic

definition result_now :: "nat option \<Rightarrow> result_error + i64" where
  "result_now clock =
     (case clock of
        None \<Rightarrow> Inl RClock
      | Some m \<Rightarrow> if int m \<le> i64_max then Inr (int m) else Inl RClock)"

definition normalized_public_origin :: "result_libs \<Rightarrow> results_config \<Rightarrow> string option" where
  "normalized_public_origin L c =
     (case rc_public_origin c of
        None \<Rightarrow> None
      | Some value \<Rightarrow>
          (case lb_parse_url L value of
             None \<Rightarrow> None
           | Some u \<Rightarrow>
               if pu_scheme u \<noteq> ''https'' \<or> pu_host u = None \<or> pu_username u \<noteq> [] \<or> pu_password u \<noteq> None
                  \<or> pu_query u \<noteq> None \<or> pu_fragment u \<noteq> None \<or> pu_path u \<noteq> ''/''
               then None else Some (pu_origin u)))"

definition available :: "result_libs \<Rightarrow> result_service \<Rightarrow> bool" where
  "available L S \<longleftrightarrow>
     rc_enabled (rv_config S) \<and> rv_cipher S \<noteq> None \<and> normalized_public_origin L (rv_config S) \<noteq> None"

section \<open>Validation and digests\<close>

definition hex_digest :: "result_libs \<Rightarrow> string \<Rightarrow> string" where
  "hex_digest L v = hex_encode (lb_sha256 L v)"

definition max_safe_integer :: i64 where "max_safe_integer = 9007199254740991"

definition valid_time :: "i64 \<Rightarrow> bool" where
  "valid_time v \<longleftrightarrow> 0 \<le> v \<and> v \<le> max_safe_integer"

definition valid_key :: "string \<Rightarrow> bool" where
  "valid_key v \<longleftrightarrow> \<not> list_ex (\<lambda>c. is_control c \<or> is_whitespace c) (utf8_decode v)"

definition decimal_value :: "string \<Rightarrow> int" where
  "decimal_value v = foldl (\<lambda>acc c. acc * 10 + (int (byte_of c) - 48)) 0 v"

definition valid_revision :: "string \<Rightarrow> bool" where
  "valid_revision v \<longleftrightarrow>
     v \<noteq> [] \<and> length v \<le> 20 \<and> list_all ascii_digit v \<and> hd v \<noteq> CHR ''0'' \<and> decimal_value v \<le> i64_max"

definition validate_publication ::
  "result_libs \<Rightarrow> result_publication \<Rightarrow> nat \<Rightarrow> result_error + unit" where
  "validate_publication L p max_bytes =
     (if pb_schema_version p \<noteq> 1 \<or> pb_kind p \<noteq> ''run_completed'' \<or> pb_content_mode p \<noteq> ''full_final''
         \<or> pb_source p \<noteq> ''codex_stop''
         \<or> pb_result_id p = [] \<or> length (pb_result_id p) > 128 \<or> \<not> valid_key (pb_result_id p)
         \<or> pb_dedupe_key p = [] \<or> length (pb_dedupe_key p) > 256 \<or> \<not> valid_key (pb_dedupe_key p)
         \<or> pb_correlation_key p = [] \<or> length (pb_correlation_key p) > 128
         \<or> \<not> valid_key (pb_correlation_key p)
         \<or> \<not> valid_revision (pb_result_revision p)
         \<or> trim_chars (utf8_decode (pb_title p)) = [] \<or> chars_count (pb_title p) > 128
         \<or> list_ex is_control (utf8_decode (pb_title p))
         \<or> length (pb_body p) > max_bytes
         \<or> length (pb_source_hash p) \<noteq> 64
         \<or> \<not> list_all (\<lambda>c. ascii_lower c \<or> ascii_digit c) (pb_source_hash p)
         \<or> hex_digest L (pb_body p) \<noteq> pb_source_hash p
         \<or> \<not> valid_time (pb_created_at p) \<or> \<not> valid_time (pb_notification_expires_at p)
         \<or> pb_notification_expires_at p \<le> pb_created_at p
         \<or> is_some_and (\<lambda>v. \<not> valid_time v) (pb_started_at p)
         \<or> is_some_and (\<lambda>v. \<not> valid_time v) (pb_completed_at p)
         \<or> is_some_and (\<lambda>v. \<not> valid_time v) (pb_duration_ms p)
      then Inl RValidation else Inr ())"

definition publication_digest :: "result_libs \<Rightarrow> result_service \<Rightarrow> result_publication \<Rightarrow> result_error + string" where
  "publication_digest L S p =
     and_then (ok_or RUnavailable (rv_cipher S)) (\<lambda>ci.
     and_then (ok_or RValidation (lb_to_json L p)) (\<lambda>json.
       Inr (ci_mac ci (''PromptDock.ResultPublication.v1'' @ [char_of (0 :: nat)] @ json))))"

definition result_aad :: "string \<Rightarrow> string \<Rightarrow> string \<Rightarrow> string \<Rightarrow> string" where
  "result_aad device_bytes rid hash purpose = purpose @ device_bytes @ rid @ hash"

definition encrypt ::
  "cipher_lib \<Rightarrow> string option \<Rightarrow> string \<Rightarrow> string \<Rightarrow> outbox_error + (string \<times> string)" where
  "encrypt ci nonce plaintext aad =
     and_then (ok_or CryptoUnavailable nonce) (\<lambda>n.
     and_then (ok_or CryptoUnavailable (ci_seal ci n plaintext (framed_aad aad))) (\<lambda>ct. Inr (n, ct)))"

definition result_link_notice :: "string \<Rightarrow> string \<Rightarrow> string \<Rightarrow> string" where
  "result_link_notice title origin token =
     utf8_encode [0x1f4c4, 0x20] @ title
     @ utf8_encode [0xa, 0xa, 0x5b8c, 0x6574, 0x7ed3, 0x679c, 0x5df2, 0x4fdd, 0x5b58, 0xff0c, 0x53ef,
         0x70b9, 0x51fb, 0x4e0b, 0x65b9, 0x94fe, 0x63a5, 0x67e5, 0x770b, 0x3002, 0xa, 0xa, 0x67e5,
         0x770b, 0x5b8c, 0x6574, 0x7ed3, 0x679c, 0xff1a, 0xa]
     @ origin @ ''/r/'' @ token"

definition decode_token :: "result_libs \<Rightarrow> string \<Rightarrow> result_error + string" where
  "decode_token L v =
     (if length v \<noteq> 43 then Inl RInaccessible
      else and_then (ok_or RInaccessible (lb_b64_decode L v)) (\<lambda>bytes.
             if length bytes \<noteq> 32 then Inl RInaccessible else Inr bytes))"

section \<open>Receipts\<close>

text \<open>\<open>results LEFT JOIN notification_outbox\<close> on the current notice of the result.\<close>

definition current_notice :: "result_row \<Rightarrow> outbox_row \<Rightarrow> bool" where
  "current_notice r q \<longleftrightarrow>
     ob_notification_id q = rs_current_notification_id r \<and> ob_result_row_id q = Some (rs_id r)"

definition join_notice :: "relay_db \<Rightarrow> result_row \<Rightarrow> (result_row \<times> outbox_row option) list" where
  "join_notice db r =
     (case filter (current_notice r) (db_outbox db) of
        [] \<Rightarrow> [(r, None)]
      | qs \<Rightarrow> map (\<lambda>q. (r, Some q)) qs)"

definition results_with_notice :: "relay_db \<Rightarrow> (result_row \<Rightarrow> bool) \<Rightarrow> (result_row \<times> outbox_row option) list" where
  "results_with_notice db p = concat (map (join_notice db) (filter p (db_results db)))"

definition joined_status :: "result_row \<times> outbox_row option \<Rightarrow> delivery_status" where
  "joined_status rq = (case snd rq of Some q \<Rightarrow> ob_status q | None \<Rightarrow> rs_notification_status (fst rq))"

definition page_state_at :: "i64 \<Rightarrow> result_row \<Rightarrow> page_state" where
  "page_state_at observed r =
     (if rs_revoked_at r \<noteq> None then PageRevoked
      else if observed \<ge> rs_page_expires_at r then PageExpired
      else if rs_body_purged_at r \<noteq> None then PageContentUnavailable
      else PageAvailable)"

definition receipt_of :: "i64 \<Rightarrow> result_row \<times> outbox_row option \<Rightarrow> result_receipt" where
  "receipt_of observed rq =
     (let r = fst rq in
      \<lparr>rr_schema_version = 1, rr_result_id = rs_result_id r, rr_source_hash = rs_source_hash r,
       rr_accepted_at = rs_accepted_at r,
       rr_updated_at = max (rs_updated_at r)
         (if observed \<ge> rs_page_expires_at r then rs_page_expires_at r else 0),
       rr_page_state = page_state_at observed r, rr_page_expires_at = rs_page_expires_at r,
       rr_notification_id = rs_current_notification_id r,
       rr_notification_status = joined_status rq\<rparr>)"

definition existing_receipt ::
  "string \<Rightarrow> string \<Rightarrow> string \<Rightarrow> string \<Rightarrow> nat option \<Rightarrow> relay_db \<Rightarrow> result_error + result_receipt option" where
  "existing_receipt origin rid dedupe digest clock db =
     (case results_with_notice db (\<lambda>r. rs_origin_key r = origin \<and> (rs_result_id r = rid \<or> rs_dedupe_key r = dedupe)) of
        [] \<Rightarrow> Inr None
      | [rq] \<Rightarrow>
          if rs_request_digest (fst rq) \<noteq> digest then Inl RConflict
          else and_then (result_now clock) (\<lambda>observed. Inr (Some (receipt_of observed rq)))
      | _ \<Rightarrow> Inl RConflict)"

definition receipt_for :: "string \<Rightarrow> string \<Rightarrow> nat option \<Rightarrow> relay_db \<Rightarrow> result_error + result_receipt" where
  "receipt_for origin rid clock db =
     (case results_with_notice db (\<lambda>r. rs_origin_key r = origin \<and> rs_result_id r = rid) of
        [] \<Rightarrow> Inl RNotFound
      | rq # _ \<Rightarrow> and_then (result_now clock) (\<lambda>observed. Inr (receipt_of observed rq)))"

definition result_status :: "uuid_value \<Rightarrow> string \<Rightarrow> nat option \<Rightarrow> relay_db \<Rightarrow> result_error + result_receipt" where
  "result_status device rid clock db = receipt_for (''device:'' @ uu_text device) rid clock db"

section \<open>Statements on the result tables\<close>

datatype insert_failure = UniqueViolation | OtherViolation

definition digit_code_point :: "nat \<Rightarrow> bool" where
  "digit_code_point n \<longleftrightarrow> 48 \<le> n \<and> n \<le> 57"

definition result_checks :: "result_row \<Rightarrow> bool" where
  "result_checks r \<longleftrightarrow>
     1 \<le> sql_length (rs_result_id r) \<and> sql_length (rs_result_id r) \<le> 128
     \<and> 1 \<le> sql_length (rs_dedupe_key r) \<and> sql_length (rs_dedupe_key r) \<le> 256
     \<and> length (rs_request_digest r) = 32
     \<and> rs_kind r = ''run_completed'' \<and> rs_content_mode r = ''full_final'' \<and> rs_source r = ''codex_stop''
     \<and> 1 \<le> sql_length (rs_correlation_key r) \<and> sql_length (rs_correlation_key r) \<le> 128
     \<and> 1 \<le> sql_length (rs_result_revision r) \<and> sql_length (rs_result_revision r) \<le> 20
     \<and> list_all digit_code_point (utf8_decode (rs_result_revision r))
     \<and> 1 \<le> sql_length (rs_safe_title r) \<and> sql_length (rs_safe_title r) \<le> 128
     \<and> 0 \<le> rs_body_bytes r \<and> rs_body_bytes r \<le> 262144
     \<and> sql_length (rs_source_hash r) = 64 \<and> list_all hex_code_point (utf8_decode (rs_source_hash r))
     \<and> rs_origin_key r = ''device:'' @ rs_origin_device_id r
     \<and> rs_page_expires_at r > rs_accepted_at r
     \<and> rs_body_retain_until r \<ge> rs_page_expires_at r
     \<and> (case rs_body_purged_at r of
          None \<Rightarrow> rs_body_ciphertext r \<noteq> None
            \<and> (case rs_body_nonce r of None \<Rightarrow> False | Some n \<Rightarrow> length n = 24)
        | Some _ \<Rightarrow> rs_body_ciphertext r = None \<and> rs_body_nonce r = None)"

definition result_duplicates :: "result_row \<Rightarrow> result_row \<Rightarrow> bool" where
  "result_duplicates new r \<longleftrightarrow>
     rs_id r = rs_id new
     \<or> (rs_origin_key r = rs_origin_key new
        \<and> (rs_result_id r = rs_result_id new \<or> rs_dedupe_key r = rs_dedupe_key new))"

definition insert_result :: "result_row \<Rightarrow> relay_db \<Rightarrow> insert_failure + relay_db" where
  "insert_result new db =
     (if \<not> result_checks new then Inl OtherViolation
      else if list_ex (result_duplicates new) (db_results db) then Inl UniqueViolation
      else if \<not> device_exists db (Some (rs_origin_device_id new)) then Inl OtherViolation
      else Inr (db\<lparr>db_results := db_results db @ [new]\<rparr>))"

definition insert_share :: "share_row \<Rightarrow> relay_db \<Rightarrow> relay_db option" where
  "insert_share new db =
     (if length (sh_token_digest new) \<noteq> 32 \<or> length (sh_token_nonce new) \<noteq> 24
         \<or> list_ex (\<lambda>s. sh_result_row_id s = sh_result_row_id new \<or> sh_token_digest s = sh_token_digest new)
             (db_shares db)
         \<or> \<not> list_ex (\<lambda>r. rs_id r = sh_result_row_id new) (db_results db)
      then None else Some (db\<lparr>db_shares := db_shares db @ [new]\<rparr>))"

text \<open>\<open>INSERT OR IGNORE INTO result_actions\<close>: \<open>None\<close> is a violated foreign key.\<close>

definition insert_action :: "action_row \<Rightarrow> relay_db \<Rightarrow> relay_db option" where
  "insert_action new db =
     (if sql_length (ac_request_id new) < 1 \<or> sql_length (ac_request_id new) > 128
         \<or> list_ex (\<lambda>a. ac_result_row_id a = ac_result_row_id new \<and> ac_action_kind a = ac_action_kind new
                       \<and> ac_request_id a = ac_request_id new) (db_actions db)
      then Some db
      else if list_ex (\<lambda>r. rs_id r = ac_result_row_id new) (db_results db)
      then Some (db\<lparr>db_actions := db_actions db @ [new]\<rparr>) else None)"

section \<open>Publishing\<close>

text \<open>
  What one attempt reads from outside: the clock at the first replay look-up, at acceptance and
  at the second look-up, the fresh UUIDs and the random bytes (\<open>None\<close> when the generator fails),
  and what other tasks commit between the replay look-up and the transaction.
\<close>

record publish_env =
  pv_observed :: "nat option"
  pv_now :: "nat option"
  pv_observed_again :: "nat option"
  pv_row_id :: string
  pv_notification_id :: string
  pv_outbox_id :: string
  pv_token :: "string option"
  pv_body_nonce :: "string option"
  pv_token_nonce :: "string option"
  pv_notice_nonce :: "string option"
  pv_interleave :: "relay_db \<Rightarrow> relay_db"

record prepared_result =
  pp_cipher :: cipher_lib
  pp_target :: string
  pp_now :: i64
  pp_expires :: i64
  pp_token_text :: string
  pp_token_digest :: string
  pp_body :: "string \<times> string"
  pp_share :: "string \<times> string"
  pp_origin_url :: string

definition day_ms :: i64 where "day_ms = 86400000"

definition prepare_result ::
  "result_libs \<Rightarrow> publish_env \<Rightarrow> result_service \<Rightarrow> uuid_value \<Rightarrow> result_publication \<Rightarrow> string option
   \<Rightarrow> result_error + prepared_result" where
  "prepare_result L E S device p target =
     (if \<not> available L S then Inl RUnavailable
      else
        and_then (validate_publication L p (rc_max_body_bytes (rv_config S))) (\<lambda>_.
        and_then (ok_or RTargetUnavailable target) (\<lambda>tgt.
        and_then (result_now (pv_now E)) (\<lambda>now.
        and_then (ok_or RClock (i64_checked_add now (int (rc_share_ttl_days (rv_config S)) * day_ms))) (\<lambda>expires.
        if pb_notification_expires_at p \<le> now \<or> pb_notification_expires_at p > expires then Inl RValidation
        else
        and_then (ok_or RUnavailable (rv_cipher S)) (\<lambda>ci.
        and_then (ok_or RUnavailable (pv_token E)) (\<lambda>token.
        and_then (map_err RUnavailable (encrypt ci (pv_body_nonce E) (pb_body p)
          (result_aad (uu_bytes device) (pb_result_id p) (pb_source_hash p) ''ResultBody''))) (\<lambda>body.
        and_then (map_err RUnavailable (encrypt ci (pv_token_nonce E) (lb_b64_encode L token)
          (result_aad (uu_bytes device) (pb_result_id p) (pb_source_hash p) ''ResultShareToken''))) (\<lambda>share.
        and_then (ok_or RUnavailable (normalized_public_origin L (rv_config S))) (\<lambda>url.
          Inr \<lparr>pp_cipher = ci, pp_target = tgt, pp_now = now, pp_expires = expires,
               pp_token_text = lb_b64_encode L token, pp_token_digest = lb_sha256 L token,
               pp_body = body, pp_share = share, pp_origin_url = url\<rparr>))))))))))"

definition published_row ::
  "publish_env \<Rightarrow> prepared_result \<Rightarrow> uuid_value \<Rightarrow> result_publication \<Rightarrow> string \<Rightarrow> result_row" where
  "published_row E x device p digest =
     \<lparr>rs_id = pv_row_id E, rs_origin_device_id = uu_text device,
      rs_origin_key = ''device:'' @ uu_text device, rs_result_id = pb_result_id p,
      rs_dedupe_key = pb_dedupe_key p, rs_request_digest = digest, rs_kind = pb_kind p,
      rs_content_mode = pb_content_mode p, rs_source = pb_source p,
      rs_correlation_key = pb_correlation_key p, rs_result_revision = pb_result_revision p,
      rs_safe_title = pb_title p, rs_body_ciphertext = Some (snd (pp_body x)),
      rs_body_nonce = Some (fst (pp_body x)), rs_body_bytes = int (length (pb_body p)),
      rs_source_hash = pb_source_hash p, rs_started_at = pb_started_at p,
      rs_completed_at = pb_completed_at p, rs_duration_ms = pb_duration_ms p,
      rs_accepted_at = pp_now x, rs_created_at = pb_created_at p, rs_page_expires_at = pp_expires x,
      rs_body_retain_until = pp_expires x, rs_body_purged_at = None, rs_revoked_at = None,
      rs_initial_notification_id = pv_notification_id E,
      rs_current_notification_id = pv_notification_id E, rs_notification_status = PendingChannel,
      rs_updated_at = pp_now x\<rparr>"

definition published_share :: "publish_env \<Rightarrow> prepared_result \<Rightarrow> share_row" where
  "published_share E x =
     \<lparr>sh_result_row_id = pv_row_id E, sh_token_digest = pp_token_digest x,
      sh_token_ciphertext = snd (pp_share x), sh_token_nonce = fst (pp_share x),
      sh_public_origin = pp_origin_url x, sh_created_at = pp_now x, sh_revoked_at = None\<rparr>"

definition retained_body_bytes :: "relay_db \<Rightarrow> i64" where
  "retained_body_bytes db =
     sum_list (map rs_body_bytes (filter (\<lambda>r. rs_body_purged_at r = None) (db_results db)))"

definition over_capacity :: "result_service \<Rightarrow> result_publication \<Rightarrow> relay_db \<Rightarrow> result_error + bool" where
  "over_capacity S p db =
     (if int (length (pb_body p)) > i64_max then Inl RValidation
      else if int (rc_max_retained_body_bytes (rv_config S)) > i64_max then Inl RValidation
      else Inr (i64_saturating_add (retained_body_bytes db) (int (length (pb_body p)))
                > int (rc_max_retained_body_bytes (rv_config S))))"

definition publish_notice ::
  "result_libs \<Rightarrow> publish_env \<Rightarrow> prepared_result \<Rightarrow> uuid_value \<Rightarrow> result_publication
   \<Rightarrow> result_error + link_notice" where
  "publish_notice L E x device p =
     (let notice = result_link_notice (pb_title p) (pp_origin_url x) (pp_token_text x)
      in and_then (map_err RUnavailable (encrypt (pp_cipher x) (pv_notice_nonce E) notice
              (notice_aad (uu_bytes device) (pb_result_id p) (pb_source_hash p) (pv_notification_id E))))
           (\<lambda>(nonce, ciphertext).
              Inr \<lparr>ln_outbox_id = pv_outbox_id E, ln_device_id = uu_text device,
                   ln_notification_id = pv_notification_id E,
                   ln_dedupe_key = ''result:'' @ pb_result_id p,
                   ln_payload_hash = hex_digest L notice, ln_target = pp_target x,
                   ln_title = pb_title p, ln_ciphertext = ciphertext, ln_nonce = nonce,
                   ln_result_row_id = pv_row_id E, ln_now = pp_now x,
                   ln_expires_at = pb_notification_expires_at p\<rparr>))"

definition published_receipt :: "publish_env \<Rightarrow> prepared_result \<Rightarrow> result_publication \<Rightarrow> result_receipt" where
  "published_receipt E x p =
     \<lparr>rr_schema_version = 1, rr_result_id = pb_result_id p, rr_source_hash = pb_source_hash p,
      rr_accepted_at = pp_now x, rr_updated_at = pp_now x, rr_page_state = PageAvailable,
      rr_page_expires_at = pp_expires x, rr_notification_id = pv_notification_id E,
      rr_notification_status = PendingChannel\<rparr>"

text \<open>The transaction: \<open>Inl None\<close> is the unique violation of the insert into \<open>results\<close>.\<close>

definition publish_transaction ::
  "result_libs \<Rightarrow> publish_env \<Rightarrow> result_service \<Rightarrow> prepared_result \<Rightarrow> uuid_value \<Rightarrow> result_publication
   \<Rightarrow> string \<Rightarrow> relay_db \<Rightarrow> result_error option + (relay_db \<times> result_receipt)" where
  "publish_transaction L E S x device p digest db =
     (case over_capacity S p db of
        Inl e \<Rightarrow> Inl (Some e)
      | Inr True \<Rightarrow> Inl (Some RCapacity)
      | Inr False \<Rightarrow>
          (case insert_result (published_row E x device p digest) db of
             Inl UniqueViolation \<Rightarrow> Inl None
           | Inl OtherViolation \<Rightarrow> Inl (Some RDatabase)
           | Inr db1 \<Rightarrow>
               and_then (ok_or (Some RDatabase) (insert_share (published_share E x) db1)) (\<lambda>db2.
               (case publish_notice L E x device p of
                  Inl e \<Rightarrow> Inl (Some e)
                | Inr l \<Rightarrow>
                    and_then (ok_or (Some RDatabase) (insert_outbox_abort (link_notice_row l) db2)) (\<lambda>db3.
                      Inr (db3, published_receipt E x p))))))"

definition publish_once ::
  "result_libs \<Rightarrow> publish_env \<Rightarrow> result_service \<Rightarrow> uuid_value \<Rightarrow> result_publication \<Rightarrow> string option
   \<Rightarrow> relay_db \<Rightarrow> (relay_db, result_error, result_receipt) effect" where
  "publish_once L E S device p target db =
     (let origin = ''device:'' @ uu_text device
      in case and_then (validate_publication L p 262144) (\<lambda>_.
              and_then (publication_digest L S p) (\<lambda>digest.
              and_then (existing_receipt origin (pb_result_id p) (pb_dedupe_key p) digest (pv_observed E) db)
                (\<lambda>ex. Inr (digest, ex)))) of
           Inl e \<Rightarrow> (db, Inl e)
         | Inr (digest, Some receipt) \<Rightarrow> (db, Inr receipt)
         | Inr (digest, None) \<Rightarrow>
             (case prepare_result L E S device p target of
                Inl e \<Rightarrow> (db, Inl e)
              | Inr x \<Rightarrow>
                  let db1 = pv_interleave E db
                  in (case publish_transaction L E S x device p digest db1 of
                        Inr (db2, receipt) \<Rightarrow> (db2, Inr receipt)
                      | Inl (Some e) \<Rightarrow> (db1, Inl e)
                      | Inl None \<Rightarrow>
                          (db1, and_then (existing_receipt origin (pb_result_id p) (pb_dedupe_key p) digest
                                   (pv_observed_again E) db1) (\<lambda>ex. ok_or RConflict ex)))))"

text \<open>Four attempts, each with its own readings; only a database error is retried.\<close>

fun publish_attempts ::
  "result_libs \<Rightarrow> (nat \<times> publish_env) list \<Rightarrow> result_service \<Rightarrow> uuid_value \<Rightarrow> result_publication
   \<Rightarrow> string option \<Rightarrow> relay_db \<Rightarrow> (relay_db, result_error, result_receipt) effect option" where
  "publish_attempts L [] S device p target db = None"
| "publish_attempts L ((attempt, E) # rest) S device p target db =
     (case publish_once L E S device p target db of
        (db', Inl RDatabase) \<Rightarrow>
          if attempt < 3 then publish_attempts L rest S device p target db'
          else Some (db', Inl RDatabase)
      | out \<Rightarrow> Some out)"

definition publish ::
  "result_libs \<Rightarrow> (nat \<Rightarrow> publish_env) \<Rightarrow> result_service \<Rightarrow> uuid_value \<Rightarrow> result_publication
   \<Rightarrow> string option \<Rightarrow> relay_db \<Rightarrow> (relay_db, result_error, result_receipt) effect option" where
  "publish L E = publish_attempts L (map (\<lambda>k. (k, E k)) [0, 1, 2, 3])"

section \<open>Owner and administrator actions\<close>

definition valid_request_id :: "string \<Rightarrow> bool" where
  "valid_request_id v \<longleftrightarrow> v \<noteq> [] \<and> length v \<le> 128 \<and> \<not> list_ex is_control (utf8_decode v)"

definition owned_result :: "string \<Rightarrow> string \<Rightarrow> result_row \<Rightarrow> bool" where
  "owned_result origin rid r \<longleftrightarrow> rs_origin_key r = origin \<and> rs_result_id r = rid"

record result_link =
  rl_url :: string
  rl_expires_at :: i64

definition result_link_of ::
  "result_service \<Rightarrow> nat option \<Rightarrow> uuid_value \<Rightarrow> string \<Rightarrow> relay_db \<Rightarrow> result_error + result_link" where
  "result_link_of S clock device rid db =
     (case find (\<lambda>(r, s). owned_result (''device:'' @ uu_text device) rid r \<and> sh_result_row_id s = rs_id r)
             (List.product (db_results db) (db_shares db)) of
        None \<Rightarrow> Inl RNotFound
      | Some (r, s) \<Rightarrow>
          if rs_revoked_at r \<noteq> None then Inl RInaccessible
          else
            and_then (result_now clock) (\<lambda>now.
            if now \<ge> rs_page_expires_at r then Inl RInaccessible
            else
            and_then (ok_or RUnavailable (rv_cipher S)) (\<lambda>ci.
            and_then (map_err RUnavailable (decrypt (ci_open ci) (sh_token_nonce s) (sh_token_ciphertext s)
              (result_aad (uu_bytes device) rid (rs_source_hash r) ''ResultShareToken''))) (\<lambda>token.
            if utf8_valid token
            then Inr \<lparr>rl_url = sh_public_origin s @ ''/r/'' @ token, rl_expires_at = rs_page_expires_at r\<rparr>
            else Inl RUnavailable))))"

text \<open>The revocation transaction and the receipt read after its commit.\<close>

definition revoke_result_row :: "i64 \<Rightarrow> result_row \<Rightarrow> result_row" where
  "revoke_result_row now r =
     r\<lparr>rs_revoked_at := Some now, rs_updated_at := max (rs_updated_at r + 1) now\<rparr>"

definition revoke_transaction :: "string \<Rightarrow> string \<Rightarrow> i64 \<Rightarrow> relay_db \<Rightarrow> result_error + (relay_db \<times> result_row)" where
  "revoke_transaction row_id req now db =
     (let db1 = db\<lparr>db_results := update_where (\<lambda>r. rs_id r = row_id \<and> rs_revoked_at r = None)
                    (revoke_result_row now) (db_results db)\<rparr>
      in and_then (ok_or RNotFound (find (\<lambda>r. rs_id r = row_id) (db_results db1))) (\<lambda>row.
         and_then (ok_or RDatabase (update_outbox (cancellable_notice row_id) (cancel_row now) db1)) (\<lambda>(db2, _).
         and_then (ok_or RDatabase (insert_action
             \<lparr>ac_result_row_id = row_id, ac_action_kind = ActionRevoke, ac_request_id = req,
              ac_notification_id = None, ac_created_at = now\<rparr> db2)) (\<lambda>db3. Inr (db3, row)))))"

definition admin_revoke ::
  "nat option \<Rightarrow> nat option \<Rightarrow> string \<Rightarrow> string \<Rightarrow> relay_db \<Rightarrow> (relay_db, result_error, result_receipt) effect" where
  "admin_revoke clock observed row_id req db =
     (if \<not> valid_request_id req then (db, Inl RValidation)
      else case result_now clock of
             Inl e \<Rightarrow> (db, Inl e)
           | Inr now \<Rightarrow>
               (case revoke_transaction row_id req now db of
                  Inl e \<Rightarrow> (db, Inl e)
                | Inr (db', row) \<Rightarrow>
                    (db', receipt_for (rs_origin_key row) (rs_result_id row) observed db')))"

definition revoke ::
  "nat option \<Rightarrow> nat option \<Rightarrow> uuid_value \<Rightarrow> string \<Rightarrow> string \<Rightarrow> relay_db
   \<Rightarrow> (relay_db, result_error, result_receipt) effect" where
  "revoke clock observed device rid req db =
     (case find (owned_result (''device:'' @ uu_text device) rid) (db_results db) of
        None \<Rightarrow> (db, Inl RNotFound)
      | Some r \<Rightarrow> admin_revoke clock observed (rs_id r) req db)"

text \<open>Resending: the clock, the fresh identifiers and the nonce of one request.\<close>

record resend_env =
  re_now :: "nat option"
  re_observed :: "nat option"
  re_notification_id :: string
  re_outbox_id :: string
  re_nonce :: "string option"

definition resend_action :: "string \<Rightarrow> string \<Rightarrow> action_row \<Rightarrow> bool" where
  "resend_action row_id req a \<longleftrightarrow>
     ac_result_row_id a = row_id \<and> ac_action_kind a = ActionResend \<and> ac_request_id a = req"

definition initial_notice :: "result_row \<Rightarrow> outbox_row \<Rightarrow> bool" where
  "initial_notice r q \<longleftrightarrow>
     ob_notification_id q = rs_initial_notification_id r \<and> ob_result_row_id q = Some (rs_id r)"

definition resend_notice ::
  "result_libs \<Rightarrow> resend_env \<Rightarrow> result_service \<Rightarrow> uuid_value \<Rightarrow> string \<Rightarrow> string \<Rightarrow> i64 \<Rightarrow> result_row
   \<Rightarrow> outbox_row \<Rightarrow> result_error + link_notice" where
  "resend_notice L E S device rid req now r q =
     and_then (ok_or RUnavailable (rv_cipher S)) (\<lambda>ci.
     and_then (ok_or RPanic (ob_protected_body_nonce q)) (\<lambda>nonce.
     and_then (ok_or RPanic (ob_protected_body_ciphertext q)) (\<lambda>ciphertext.
     and_then (map_err RUnavailable (decrypt (ci_open ci) nonce ciphertext
         (notice_aad (uu_bytes device) rid (rs_source_hash r) (ob_notification_id q)))) (\<lambda>prior.
     and_then (map_err RUnavailable (encrypt ci (re_nonce E) prior
         (notice_aad (uu_bytes device) rid (rs_source_hash r) (re_notification_id E)))) (\<lambda>(n, ct).
     and_then (ok_or RPanic (ob_target_account_fingerprint q)) (\<lambda>target.
       Inr \<lparr>ln_outbox_id = re_outbox_id E, ln_device_id = uu_text device,
            ln_notification_id = re_notification_id E,
            ln_dedupe_key = ''result-resend:'' @ rs_id r @ '':'' @ req,
            ln_payload_hash = hex_digest L prior, ln_target = target, ln_title = ob_title q,
            ln_ciphertext = ct, ln_nonce = n, ln_result_row_id = rs_id r, ln_now = now,
            ln_expires_at = rs_page_expires_at r\<rparr>))))))"

definition repoint_result :: "string \<Rightarrow> i64 \<Rightarrow> result_row \<Rightarrow> result_row" where
  "repoint_result nid now r =
     r\<lparr>rs_current_notification_id := nid, rs_notification_status := PendingChannel,
       rs_updated_at := (if rs_updated_at r \<ge> now then rs_updated_at r + 1 else now)\<rparr>"

definition resend_transaction ::
  "result_libs \<Rightarrow> resend_env \<Rightarrow> result_service \<Rightarrow> uuid_value \<Rightarrow> string \<Rightarrow> string \<Rightarrow> i64 \<Rightarrow> relay_db
   \<Rightarrow> result_error + relay_db" where
  "resend_transaction L E S device rid req now db =
     (let p = owned_result (''device:'' @ uu_text device) rid
      in if count_where p (db_results db) \<noteq> 1 then Inl RNotFound
         else
         and_then (ok_or RDatabase (find p (db_results db))) (\<lambda>r.
         (case find (resend_action (rs_id r) req) (db_actions db) of
            Some a \<Rightarrow> and_then (ok_or RDatabase (ac_notification_id a)) (\<lambda>_. Inr db)
          | None \<Rightarrow>
              if rs_revoked_at r \<noteq> None \<or> now \<ge> rs_page_expires_at r then Inl RInaccessible
              else
              and_then (ok_or RDatabase (find (initial_notice r) (db_outbox db))) (\<lambda>q.
              and_then (resend_notice L E S device rid req now r q) (\<lambda>l.
              and_then (ok_or RDatabase (insert_outbox_ignore (link_notice_row l) db)) (\<lambda>db1.
              and_then (ok_or RDatabase (insert_action
                  \<lparr>ac_result_row_id = rs_id r, ac_action_kind = ActionResend, ac_request_id = req,
                   ac_notification_id = Some (re_notification_id E), ac_created_at = now\<rparr> db1)) (\<lambda>db2.
              and_then (ok_or RDatabase (find (resend_action (rs_id r) req) (db_actions db2))) (\<lambda>a.
              and_then (ok_or RDatabase (ac_notification_id a)) (\<lambda>chosen.
                Inr (if chosen = re_notification_id E
                     then db2\<lparr>db_results := update_where (\<lambda>x. rs_id x = rs_id r)
                                (repoint_result (re_notification_id E) now) (db_results db2)\<rparr>
                     else db2)))))))))) "

definition resend ::
  "result_libs \<Rightarrow> resend_env \<Rightarrow> result_service \<Rightarrow> uuid_value \<Rightarrow> string \<Rightarrow> string \<Rightarrow> relay_db
   \<Rightarrow> (relay_db, result_error, result_receipt) effect" where
  "resend L E S device rid req db =
     (if \<not> valid_request_id req then (db, Inl RValidation)
      else case result_now (re_now E) of
             Inl e \<Rightarrow> (db, Inl e)
           | Inr now \<Rightarrow>
               (case resend_transaction L E S device rid req now db of
                  Inl e \<Rightarrow> (db, Inl e)
                | Inr db' \<Rightarrow> (db', receipt_for (''device:'' @ uu_text device) rid (re_observed E) db')))"

section \<open>The public page\<close>

record result_view =
  vm_title :: string
  vm_page_expires_at :: i64
  vm_completed_at :: "i64 option"
  vm_duration_ms :: "i64 option"
  vm_source_hash :: string

definition shared_result ::
  "string \<Rightarrow> relay_db \<Rightarrow> (share_row \<times> result_row \<times> device_row) option" where
  "shared_result digest db =
     find (\<lambda>(s, r, d). sh_token_digest s = digest \<and> sh_revoked_at s = None
             \<and> rs_id r = sh_result_row_id s \<and> dv_id d = rs_origin_device_id r)
       (List.product (db_shares db) (List.product (db_results db) (db_devices db)))"

definition public_body ::
  "result_libs \<Rightarrow> result_service \<Rightarrow> nat option \<Rightarrow> string \<Rightarrow> relay_db \<Rightarrow> result_error + (string \<times> result_view)"
where
  "public_body L S clock token db =
     and_then (decode_token L token) (\<lambda>decoded.
     (case shared_result (lb_sha256 L decoded) db of
        None \<Rightarrow> Inl RInaccessible
      | Some (s, r, d) \<Rightarrow>
          if \<not> dv_enabled d \<or> dv_revoked_at d \<noteq> None \<or> rs_revoked_at r \<noteq> None then Inl RInaccessible
          else
          and_then (result_now clock) (\<lambda>now.
          if now \<ge> rs_page_expires_at r then Inl RInaccessible
          else
          and_then (ok_or RDatabase (lb_parse_uuid L (rs_origin_device_id r))) (\<lambda>device.
          and_then (ok_or RUnavailable (rv_cipher S)) (\<lambda>ci.
          and_then (ok_or RInaccessible (rs_body_nonce r)) (\<lambda>nonce.
          and_then (ok_or RInaccessible (rs_body_ciphertext r)) (\<lambda>ciphertext.
          and_then (map_err RUnavailable (decrypt (ci_open ci) nonce ciphertext
             (result_aad device (rs_result_id r) (rs_source_hash r) ''ResultBody''))) (\<lambda>bytes.
          if hex_digest L bytes \<noteq> rs_source_hash r then Inl RInaccessible
          else if \<not> utf8_valid bytes then Inl RInaccessible
          else Inr (bytes,
            \<lparr>vm_title = rs_safe_title r, vm_page_expires_at = rs_page_expires_at r,
             vm_completed_at = rs_completed_at r, vm_duration_ms = rs_duration_ms r,
             vm_source_hash = rs_source_hash r\<rparr>))))))))) "

section \<open>Administrator listing\<close>

record admin_cursor =
  cu_accepted_at :: i64
  cu_result_row_id :: string

record admin_item =
  ai_result_row_id :: string
  ai_result_id :: string
  ai_owner_device_id :: string
  ai_safe_title :: string
  ai_source :: string
  ai_content_mode :: string
  ai_source_hash :: string
  ai_accepted_at :: i64
  ai_updated_at :: i64
  ai_page_expires_at :: i64
  ai_body_bytes :: i64
  ai_body_purged_at :: "i64 option"
  ai_revoked_at :: "i64 option"
  ai_notification_id :: string
  ai_notification_status :: delivery_status
  ai_notification_attempt_count :: i64
  ai_notification_last_error_code :: "string option"
  ai_target_account_fingerprint :: "string option"

definition result_admin_list_item :: "result_row \<times> outbox_row option \<Rightarrow> admin_item" where
  "result_admin_list_item rq =
     (let r = fst rq; q = snd rq in
      \<lparr>ai_result_row_id = rs_id r, ai_result_id = rs_result_id r,
       ai_owner_device_id = rs_origin_device_id r, ai_safe_title = rs_safe_title r,
       ai_source = rs_source r, ai_content_mode = rs_content_mode r, ai_source_hash = rs_source_hash r,
       ai_accepted_at = rs_accepted_at r, ai_updated_at = rs_updated_at r,
       ai_page_expires_at = rs_page_expires_at r, ai_body_bytes = rs_body_bytes r,
       ai_body_purged_at = rs_body_purged_at r, ai_revoked_at = rs_revoked_at r,
       ai_notification_id = rs_current_notification_id r, ai_notification_status = joined_status rq,
       ai_notification_attempt_count = (case q of Some x \<Rightarrow> ob_attempt_count x | None \<Rightarrow> 0),
       ai_notification_last_error_code = Option.bind q ob_last_error_code,
       ai_target_account_fingerprint = Option.bind q ob_target_account_fingerprint\<rparr>)"

definition page_state_filter :: "i64 \<Rightarrow> page_state option \<Rightarrow> result_row \<Rightarrow> bool" where
  "page_state_filter now st r =
     (case st of
        None \<Rightarrow> True
      | Some PageAvailable \<Rightarrow>
          rs_revoked_at r = None \<and> rs_body_purged_at r = None \<and> rs_page_expires_at r > now
      | Some PageRevoked \<Rightarrow> rs_revoked_at r \<noteq> None
      | Some PageExpired \<Rightarrow> rs_revoked_at r = None \<and> rs_page_expires_at r \<le> now
      | Some PageContentUnavailable \<Rightarrow>
          rs_revoked_at r = None \<and> rs_page_expires_at r > now \<and> rs_body_purged_at r \<noteq> None)"

definition before_cursor :: "admin_cursor option \<Rightarrow> result_row \<Rightarrow> bool" where
  "before_cursor after r =
     (case after of
        None \<Rightarrow> True
      | Some c \<Rightarrow>
          rs_accepted_at r < cu_accepted_at c
          \<or> (rs_accepted_at r = cu_accepted_at c \<and> rs_id r < cu_result_row_id c))"

definition listing_key :: "result_row \<times> outbox_row option \<Rightarrow> i64 \<times> string" where
  "listing_key rq = (rs_accepted_at (fst rq), rs_id (fst rq))"

text \<open>\<open>ORDER BY accepted_at DESC, id DESC\<close>.\<close>

definition admin_list_rows ::
  "i64 \<Rightarrow> admin_cursor option \<Rightarrow> page_state option \<Rightarrow> relay_db \<Rightarrow> (result_row \<times> outbox_row option) list" where
  "admin_list_rows now after st db =
     rev (sort_key listing_key
       (results_with_notice db (\<lambda>r. page_state_filter now st r \<and> before_cursor after r)))"

definition admin_list_page ::
  "nat \<Rightarrow> admin_cursor option \<Rightarrow> page_state option \<Rightarrow> nat option \<Rightarrow> relay_db
   \<Rightarrow> result_error + (admin_item list \<times> admin_cursor option)" where
  "admin_list_page limit after st clock db =
     (if limit = 0 \<or> limit > 100 then Inl RValidation
      else
        and_then (result_now clock) (\<lambda>now.
          let rows = take (limit + 1) (admin_list_rows now after st db);
              items = map result_admin_list_item (take limit rows)
          in Inr (items,
               if length rows > limit
               then Some \<lparr>cu_accepted_at = ai_accepted_at (last items),
                          cu_result_row_id = ai_result_row_id (last items)\<rparr>
               else None)))"

record admin_detail_item =
  ad_item :: admin_item
  ad_correlation_key :: string
  ad_result_revision :: string
  ad_started_at :: "i64 option"
  ad_completed_at :: "i64 option"
  ad_duration_ms :: "i64 option"

definition admin_detail :: "string \<Rightarrow> relay_db \<Rightarrow> result_error + admin_detail_item" where
  "admin_detail row_id db =
     (case results_with_notice db (\<lambda>r. rs_id r = row_id) of
        [] \<Rightarrow> Inl RNotFound
      | rq # _ \<Rightarrow>
          Inr \<lparr>ad_item = result_admin_list_item rq, ad_correlation_key = rs_correlation_key (fst rq),
               ad_result_revision = rs_result_revision (fst rq), ad_started_at = rs_started_at (fst rq),
               ad_completed_at = rs_completed_at (fst rq), ad_duration_ms = rs_duration_ms (fst rq)\<rparr>)"

end
