(* ===== verification/Result_Invariant.thy ===== *)
theory Result_Invariant
  imports Result_Service
begin

text \<open>
  The tables of the result service under every statement that reaches them: the keys stay unique, a
  stored result keeps its content and its revocation, and the transactions of the service are
  sequences of outbox statements.
\<close>

section \<open>The invariant of the result tables\<close>

text \<open>The link notices in the outbox, and what identifies one.\<close>

definition linked_notices :: "relay_db \<Rightarrow> outbox_row list" where
  "linked_notices db = filter (\<lambda>q. ob_result_row_id q \<noteq> None) (db_outbox db)"

definition notice_keys :: "outbox_row \<Rightarrow> string option \<times> string \<times> string" where
  "notice_keys q = (ob_result_row_id q, ob_origin_key q, ob_notification_id q)"

definition action_key :: "action_row \<Rightarrow> string \<times> action_kind \<times> string" where
  "action_key a = (ac_result_row_id a, ac_action_kind a, ac_request_id a)"

text \<open>Unique keys in the four tables; every link notice belongs to the owner of its result.\<close>

definition result_inv :: "relay_db \<Rightarrow> bool" where
  "result_inv db \<longleftrightarrow>
     distinct (map rs_id (db_results db))
     \<and> distinct (map (\<lambda>r. (rs_origin_key r, rs_result_id r)) (db_results db))
     \<and> distinct (map (\<lambda>r. (rs_origin_key r, rs_dedupe_key r)) (db_results db))
     \<and> distinct (map sh_result_row_id (db_shares db)) \<and> distinct (map sh_token_digest (db_shares db))
     \<and> distinct (map action_key (db_actions db))
     \<and> distinct (map (snd \<circ> notice_keys) (linked_notices db))
     \<and> list_all (\<lambda>q. list_ex (\<lambda>r. ob_result_row_id q = Some (rs_id r) \<and> ob_origin_key q = rs_origin_key r)
                       (db_results db)) (linked_notices db)"

text \<open>What no statement changes of a stored result, and a revocation, which stays.\<close>

definition result_kept :: "result_row \<Rightarrow> result_row \<Rightarrow> bool" where
  "result_kept r r' \<longleftrightarrow>
     rs_id r' = rs_id r \<and> rs_origin_device_id r' = rs_origin_device_id r
     \<and> rs_origin_key r' = rs_origin_key r \<and> rs_result_id r' = rs_result_id r
     \<and> rs_dedupe_key r' = rs_dedupe_key r \<and> rs_request_digest r' = rs_request_digest r
     \<and> rs_source_hash r' = rs_source_hash r \<and> rs_accepted_at r' = rs_accepted_at r
     \<and> rs_page_expires_at r' = rs_page_expires_at r \<and> rs_safe_title r' = rs_safe_title r
     \<and> rs_body_bytes r' = rs_body_bytes r \<and> rs_body_purged_at r' = rs_body_purged_at r
     \<and> rs_body_ciphertext r' = rs_body_ciphertext r \<and> rs_body_nonce r' = rs_body_nonce r
     \<and> rs_completed_at r' = rs_completed_at r \<and> rs_duration_ms r' = rs_duration_ms r
     \<and> (case rs_revoked_at r of None \<Rightarrow> True | Some t \<Rightarrow> rs_revoked_at r' = Some t)
     \<and> rs_updated_at r \<le> rs_updated_at r'"

definition results_kept :: "result_row list \<Rightarrow> result_row list \<Rightarrow> bool" where
  "results_kept t t' \<longleftrightarrow> (\<exists>u v. t' = u @ v \<and> list_all2 result_kept t u)"

definition result_keys :: "result_row \<Rightarrow> string \<times> (string \<times> string) \<times> (string \<times> string)" where
  "result_keys r = (rs_id r, (rs_origin_key r, rs_result_id r), (rs_origin_key r, rs_dedupe_key r))"

text \<open>
  The statements that reach the result tables: the three transactions of the service, an update of the
  outbox with its trigger, and statements on other tables or on notifications without a result.
\<close>

inductive result_step :: "result_libs \<Rightarrow> result_service \<Rightarrow> relay_db \<Rightarrow> relay_db \<Rightarrow> bool"
  for L :: result_libs and S :: result_service where
  published: "publish_transaction L E S x device p digest db = Inr (db', receipt) \<Longrightarrow> result_step L S db db'"
| resent: "resend_transaction L E S device rid req now db = Inr db' \<Longrightarrow> result_step L S db db'"
| revoked: "revoke_transaction row_id req now db = Inr (db', row) \<Longrightarrow> result_step L S db db'"
| outbox_statement:
    "frozen_columns f \<Longrightarrow> update_outbox p f db = Some (db', n) \<Longrightarrow> result_step L S db db'"
| other:
    "db_results db' = db_results db \<Longrightarrow> db_shares db' = db_shares db \<Longrightarrow> db_actions db' = db_actions db
     \<Longrightarrow> linked_notices db' = linked_notices db \<Longrightarrow> result_step L S db db'"

section \<open>Lemmas: what every statement keeps\<close>

lemma result_kept_refl [simp]: "result_kept r r"
  by (auto simp: result_kept_def split: option.splits)

lemma result_kept_trans: "result_kept r r' \<Longrightarrow> result_kept r' r'' \<Longrightarrow> result_kept r r''"
  by (auto simp: result_kept_def split: option.splits)

lemma list_all2_result_kept_refl: "list_all2 result_kept t t"
  by (simp add: list_all2_refl)

lemma results_kept_refl [simp]: "results_kept t t"
  unfolding results_kept_def using list_all2_result_kept_refl by (metis append_Nil2)

lemma results_kept_append: "results_kept t (t @ v)"
  unfolding results_kept_def using list_all2_result_kept_refl by blast

lemma results_kept_trans:
  assumes "results_kept t t'" "results_kept t' t''"
  shows "results_kept t t''"
proof -
  obtain u v where t': "t' = u @ v" "list_all2 result_kept t u" using assms(1) by (auto simp: results_kept_def)
  obtain w x where t'': "t'' = w @ x" "list_all2 result_kept (u @ v) w"
    using assms(2) t' by (auto simp: results_kept_def)
  then obtain w1 w2 where w: "w = w1 @ w2" "list_all2 result_kept u w1" by (auto simp: list_all2_append1)
  have "list_all2 result_kept t w1"
    using t'(2) w(2) result_kept_trans by (rule list_all2_trans [rotated])
  then show ?thesis unfolding results_kept_def t''(1) w(1) by auto
qed

lemma results_kept_update_where:
  assumes "\<And>r. r \<in> set t \<Longrightarrow> p r \<Longrightarrow> result_kept r (f r)"
  shows "results_kept t (update_where p f t)"
proof -
  have "list_all2 result_kept t (update_where p f t)"
    using assms by (auto simp: update_where_def list_all2_conv_all_nth)
  then show ?thesis unfolding results_kept_def by (metis append_Nil2)
qed

lemma results_kept_mem:
  assumes "results_kept t t'" "r \<in> set t"
  shows "\<exists>r' \<in> set t'. result_kept r r'"
proof -
  obtain u v where u: "t' = u @ v" "list_all2 result_kept t u" using assms(1) by (auto simp: results_kept_def)
  obtain i where "i < length t" "r = t ! i" using assms(2) by (auto simp: in_set_conv_nth)
  with u(2) have "result_kept r (u ! i)" "u ! i \<in> set u" by (auto simp: list_all2_conv_all_nth)
  then show ?thesis unfolding u(1) by auto
qed

lemma trigger_kept: "results_kept t (result_status_trigger q t)"
  unfolding result_status_trigger_def
  by (auto split: option.splits intro!: results_kept_update_where simp: result_kept_def)

lemma fold_trigger_kept: "results_kept t (fold result_status_trigger qs t)"
proof (induction qs arbitrary: t)
  case (Cons q qs)
  have "results_kept t (result_status_trigger q t)" by (rule trigger_kept)
  from results_kept_trans [OF this Cons.IH] show ?case by simp
qed simp

lemma result_inv_keys:
  "result_inv db \<longleftrightarrow>
     distinct (map fst (map result_keys (db_results db)))
     \<and> distinct (map (fst \<circ> snd) (map result_keys (db_results db)))
     \<and> distinct (map (snd \<circ> snd) (map result_keys (db_results db)))
     \<and> distinct (map sh_result_row_id (db_shares db)) \<and> distinct (map sh_token_digest (db_shares db))
     \<and> distinct (map action_key (db_actions db))
     \<and> distinct (map snd (map notice_keys (linked_notices db)))
     \<and> list_all (\<lambda>q. list_ex (\<lambda>r. fst q = Some (fst r) \<and> fst (snd q) = fst (fst (snd r)))
                       (map result_keys (db_results db))) (map notice_keys (linked_notices db))"
  by (simp add: result_inv_def result_keys_def notice_keys_def comp_def list_all_iff list_ex_iff)

lemma result_inv_cong:
  "map result_keys (db_results db') = map result_keys (db_results db) \<Longrightarrow> db_shares db' = db_shares db
   \<Longrightarrow> db_actions db' = db_actions db \<Longrightarrow> map notice_keys (linked_notices db') = map notice_keys (linked_notices db)
   \<Longrightarrow> result_inv db' = result_inv db"
  by (simp only: result_inv_keys)

lemma linked_notices_update_where:
  assumes "frozen_columns f"
  shows "map notice_keys (filter (\<lambda>q. ob_result_row_id q \<noteq> None) (update_where p f t))
         = map notice_keys (filter (\<lambda>q. ob_result_row_id q \<noteq> None) t)"
  using assms by (induction t) (auto simp: update_where_def frozen_columns_def notice_keys_def)

lemma keys_fold_trigger: "map result_keys (fold result_status_trigger qs t) = map result_keys t"
proof (induction qs arbitrary: t)
  case (Cons q qs)
  have "map result_keys (result_status_trigger q t) = map result_keys t"
    by (auto simp: result_status_trigger_def update_where_def result_keys_def split: option.splits)
  with Cons show ?case by simp
qed simp

lemma update_outbox_results:
  assumes "update_outbox p f db = Some (db', n)"
  shows "results_kept (db_results db) (db_results db')" "db_shares db' = db_shares db"
    "db_actions db' = db_actions db" "db_devices db' = db_devices db"
    "map result_keys (db_results db') = map result_keys (db_results db)"
  using assms fold_trigger_kept keys_fold_trigger by (auto simp: update_outbox_Some)

lemma update_outbox_inv:
  assumes "frozen_columns f" "update_outbox p f db = Some (db', n)"
  shows "result_inv db' = result_inv db"
proof (rule result_inv_cong)
  show "map notice_keys (linked_notices db') = map notice_keys (linked_notices db)"
    using assms(2) linked_notices_update_where [OF assms(1)]
    by (simp add: update_outbox_Some linked_notices_def)
qed (rule update_outbox_results [OF assms(2)])+

lemma cancel_row_frozen: "frozen_columns (cancel_row now)"
  by (simp add: frozen_columns_def cancel_row_def)

lemma insert_outbox_abort_results:
  assumes "insert_outbox_abort new db = Some db'"
  shows "db_results db' = db_results db" "db_shares db' = db_shares db" "db_actions db' = db_actions db"
    "db_outbox db' = db_outbox db @ [new]" "db_devices db' = db_devices db"
    "\<not> list_ex (outbox_collides new) (db_outbox db)"
  using assms by (auto simp: insert_outbox_abort_def insert_outbox_def split: option.splits if_splits)

text \<open>A link notice appended for a result of the same owner.\<close>

lemma link_notice_inv:
  assumes "result_inv db" "insert_outbox_abort (link_notice_row l) db = Some db'"
    and r: "r \<in> set (db_results db)" "ln_result_row_id l = rs_id r" "''device:'' @ ln_device_id l = rs_origin_key r"
  shows "result_inv db'"
proof -
  note t = insert_outbox_abort_results [OF assms(2)]
  have l: "linked_notices db' = linked_notices db @ [link_notice_row l]"
    using t(4) by (simp add: linked_notices_def link_notice_row_def)
  have fresh: "snd (notice_keys (link_notice_row l)) \<notin> (snd \<circ> notice_keys) ` set (linked_notices db)"
    using t(6) by (auto simp: notice_keys_def linked_notices_def list_ex_iff outbox_collides_def)
  have own: "ob_result_row_id (link_notice_row l) = Some (rs_id r)"
    "ob_origin_key (link_notice_row l) = rs_origin_key r"
    using r by (simp_all add: link_notice_row_def)
  have "list_ex (\<lambda>r. ob_result_row_id (link_notice_row l) = Some (rs_id r)
          \<and> ob_origin_key (link_notice_row l) = rs_origin_key r) (db_results db')"
    using r(1) own by (auto simp: list_ex_iff t(1))
  with assms(1) fresh show ?thesis
    unfolding result_inv_def t(1-3) l by simp
qed

lemma insert_outbox_ignore_results:
  assumes "insert_outbox_ignore new db = Some db'"
  shows "db_results db' = db_results db" "db_shares db' = db_shares db" "db_actions db' = db_actions db"
    "db' = db \<or> insert_outbox_abort new db = Some db'"
  using assms by (auto simp: insert_outbox_ignore_def insert_outbox_abort_results split: if_splits)

lemma insert_action_results:
  assumes "insert_action a db = Some db'"
  shows "db_results db' = db_results db" "db_shares db' = db_shares db" "db_outbox db' = db_outbox db"
    "db_devices db' = db_devices db" "set (db_actions db) \<subseteq> set (db_actions db')"
  using assms by (auto simp: insert_action_def split: if_splits)

lemma insert_action_inv: "insert_action a db = Some db' \<Longrightarrow> result_inv db \<Longrightarrow> result_inv db'"
  by (auto simp: insert_action_def result_inv_def linked_notices_def action_key_def list_ex_iff split: if_splits)
    metis

text \<open>The three tables a committed publication appends to.\<close>

lemma publish_transaction_Inr:
  assumes "publish_transaction L E S x device p digest db = Inr (db', receipt)"
  obtains db1 db2 l where
    "over_capacity S p db = Inr False"
    "insert_result (published_row E x device p digest) db = Inr db1"
    "insert_share (published_share E x) db1 = Some db2"
    "publish_notice L E x device p = Inr l"
    "insert_outbox_abort (link_notice_row l) db2 = Some db'" "receipt = published_receipt E x p"
proof -
  have cap: "over_capacity S p db = Inr False"
    using assms by (auto simp: publish_transaction_def split: sum.splits bool.splits)
  moreover obtain db1 where i: "insert_result (published_row E x device p digest) db = Inr db1"
    using assms cap by (auto simp: publish_transaction_def split: sum.splits insert_failure.splits)
  moreover obtain db2 where s: "insert_share (published_share E x) db1 = Some db2"
    using assms cap i by (auto simp: publish_transaction_def and_then_eq_Inr)
  moreover obtain l where n: "publish_notice L E x device p = Inr l"
    using assms cap i s by (auto simp: publish_transaction_def split: sum.splits)
  moreover have "insert_outbox_abort (link_notice_row l) db2 = Some db'" "receipt = published_receipt E x p"
    using assms cap i s n by (auto simp: publish_transaction_def and_then_eq_Inr)
  ultimately show ?thesis by (rule that)
qed

lemma publish_transaction_tables:
  assumes "publish_transaction L E S x device p digest db = Inr (db', receipt)"
  shows "db_results db' = db_results db @ [published_row E x device p digest]"
    "db_shares db' = db_shares db @ [published_share E x]" "db_devices db' = db_devices db"
    "\<not> list_ex (result_duplicates (published_row E x device p digest)) (db_results db)"
    "\<not> list_ex (\<lambda>s. sh_result_row_id s = pv_row_id E \<or> sh_token_digest s = pp_token_digest x) (db_shares db)"
    "device_exists db (Some (uu_text device))"
proof -
  from assms obtain db1 db2 l where
    i: "insert_result (published_row E x device p digest) db = Inr db1"
    and s: "insert_share (published_share E x) db1 = Some db2"
    and o': "insert_outbox_abort (link_notice_row l) db2 = Some db'"
    by (rule publish_transaction_Inr)
  have d1: "db1 = db\<lparr>db_results := db_results db @ [published_row E x device p digest]\<rparr>"
    and nd: "\<not> list_ex (result_duplicates (published_row E x device p digest)) (db_results db)"
    and dev: "device_exists db (Some (rs_origin_device_id (published_row E x device p digest)))"
    using i by (auto simp: insert_result_def split: if_splits)
  have d2: "db2 = db1\<lparr>db_shares := db_shares db1 @ [published_share E x]\<rparr>"
    and ns: "\<not> list_ex (\<lambda>s. sh_result_row_id s = sh_result_row_id (published_share E x)
        \<or> sh_token_digest s = sh_token_digest (published_share E x)) (db_shares db1)"
    using s by (auto simp: insert_share_def split: if_splits)
  show "db_results db' = db_results db @ [published_row E x device p digest]"
    "db_shares db' = db_shares db @ [published_share E x]" "db_devices db' = db_devices db"
    using insert_outbox_abort_results [OF o'] by (simp_all add: d1 d2)
  show "\<not> list_ex (result_duplicates (published_row E x device p digest)) (db_results db)" by (rule nd)
  show "\<not> list_ex (\<lambda>s. sh_result_row_id s = pv_row_id E \<or> sh_token_digest s = pp_token_digest x) (db_shares db)"
    using ns by (simp add: d1 published_share_def)
  show "device_exists db (Some (uu_text device))" using dev by (simp add: published_row_def)
qed

lemma publish_transaction_inv:
  assumes "publish_transaction L E S x device p digest db = Inr (db', receipt)" "result_inv db"
  shows "result_inv db'"
proof -
  note t = publish_transaction_tables [OF assms(1)]
  from assms(1) obtain db1 db2 l where
    i: "insert_result (published_row E x device p digest) db = Inr db1"
    and s: "insert_share (published_share E x) db1 = Some db2"
    and n: "publish_notice L E x device p = Inr l"
    and o': "insert_outbox_abort (link_notice_row l) db2 = Some db'"
    by (rule publish_transaction_Inr)
  have d: "db_results db2 = db_results db @ [published_row E x device p digest]"
    "db_shares db2 = db_shares db @ [published_share E x]"
    using t(1,2) insert_outbox_abort_results [OF o'] by simp_all
  have d': "linked_notices db2 = linked_notices db" "db_actions db2 = db_actions db"
    using i s by (auto simp: linked_notices_def insert_result_def insert_share_def split: if_splits)
  have "\<forall>r \<in> set (db_results db). \<not> result_duplicates (published_row E x device p digest) r"
    "\<forall>s \<in> set (db_shares db). sh_result_row_id s \<noteq> pv_row_id E \<and> sh_token_digest s \<noteq> pp_token_digest x"
    using t(4,5) by (auto simp: list_ex_iff)
  then have "result_inv db2" using assms(2)
    by (auto simp: result_inv_def d d' result_duplicates_def published_share_def list_all_iff)
  then show ?thesis
    by (rule link_notice_inv [OF _ o', of "published_row E x device p digest"])
      (use n in \<open>auto simp: d publish_notice_def Let_def and_then_eq_Inr published_row_def\<close>)
qed

lemma revoke_transaction_Inr:
  assumes "revoke_transaction row_id req now db = Inr (db', row)"
  obtains db1 db2 n where
    "db1 = db\<lparr>db_results := update_where (\<lambda>r. rs_id r = row_id \<and> rs_revoked_at r = None)
                    (revoke_result_row now) (db_results db)\<rparr>"
    "find (\<lambda>r. rs_id r = row_id) (db_results db1) = Some row"
    "update_outbox (cancellable_notice row_id) (cancel_row now) db1 = Some (db2, n)"
    "insert_action \<lparr>ac_result_row_id = row_id, ac_action_kind = ActionRevoke, ac_request_id = req,
              ac_notification_id = None, ac_created_at = now\<rparr> db2 = Some db'"
  using assms by (auto simp: revoke_transaction_def Let_def and_then_eq_Inr)

lemma revoke_update_kept:
  "results_kept (db_results db) (update_where (\<lambda>r. rs_id r = row_id \<and> rs_revoked_at r = None)
       (revoke_result_row now) (db_results db))"
  by (rule results_kept_update_where) (auto simp: result_kept_def revoke_result_row_def)

lemma revoke_transaction_kept:
  assumes "revoke_transaction row_id req now db = Inr (db', row)"
  shows "results_kept (db_results db) (db_results db')" "result_inv db \<Longrightarrow> result_inv db'"
proof -
  from assms obtain db1 db2 n where
    d1: "db1 = db\<lparr>db_results := update_where (\<lambda>r. rs_id r = row_id \<and> rs_revoked_at r = None)
                    (revoke_result_row now) (db_results db)\<rparr>"
    and u: "update_outbox (cancellable_notice row_id) (cancel_row now) db1 = Some (db2, n)"
    and a: "insert_action \<lparr>ac_result_row_id = row_id, ac_action_kind = ActionRevoke, ac_request_id = req,
              ac_notification_id = None, ac_created_at = now\<rparr> db2 = Some db'"
    by (rule revoke_transaction_Inr)
  have "results_kept (db_results db) (db_results db1)" unfolding d1 by (simp add: revoke_update_kept)
  then show "results_kept (db_results db) (db_results db')"
    using update_outbox_results(1) [OF u] insert_action_results(1) [OF a] results_kept_trans by simp
  have "result_inv db1 = result_inv db"
    by (rule result_inv_cong)
      (auto simp: d1 update_where_def result_keys_def revoke_result_row_def linked_notices_def)
  then show "result_inv db'" if "result_inv db"
    using update_outbox_inv [OF cancel_row_frozen u] insert_action_inv [OF a] that by simp
qed

lemma resend_transaction_cases:
  assumes "resend_transaction L E S device rid req now db = Inr db'"
  obtains (replay) r a nid where "r \<in> set (db_results db)" "owned_result (''device:'' @ uu_text device) rid r"
      "find (resend_action (rs_id r) req) (db_actions db) = Some a" "ac_notification_id a = Some nid" "db' = db"
  | (sent) r q l db1 db2 a chosen where "r \<in> set (db_results db)" "owned_result (''device:'' @ uu_text device) rid r"
      "find (resend_action (rs_id r) req) (db_actions db) = None"
      "rs_revoked_at r = None" "now < rs_page_expires_at r"
      "find (initial_notice r) (db_outbox db) = Some q"
      "resend_notice L E S device rid req now r q = Inr l"
      "insert_outbox_ignore (link_notice_row l) db = Some db1"
      "insert_action \<lparr>ac_result_row_id = rs_id r, ac_action_kind = ActionResend, ac_request_id = req,
          ac_notification_id = Some (re_notification_id E), ac_created_at = now\<rparr> db1 = Some db2"
      "find (resend_action (rs_id r) req) (db_actions db2) = Some a" "ac_notification_id a = Some chosen"
      "db' = (if chosen = re_notification_id E
              then db2\<lparr>db_results := update_where (\<lambda>x. rs_id x = rs_id r)
                         (repoint_result (re_notification_id E) now) (db_results db2)\<rparr>
              else db2)"
proof -
  let ?p = "owned_result (''device:'' @ uu_text device) rid"
  obtain r where r: "find ?p (db_results db) = Some r"
    using assms by (auto simp: resend_transaction_def Let_def and_then_eq_Inr split: if_splits)
  then have mem: "r \<in> set (db_results db)" "?p r" by (auto simp: find_Some_iff in_set_conv_nth)
  have body: "count_where ?p (db_results db) = 1"
    using assms by (auto simp: resend_transaction_def Let_def split: if_splits)
  show ?thesis
  proof (cases "find (resend_action (rs_id r) req) (db_actions db)")
    case (Some a)
    then show ?thesis using assms mem r body
      by (intro replay [of r a "the (ac_notification_id a)"])
        (auto simp: resend_transaction_def Let_def and_then_eq_Inr)
  next
    case None
    then show ?thesis using assms mem r body
      by (auto simp: resend_transaction_def Let_def and_then_eq_Inr split: if_splits
          intro!: sent [OF mem None])
  qed
qed

lemma repoint_kept: "result_kept r (repoint_result nid now r)"
  by (auto simp: result_kept_def repoint_result_def split: option.splits)

lemma resend_notice_owner:
  "resend_notice L E S device rid req now r q = Inr l
   \<Longrightarrow> ln_result_row_id l = rs_id r \<and> ln_device_id l = uu_text device"
  by (auto simp: resend_notice_def and_then_eq_Inr)

lemma resend_transaction_inv:
  assumes "resend_transaction L E S device rid req now db = Inr db'" "result_inv db"
  shows "result_inv db'"
  using assms(1)
proof (cases rule: resend_transaction_cases)
  case replay
  then show ?thesis using assms(2) by simp
next
  case (sent r q l db1 db2 a chosen)
  have "result_inv db1"
    using insert_outbox_ignore_results(4) [OF sent(8)]
  proof
    assume "insert_outbox_abort (link_notice_row l) db = Some db1"
    then show ?thesis
      by (rule link_notice_inv [OF assms(2) _ sent(1)])
        (use sent(2) resend_notice_owner [OF sent(7)] in \<open>simp_all add: owned_result_def\<close>)
  qed (simp add: assms(2))
  then have "result_inv db2" by (rule insert_action_inv [OF sent(9)])
  moreover have "result_inv db' = result_inv db2"
    using sent(12)
    by (intro result_inv_cong)
      (auto simp: update_where_def result_keys_def repoint_result_def linked_notices_def)
  ultimately show ?thesis by simp
qed

lemma resend_transaction_kept:
  assumes "resend_transaction L E S device rid req now db = Inr db'"
  shows "results_kept (db_results db) (db_results db')"
  using assms
proof (cases rule: resend_transaction_cases)
  case replay
  then show ?thesis by simp
next
  case (sent r q l db1 db2 a chosen)
  have same: "db_results db2 = db_results db"
    using insert_outbox_ignore_results [OF sent(8)] insert_action_results [OF sent(9)] by simp
  have "results_kept (db_results db2) (update_where (\<lambda>x. rs_id x = rs_id r)
      (repoint_result (re_notification_id E) now) (db_results db2))"
    by (rule results_kept_update_where) (rule repoint_kept)
  then show ?thesis using same sent(12) by (cases "chosen = re_notification_id E") simp_all
qed

lemma result_step_inv:
  assumes "result_step L S db db'" "result_inv db"
  shows "result_inv db'"
  using assms
proof (cases rule: result_step.cases)
  case (published E x device p digest receipt)
  then show ?thesis using assms(2) publish_transaction_inv by blast
next
  case (resent E device rid req now)
  then show ?thesis using assms(2) resend_transaction_inv by blast
next
  case (revoked row_id req now row)
  then show ?thesis using assms(2) revoke_transaction_kept(2) by blast
next
  case (outbox_statement f p n)
  then show ?thesis using assms(2) update_outbox_inv by blast
next
  case other
  then show ?thesis using assms(2) by (simp add: result_inv_def)
qed

lemma result_step_kept:
  assumes "result_step L S db db'"
  shows "results_kept (db_results db) (db_results db')"
  using assms
proof (cases rule: result_step.cases)
  case (published E x device p digest receipt)
  show ?thesis unfolding publish_transaction_tables(1) [OF published] by (rule results_kept_append)
next
  case (resent E device rid req now)
  then show ?thesis using resend_transaction_kept by blast
next
  case (revoked row_id req now row)
  then show ?thesis by (rule revoke_transaction_kept(1))
next
  case (outbox_statement f p n)
  then show ?thesis by (intro update_outbox_results(1))
next
  case other
  then show ?thesis by simp
qed

interpretation result_system: invariant_system "result_step L S" result_inv for L S
  by unfold_locales (rule result_step_inv)

lemma result_steps_kept: "(result_step L S)\<^sup>*\<^sup>* db db' \<Longrightarrow> results_kept (db_results db) (db_results db')"
  by (induction rule: rtranclp_induct) (auto intro: results_kept_trans dest: result_step_kept)

section \<open>Lemmas: transactions of the result service are statements of the outbox\<close>

lemma other_steps:
  "db_outbox db' = db_outbox (sv_db sv) \<Longrightarrow> (outbox_step b3 T)\<^sup>*\<^sup>* sv (sv\<lparr>sv_db := db'\<rparr>)"
  by (rule r_into_rtranclp) (rule outbox_step.other_tables)

lemma link_steps:
  "insert_outbox_abort (link_notice_row l) (sv_db sv) = Some db' \<Longrightarrow> (outbox_step b3 T)\<^sup>*\<^sup>* sv (sv\<lparr>sv_db := db'\<rparr>)"
  by (rule r_into_rtranclp) (rule outbox_step.link)

lemma cancel_steps:
  assumes "update_outbox (cancellable_notice rid) (cancel_row now) (sv_db sv) = Some (db', n)"
  shows "(outbox_step b3 T)\<^sup>*\<^sup>* sv (sv\<lparr>sv_db := db'\<rparr>)"
  using update_steps [OF outbox_update.cancel [of T "sv_db sv" rid now], of b3] assms
  by (simp add: execute_update_def)

lemma publish_transaction_steps:
  assumes "publish_transaction L E S x device p digest (sv_db sv) = Inr (db', receipt)"
  shows "(outbox_step b3 T)\<^sup>*\<^sup>* sv (sv\<lparr>sv_db := db'\<rparr>)"
proof -
  from assms obtain db1 db2 l where
    i: "insert_result (published_row E x device p digest) (sv_db sv) = Inr db1"
    and s: "insert_share (published_share E x) db1 = Some db2"
    and o': "insert_outbox_abort (link_notice_row l) db2 = Some db'"
    by (rule publish_transaction_Inr)
  have "db_outbox db2 = db_outbox (sv_db sv)"
    using i s by (auto simp: insert_result_def insert_share_def split: if_splits)
  then have "(outbox_step b3 T)\<^sup>*\<^sup>* sv (sv\<lparr>sv_db := db2\<rparr>)" by (rule other_steps)
  also have "(outbox_step b3 T)\<^sup>*\<^sup>* (sv\<lparr>sv_db := db2\<rparr>) (sv\<lparr>sv_db := db2\<rparr>\<lparr>sv_db := db'\<rparr>)"
    using o' by (intro link_steps [where l = l]) simp
  finally show ?thesis by simp
qed

lemma resend_transaction_steps:
  assumes "resend_transaction L E S device rid req now (sv_db sv) = Inr db'"
  shows "(outbox_step b3 T)\<^sup>*\<^sup>* sv (sv\<lparr>sv_db := db'\<rparr>)"
  using assms
proof (cases rule: resend_transaction_cases)
  case replay
  then show ?thesis by simp
next
  case (sent r q l db1 db2 a chosen)
  have "(outbox_step b3 T)\<^sup>*\<^sup>* sv (sv\<lparr>sv_db := db1\<rparr>)"
    using insert_outbox_ignore_results(4) [OF sent(8)] link_steps by auto
  also have "db_outbox db' = db_outbox (sv_db (sv\<lparr>sv_db := db1\<rparr>))"
    using insert_action_results(3) [OF sent(9)] sent(12) by simp
  then have "(outbox_step b3 T)\<^sup>*\<^sup>* (sv\<lparr>sv_db := db1\<rparr>) (sv\<lparr>sv_db := db1\<rparr>\<lparr>sv_db := db'\<rparr>)" by (rule other_steps)
  finally show ?thesis by simp
qed

lemma revoke_transaction_steps:
  assumes "revoke_transaction row_id req now (sv_db sv) = Inr (db', row)"
  shows "(outbox_step b3 T)\<^sup>*\<^sup>* sv (sv\<lparr>sv_db := db'\<rparr>)"
proof -
  from assms obtain db1 db2 n where
    d1: "db1 = (sv_db sv)\<lparr>db_results := update_where (\<lambda>r. rs_id r = row_id \<and> rs_revoked_at r = None)
                    (revoke_result_row now) (db_results (sv_db sv))\<rparr>"
    and u: "update_outbox (cancellable_notice row_id) (cancel_row now) db1 = Some (db2, n)"
    and a: "insert_action \<lparr>ac_result_row_id = row_id, ac_action_kind = ActionRevoke, ac_request_id = req,
              ac_notification_id = None, ac_created_at = now\<rparr> db2 = Some db'"
    by (rule revoke_transaction_Inr)
  have "(outbox_step b3 T)\<^sup>*\<^sup>* sv (sv\<lparr>sv_db := db1\<rparr>)" by (rule other_steps) (simp add: d1)
  also have "(outbox_step b3 T)\<^sup>*\<^sup>* (sv\<lparr>sv_db := db1\<rparr>) (sv\<lparr>sv_db := db2\<rparr>)"
    using cancel_steps [of row_id now "sv\<lparr>sv_db := db1\<rparr>" db2 n b3 T] u by simp
  also have "(outbox_step b3 T)\<^sup>*\<^sup>* (sv\<lparr>sv_db := db2\<rparr>) (sv\<lparr>sv_db := db2\<rparr>\<lparr>sv_db := db'\<rparr>)"
    by (rule other_steps) (simp add: insert_action_results(3) [OF a])
  finally show ?thesis by simp
qed

end
