(* ===== verification/Result_Correct.thy ===== *)
theory Result_Correct
  imports Result_Invariant
begin

text \<open>
  Correctness of the result service: what publishing, resending, revoking, listing and the public
  page promise together, over any sequence of transactions in between.
\<close>

section \<open>Publications and libraries\<close>

text \<open>No stored result of the device has the result id or the dedupe key of the publication.\<close>

definition unpublished :: "uuid_value \<Rightarrow> result_publication \<Rightarrow> relay_db \<Rightarrow> bool" where
  "unpublished device p db \<longleftrightarrow>
     \<not> list_ex (\<lambda>r. rs_origin_key r = ''device:'' @ uu_text device
                  \<and> (rs_result_id r = pb_result_id p \<or> rs_dedupe_key r = pb_dedupe_key p)) (db_results db)"

text \<open>What is used of the AEAD and of URL-safe base64 without padding.\<close>

definition aead_ok :: "cipher_lib \<Rightarrow> bool" where
  "aead_ok ci \<longleftrightarrow> (\<forall>n pt aad ct. ci_seal ci n pt aad = Some ct \<longrightarrow> ci_open ci n ct aad = Some pt)"

definition token_text_ok :: "result_libs \<Rightarrow> string \<Rightarrow> bool" where
  "token_text_ok L token \<longleftrightarrow>
     length token = 32 \<and> length (lb_b64_encode L token) = 43 \<and> utf8_valid (lb_b64_encode L token)
     \<and> lb_b64_decode L (lb_b64_encode L token) = Some token"

text \<open>The limit on the bytes of the bodies kept.\<close>

definition within_capacity :: "result_service \<Rightarrow> relay_db \<Rightarrow> bool" where
  "within_capacity S db \<longleftrightarrow>
     (int (rc_max_retained_body_bytes (rv_config S)) < i64_max
      \<longrightarrow> retained_body_bytes db \<le> int (rc_max_retained_body_bytes (rv_config S)))"

text \<open>A client that follows the cursors of the listing; the first argument bounds the pages read.\<close>

fun follow_pages ::
  "nat \<Rightarrow> nat \<Rightarrow> admin_cursor option \<Rightarrow> page_state option \<Rightarrow> nat option \<Rightarrow> relay_db \<Rightarrow> admin_item list option" where
  "follow_pages 0 limit after st clock db = None"
| "follow_pages (Suc n) limit after st clock db =
     (case admin_list_page limit after st clock db of
        Inl _ \<Rightarrow> None
      | Inr (items, None) \<Rightarrow> Some items
      | Inr (items, Some c) \<Rightarrow> map_option ((@) items) (follow_pages n limit (Some c) st clock db))"

section \<open>Demonstration data\<close>

definition sample_cipher :: cipher_lib where
  "sample_cipher = \<lparr>ci_open = (\<lambda>n c aad. Some c), ci_seal = (\<lambda>n p aad. Some p), ci_mac = (\<lambda>v. take 32 (rev v))\<rparr>"

definition sample_libs :: result_libs where
  "sample_libs =
     \<lparr>lb_sha256 = (\<lambda>v. take 32 (v @ replicate 32 (CHR ''0''))), lb_b64_encode = (\<lambda>v. v @ replicate 11 (CHR ''A'')),
      lb_b64_decode = (\<lambda>v. Some (take 32 v)), lb_to_json = (\<lambda>p. Some (pb_body p @ pb_title p)),
      lb_parse_url = (\<lambda>v. Some \<lparr>pu_scheme = ''https'', pu_host = Some v, pu_username = [], pu_password = None,
         pu_query = None, pu_fragment = None, pu_path = ''/'', pu_origin = ''https://'' @ v\<rparr>),
      lb_parse_uuid = Some\<rparr>"

definition sample_service :: result_service where
  "sample_service =
     \<lparr>rv_config = \<lparr>rc_enabled = True, rc_public_origin = Some ''r.example'', rc_share_ttl_days = 1,
        rc_max_body_bytes = 100, rc_max_retained_body_bytes = 1000\<rparr>, rv_cipher = Some sample_cipher\<rparr>"

definition sample_device :: uuid_value where "sample_device = \<lparr>uu_text = ''d1'', uu_bytes = ''d1''\<rparr>"

definition sample_body :: string where "sample_body = replicate 32 (CHR ''h'')"

definition sample_publication :: result_publication where
  "sample_publication =
     \<lparr>pb_schema_version = 1, pb_result_id = ''x'', pb_dedupe_key = ''k'', pb_kind = ''run_completed'',
      pb_content_mode = ''full_final'', pb_source = ''codex_stop'', pb_correlation_key = ''c'',
      pb_result_revision = ''1'', pb_title = ''t'', pb_body = sample_body,
      pb_source_hash = concat (replicate 32 ''68''), pb_created_at = 10,
      pb_notification_expires_at = 900, pb_started_at = None, pb_completed_at = None, pb_duration_ms = None\<rparr>"

definition sample_token :: string where "sample_token = replicate 32 (CHR ''T'')"

definition sample_env :: publish_env where
  "sample_env =
     \<lparr>pv_observed = Some 20, pv_now = Some 20, pv_observed_again = Some 20, pv_row_id = ''row'',
      pv_notification_id = ''note'', pv_outbox_id = ''out'', pv_token = Some sample_token,
      pv_body_nonce = Some (replicate 24 (CHR ''n'')), pv_token_nonce = Some (replicate 24 (CHR ''m'')),
      pv_notice_nonce = Some (replicate 24 (CHR ''o'')), pv_interleave = (\<lambda>db. db)\<rparr>"

definition sample_db :: relay_db where
  "sample_db = demo_db\<lparr>db_outbox := []\<rparr>"

definition sample_target :: string where "sample_target = ''wx:'' @ replicate 64 (CHR ''a'')"

definition sample_digest :: string where "sample_digest = CHR ''t'' # replicate 31 (CHR ''h'')"

definition sample_text :: string where "sample_text = sample_token @ replicate 11 (CHR ''A'')"

definition sample_prepared :: prepared_result where
  "sample_prepared =
     \<lparr>pp_cipher = sample_cipher, pp_target = sample_target, pp_now = 20, pp_expires = 86400020,
      pp_token_text = sample_text, pp_token_digest = sample_token,
      pp_body = (replicate 24 (CHR ''n''), sample_body), pp_share = (replicate 24 (CHR ''m''), sample_text),
      pp_origin_url = ''https://r.example''\<rparr>"

definition sample_row :: result_row where
  "sample_row = published_row sample_env sample_prepared sample_device sample_publication sample_digest"

definition sample_share :: share_row where
  "sample_share = published_share sample_env sample_prepared"

definition sample_notice :: link_notice where
  "sample_notice = (let notice = result_link_notice ''t'' ''https://r.example'' sample_text in
     \<lparr>ln_outbox_id = ''out'', ln_device_id = ''d1'', ln_notification_id = ''note'', ln_dedupe_key = ''result:x'',
      ln_payload_hash = hex_digest sample_libs notice, ln_target = sample_target, ln_title = ''t'', ln_ciphertext = notice,
      ln_nonce = replicate 24 (CHR ''o''), ln_result_row_id = ''row'', ln_now = 20, ln_expires_at = 900\<rparr>)"

definition sample_published :: relay_db where
  "sample_published = sample_db\<lparr>db_outbox := [link_notice_row sample_notice], db_results := [sample_row],
     db_shares := [sample_share]\<rparr>"

definition sample_receipt :: result_receipt where
  "sample_receipt = published_receipt sample_env sample_prepared sample_publication"

definition sample_taken :: relay_db where
  "sample_taken = sample_db\<lparr>db_outbox := [demo_row\<lparr>ob_dedupe_key := ''result:x''\<rparr>]\<rparr>"

definition sample_resend :: resend_env where
  "sample_resend = \<lparr>re_now = Some 30, re_observed = Some 30, re_notification_id = ''note2'', re_outbox_id = ''out2'',
     re_nonce = Some (replicate 24 (CHR ''p''))\<rparr>"

section \<open>Lemmas: rows of the tables\<close>

lemma results_kept_unique:
  assumes "results_kept t t'" "distinct (map rs_id t')" "r \<in> set t" "r' \<in> set t'" "rs_id r' = rs_id r"
  shows "result_kept r r'"
proof -
  obtain k where k: "k \<in> set t'" "result_kept r k" using results_kept_mem [OF assms(1,3)] by blast
  then have "rs_id k = rs_id r'" using assms(5) by (simp add: result_kept_def)
  then have "k = r'" using assms(2,4) k(1) by (auto simp: distinct_map inj_on_def)
  with k(2) show ?thesis by simp
qed

lemma shared_result_Some:
  assumes "shared_result digest db = Some (s, r, d)"
  shows "s \<in> set (db_shares db)" "r \<in> set (db_results db)" "d \<in> set (db_devices db)"
    "sh_token_digest s = digest" "sh_revoked_at s = None" "rs_id r = sh_result_row_id s"
    "dv_id d = rs_origin_device_id r"
  using find_SomeD [OF assms [unfolded shared_result_def]] by simp_all

lemma shared_result_ex:
  assumes "s \<in> set (db_shares db)" "r \<in> set (db_results db)" "d \<in> set (db_devices db)"
    "sh_token_digest s = digest" "sh_revoked_at s = None" "rs_id r = sh_result_row_id s"
    "dv_id d = rs_origin_device_id r"
  shows "\<exists>x. shared_result digest db = Some x"
  unfolding shared_result_def using assms by (intro find_ex [of "(s, r, d)"]) simp_all

lemma result_inv_share:
  assumes "result_inv db" "s \<in> set (db_shares db)" "s' \<in> set (db_shares db)"
    "sh_token_digest s = sh_token_digest s' \<or> sh_result_row_id s = sh_result_row_id s'"
  shows "s = s'"
  using assms unfolding result_inv_def distinct_map by (elim disjE) (blast dest: inj_onD)+

lemma result_inv_row:
  assumes "result_inv db" "r \<in> set (db_results db)" "r' \<in> set (db_results db)"
    "rs_id r = rs_id r' \<or> (rs_origin_key r = rs_origin_key r' \<and> (rs_result_id r = rs_result_id r' \<or> rs_dedupe_key r = rs_dedupe_key r'))"
  shows "r = r'"
proof -
  let ?t = "set (db_results db)"
  have inj: "inj_on rs_id ?t" "inj_on (\<lambda>r. (rs_origin_key r, rs_result_id r)) ?t"
    "inj_on (\<lambda>r. (rs_origin_key r, rs_dedupe_key r)) ?t"
    using assms(1) by (simp_all add: result_inv_def distinct_map)
  show ?thesis
    using assms(4) inj_onD [OF inj(1) _ assms(2,3)] inj_onD [OF inj(2) _ assms(2,3)]
      inj_onD [OF inj(3) _ assms(2,3)] by auto
qed

lemma result_inv_action:
  "result_inv db \<Longrightarrow> a \<in> set (db_actions db) \<Longrightarrow> b \<in> set (db_actions db) \<Longrightarrow> action_key a = action_key b \<Longrightarrow> a = b"
  unfolding result_inv_def distinct_map by (blast dest: inj_onD)

lemma admin_revoke_Inr:
  assumes "admin_revoke clock observed row_id req db = (db1, Inr receipt)"
  obtains now row where "result_now clock = Inr now" "revoke_transaction row_id req now db = Inr (db1, row)"
    "valid_request_id req" "receipt_for (rs_origin_key row) (rs_result_id row) observed db1 = Inr receipt"
  using assms by (auto simp: admin_revoke_def split: if_splits sum.splits prod.splits)

lemma revoke_transaction_revokes:
  assumes "revoke_transaction row_id req now db = Inr (db1, row)" "result_inv db"
  obtains r where "r \<in> set (db_results db1)" "rs_id r = row_id" "rs_revoked_at r \<noteq> None"
proof -
  from assms(1) obtain db' db2 n where
    d1: "db' = db\<lparr>db_results := update_where (\<lambda>r. rs_id r = row_id \<and> rs_revoked_at r = None)
                    (revoke_result_row now) (db_results db)\<rparr>"
    and f: "find (\<lambda>r. rs_id r = row_id) (db_results db') = Some row"
    and u: "update_outbox (cancellable_notice row_id) (cancel_row now) db' = Some (db2, n)"
    and a: "insert_action \<lparr>ac_result_row_id = row_id, ac_action_kind = ActionRevoke, ac_request_id = req,
              ac_notification_id = None, ac_created_at = now\<rparr> db2 = Some db1"
    by (rule revoke_transaction_Inr)
  have row: "row \<in> set (db_results db')" "rs_id row = row_id"
    using find_SomeD [OF f] by simp_all
  have "rs_revoked_at row \<noteq> None"
  proof -
    have "row \<in> set (update_where (\<lambda>r. rs_id r = row_id \<and> rs_revoked_at r = None) (revoke_result_row now)
        (db_results db))" using row(1) by (simp add: d1)
    then show ?thesis by (rule update_where_mem) (use row(2) in \<open>auto simp: revoke_result_row_def\<close>)
  qed
  moreover obtain k where k: "k \<in> set (db_results db2)" "result_kept row k"
    using results_kept_mem [OF update_outbox_results(1) [OF u] row(1)] by blast
  ultimately have "rs_id k = row_id" "rs_revoked_at k \<noteq> None"
    using row(2) by (auto simp: result_kept_def)
  then show ?thesis using k(1) insert_action_results(1) [OF a] by (intro that [of k]) simp_all
qed

text \<open>
  C4: A revoked result is never served again: after a revocation that returned a receipt, and
  after any later transactions and outbox statements, the page of its share link answers as
  inaccessible.
\<close>

theorem revoked_result_never_served:
  assumes "result_inv db" "admin_revoke clock observed row_id req db = (db1, Inr receipt)"
    "(result_step L S)\<^sup>*\<^sup>* db1 db2" "s \<in> set (db_shares db2)" "sh_result_row_id s = row_id"
    "decode_token L token = Inr t" "lb_sha256 L t = sh_token_digest s"
  shows "public_body L S at token db2 = Inl RInaccessible"
proof -
  obtain now row where rev: "revoke_transaction row_id req now db = Inr (db1, row)"
    using assms(2) by (rule admin_revoke_Inr)
  obtain r1 where r1: "r1 \<in> set (db_results db1)" "rs_id r1 = row_id" "rs_revoked_at r1 \<noteq> None"
    using rev assms(1) by (rule revoke_transaction_revokes)
  have i1: "result_inv db1" using revoke_transaction_kept(2) [OF rev] assms(1) by simp
  have i2: "result_inv db2" by (rule result_system.steps_inv [OF assms(3) i1])
  have gone: "rs_revoked_at r \<noteq> None" if "shared_result (sh_token_digest s) db2 = Some (s', r, d)" for s' r d
  proof -
    note f = shared_result_Some [OF that]
    have "s' = s" using result_inv_share [OF i2 f(1) assms(4)] f(4) by simp
    then have "rs_id r = rs_id r1" using f(6) assms(5) r1(2) by simp
    then have "result_kept r1 r"
      using results_kept_unique [OF result_steps_kept [OF assms(3)] _ r1(1) f(2)] i2 by (simp add: result_inv_def)
    then show ?thesis using r1(3) by (auto simp: result_kept_def)
  qed
  show ?thesis
  proof (cases "shared_result (sh_token_digest s) db2")
    case None
    then show ?thesis by (simp add: public_body_def assms(6,7))
  next
    case (Some x)
    then obtain s' r d where x: "shared_result (sh_token_digest s) db2 = Some (s', r, d)"
      by (cases x) auto
    then show ?thesis using gone [OF x] by (simp add: public_body_def assms(6,7))
  qed
qed

lemma join_notice_single:
  assumes "result_inv db" "r \<in> set (db_results db)"
  shows "\<exists>q. join_notice db r = [(r, q)]"
proof (cases "filter (current_notice r) (db_outbox db)")
  case Nil
  then show ?thesis by (simp add: join_notice_def)
next
  case (Cons q qs)
  have key: "snd (notice_keys x) = (rs_origin_key r, rs_current_notification_id r)"
    if "x \<in> set (linked_notices db)" "current_notice r x" for x
  proof -
    have "\<exists>r' \<in> set (db_results db). ob_result_row_id x = Some (rs_id r') \<and> ob_origin_key x = rs_origin_key r'"
      using assms(1) that(1) by (simp add: result_inv_def list_all_iff list_ex_iff)
    then obtain r' where r': "r' \<in> set (db_results db)" "ob_result_row_id x = Some (rs_id r')"
      "ob_origin_key x = rs_origin_key r'" by blast
    then have "r' = r" using that(2) result_inv_row [OF assms(1) r'(1) assms(2)] by (simp add: current_notice_def)
    then show ?thesis using that(2) r'(3) by (simp add: notice_keys_def current_notice_def)
  qed
  have same: "filter (current_notice r) (db_outbox db) = filter (current_notice r) (linked_notices db)"
    by (auto simp: linked_notices_def current_notice_def intro!: filter_cong)
  then have f: "filter (current_notice r) (linked_notices db) = q # qs" using Cons by simp
  have "distinct (map (snd \<circ> notice_keys) (filter (current_notice r) (linked_notices db)))"
    using assms(1) by (intro distinct_map_filter) (simp add: result_inv_def)
  moreover have "\<forall>x \<in> set (q # qs). (snd \<circ> notice_keys) x = (rs_origin_key r, rs_current_notification_id r)"
    unfolding f [symmetric] using key by simp
  ultimately have "qs = []" unfolding f by (cases qs) simp_all
  then show ?thesis using Cons by (simp add: join_notice_def)
qed

lemma results_with_notice_rows:
  assumes "result_inv db"
  shows "map fst (results_with_notice db p) = filter p (db_results db)"
proof -
  have "map fst (concat (map (join_notice db) t)) = t" if "set t \<subseteq> set (db_results db)" for t
    using that
  proof (induction t)
    case (Cons r t)
    then obtain q where "join_notice db r = [(r, q)]" using join_notice_single [OF assms, of r] by auto
    with Cons show ?case by simp
  qed simp
  then show ?thesis by (auto simp: results_with_notice_def)
qed

lemma results_with_notice_unique:
  assumes "result_inv db" "r \<in> set (db_results db)" "p r"
    and "\<And>r'. r' \<in> set (db_results db) \<Longrightarrow> p r' \<Longrightarrow> r' = r"
  shows "\<exists>q. results_with_notice db p = [(r, q)]"
proof -
  have "distinct (db_results db)" using assms(1) by (simp add: result_inv_def distinct_map)
  then have "filter p (db_results db) = [r]" using assms(2-4) by (rule filter_unique)
  then show ?thesis using results_with_notice_rows [OF assms(1), of p] by (auto simp: map_eq_Cons_conv)
qed

lemma unpublished_existing:
  assumes "unpublished device p db"
  shows "existing_receipt (''device:'' @ uu_text device) (pb_result_id p) (pb_dedupe_key p) digest clock db = Inr None"
proof -
  have "filter (\<lambda>r. rs_origin_key r = ''device:'' @ uu_text device
      \<and> (rs_result_id r = pb_result_id p \<or> rs_dedupe_key r = pb_dedupe_key p)) (db_results db) = []"
    using assms unfolding unpublished_def list_ex_iff filter_empty_conv by blast
  then show ?thesis unfolding existing_receipt_def results_with_notice_def by (simp only: list.map concat.simps list.case)
qed

lemma publish_once_new:
  assumes "publish_once L E S device p target db = (db1, Inr receipt)"
    "unpublished device p db" "unpublished device p (pv_interleave E db)"
  obtains digest x where "validate_publication L p 262144 = Inr ()" "publication_digest L S p = Inr digest"
    "prepare_result L E S device p target = Inr x"
    "publish_transaction L E S x device p digest (pv_interleave E db) = Inr (db1, receipt)"
proof -
  note old = unpublished_existing [OF assms(2)] unpublished_existing [OF assms(3)]
  obtain v where v: "validate_publication L p 262144 = Inr v"
    using assms(1) by (cases "validate_publication L p 262144") (simp_all add: publish_once_def)
  obtain digest where d: "publication_digest L S p = Inr digest"
    using assms(1) v by (cases "publication_digest L S p") (simp_all add: publish_once_def)
  obtain x where x: "prepare_result L E S device p target = Inr x"
    using assms(1) v d old by (cases "prepare_result L E S device p target") (simp_all add: publish_once_def)
  have "publish_transaction L E S x device p digest (pv_interleave E db) = Inr (db1, receipt)"
    using assms(1) v d x old
    by (auto simp: publish_once_def Let_def split: sum.splits option.splits prod.splits)
  then show ?thesis using v d x by (intro that) simp_all
qed

lemma prepare_result_Inr:
  assumes "prepare_result L E S device p target = Inr x"
  obtains token where "rv_cipher S = Some (pp_cipher x)" "pv_token E = Some token"
    "pp_token_text x = lb_b64_encode L token" "pp_token_digest x = lb_sha256 L token"
    "encrypt (pp_cipher x) (pv_body_nonce E) (pb_body p)
       (result_aad (uu_bytes device) (pb_result_id p) (pb_source_hash p) ''ResultBody'') = Inr (pp_body x)"
    "encrypt (pp_cipher x) (pv_token_nonce E) (lb_b64_encode L token)
       (result_aad (uu_bytes device) (pb_result_id p) (pb_source_hash p) ''ResultShareToken'') = Inr (pp_share x)"
    "normalized_public_origin L (rv_config S) = Some (pp_origin_url x)" "result_now (pv_now E) = Inr (pp_now x)"
  using assms by (auto simp: prepare_result_def and_then_eq_Inr split: if_splits)

lemma encrypt_decrypt:
  assumes "aead_ok ci" "encrypt ci n pt aad = Inr nc" "length (fst nc) = 24"
  shows "decrypt (ci_open ci) (fst nc) (snd nc) aad = Inr pt"
  using assms by (auto simp: aead_ok_def encrypt_def decrypt_def and_then_eq_Inr nonce_bytes_def)

lemma publish_transaction_nonces:
  assumes "publish_transaction L E S x device p digest db = Inr (db', receipt)"
  shows "length (fst (pp_body x)) = 24" "length (fst (pp_share x)) = 24"
proof -
  from assms obtain db1 db2 where
    i: "insert_result (published_row E x device p digest) db = Inr db1"
    and s: "insert_share (published_share E x) db1 = Some db2"
    by (rule publish_transaction_Inr)
  show "length (fst (pp_body x)) = 24"
    using i by (simp add: insert_result_def result_checks_def published_row_def split: if_splits)
  show "length (fst (pp_share x)) = 24"
    using s by (simp add: insert_share_def published_share_def split: if_splits)
qed

lemma publish_transaction_actions:
  assumes "publish_transaction L E S x device p digest db = Inr (db', receipt)"
  shows "db_actions db' = db_actions db"
proof -
  from assms obtain db1 db2 l where
    i: "insert_result (published_row E x device p digest) db = Inr db1"
    and s: "insert_share (published_share E x) db1 = Some db2"
    and o': "insert_outbox_abort (link_notice_row l) db2 = Some db'"
    by (rule publish_transaction_Inr)
  show ?thesis
    using i s insert_outbox_abort_results(3) [OF o']
    by (auto simp: insert_result_def insert_share_def split: if_splits)
qed

lemma revoke_transaction_tables:
  assumes "revoke_transaction row_id req now db = Inr (db', row)"
  shows "db_shares db' = db_shares db" "set (db_actions db) \<subseteq> set (db_actions db')"
proof -
  from assms obtain db1 db2 n where
    d1: "db1 = db\<lparr>db_results := update_where (\<lambda>r. rs_id r = row_id \<and> rs_revoked_at r = None)
                    (revoke_result_row now) (db_results db)\<rparr>"
    and u: "update_outbox (cancellable_notice row_id) (cancel_row now) db1 = Some (db2, n)"
    and a: "insert_action \<lparr>ac_result_row_id = row_id, ac_action_kind = ActionRevoke, ac_request_id = req,
              ac_notification_id = None, ac_created_at = now\<rparr> db2 = Some db'"
    by (rule revoke_transaction_Inr)
  show "db_shares db' = db_shares db" "set (db_actions db) \<subseteq> set (db_actions db')"
    using update_outbox_results(2,3) [OF u] insert_action_results(2,5) [OF a] by (simp_all add: d1)
qed

lemma resend_transaction_tables:
  assumes "resend_transaction L E S device rid req now db = Inr db'"
  shows "db_shares db' = db_shares db \<and> set (db_actions db) \<subseteq> set (db_actions db')"
  using assms
proof (cases rule: resend_transaction_cases)
  case replay
  then show ?thesis by simp
next
  case (sent r q l db1 db2 a chosen)
  then show ?thesis
    using insert_outbox_ignore_results(2,3) [OF sent(8)] insert_action_results(2,5) [OF sent(9)]
    by (cases "chosen = re_notification_id E") simp_all
qed

lemma result_step_tables:
  assumes "result_step L S db db'"
  shows "set (db_shares db) \<subseteq> set (db_shares db') \<and> set (db_actions db) \<subseteq> set (db_actions db')"
  using assms
proof (cases rule: result_step.cases)
  case (published E x device p digest receipt)
  then show ?thesis using publish_transaction_tables(2) publish_transaction_actions by fastforce
next
  case (resent E device rid req now)
  then show ?thesis using resend_transaction_tables by fastforce
next
  case (revoked row_id req now row)
  then show ?thesis using revoke_transaction_tables by fastforce
next
  case (outbox_statement f p n)
  then show ?thesis using update_outbox_results(2,3) by fastforce
next
  case other
  then show ?thesis by simp
qed

lemma result_steps_tables:
  "(result_step L S)\<^sup>*\<^sup>* db db' \<Longrightarrow>
     set (db_shares db) \<subseteq> set (db_shares db') \<and> set (db_actions db) \<subseteq> set (db_actions db')"
  by (induction rule: rtranclp_induct) (auto dest!: result_step_tables)

text \<open>What a publication leaves behind, at the time and after any later transactions.\<close>

lemma published_later:
  assumes "publish_transaction L E S x device p digest db = Inr (db1, receipt)" "result_inv db"
    "(result_step L S)\<^sup>*\<^sup>* db1 db2"
  obtains r where "result_inv db2" "r \<in> set (db_results db2)"
    "result_kept (published_row E x device p digest) r" "published_share E x \<in> set (db_shares db2)"
proof -
  have i1: "result_inv db1" by (rule publish_transaction_inv [OF assms(1,2)])
  have i2: "result_inv db2" by (rule result_system.steps_inv [OF assms(3) i1])
  note t = publish_transaction_tables [OF assms(1)]
  have "published_row E x device p digest \<in> set (db_results db1)" by (simp add: t(1))
  then obtain r where "r \<in> set (db_results db2)" "result_kept (published_row E x device p digest) r"
    using results_kept_mem [OF result_steps_kept [OF assms(3)]] by blast
  moreover have "published_share E x \<in> set (db_shares db2)"
    using result_steps_tables [OF assms(3)] by (auto simp: t(2))
  ultimately show ?thesis using i2 by (intro that)
qed

lemma result_link_of_row:
  assumes "result_inv db" "r \<in> set (db_results db)" "s \<in> set (db_shares db)"
    "owned_result (''device:'' @ uu_text device) rid r" "sh_result_row_id s = rs_id r"
  shows "find (\<lambda>(r, s). owned_result (''device:'' @ uu_text device) rid r \<and> sh_result_row_id s = rs_id r)
             (List.product (db_results db) (db_shares db)) = Some (r, s)"
proof -
  obtain y where y: "find (\<lambda>(r, s). owned_result (''device:'' @ uu_text device) rid r \<and> sh_result_row_id s = rs_id r)
             (List.product (db_results db) (db_shares db)) = Some y"
    using find_ex [of "(r, s)"] assms(2-5) by fastforce
  obtain r' s' where [simp]: "y = (r', s')" by (cases y)
  have y': "r' \<in> set (db_results db)" "s' \<in> set (db_shares db)"
    "owned_result (''device:'' @ uu_text device) rid r'" "sh_result_row_id s' = rs_id r'"
    using find_SomeD [OF y] by simp_all
  have "r' = r" using result_inv_row [OF assms(1) y'(1) assms(2)] assms(4) y'(3) by (simp add: owned_result_def)
  moreover have "s' = s"
    using result_inv_share [OF assms(1) y'(2) assms(3)] assms(5) y'(4) \<open>r' = r\<close> by simp
  ultimately show ?thesis using y by simp
qed

lemma page_of_share:
  assumes inv: "result_inv db" "s \<in> set (db_shares db)" "r \<in> set (db_results db)" "sh_result_row_id s = rs_id r"
    and live: "sh_revoked_at s = None" "rs_revoked_at r = None" "result_now clock = Inr now" "now < rs_page_expires_at r"
    and dev: "device_exists db (Some (rs_origin_device_id r))"
      "list_all (\<lambda>d. dv_id d = rs_origin_device_id r \<longrightarrow> dv_enabled d \<and> dv_revoked_at d = None) (db_devices db)"
      "lb_parse_uuid L (rs_origin_device_id r) = Some device"
    and token: "token_text_ok L token" "sh_token_digest s = lb_sha256 L token"
    and body: "rv_cipher S = Some ci" "rs_body_nonce r = Some n" "rs_body_ciphertext r = Some ct"
      "decrypt (ci_open ci) n ct (result_aad device (rs_result_id r) (rs_source_hash r) ''ResultBody'') = Inr bytes"
      "hex_digest L bytes = rs_source_hash r" "utf8_valid bytes"
  shows "public_body L S clock (lb_b64_encode L token) db
         = Inr (bytes, \<lparr>vm_title = rs_safe_title r, vm_page_expires_at = rs_page_expires_at r,
                         vm_completed_at = rs_completed_at r, vm_duration_ms = rs_duration_ms r,
                         vm_source_hash = rs_source_hash r\<rparr>)"
proof -
  obtain d where d: "d \<in> set (db_devices db)" "dv_id d = rs_origin_device_id r"
    using dev(1) by (auto simp: device_exists_def list_ex_iff)
  obtain y where y: "shared_result (lb_sha256 L token) db = Some y"
    using shared_result_ex [OF inv(2,3) d(1) token(2) live(1)] inv(4) d(2) by auto
  obtain s' r' d' where y': "y = (s', r', d')" by (cases y)
  note f = shared_result_Some [OF y [unfolded y']]
  have "s' = s" using result_inv_share [OF inv(1) f(1) inv(2)] f(4) token(2) by simp
  then have "r' = r" using result_inv_row [OF inv(1) f(2) inv(3)] f(6) inv(4) by simp
  moreover have "dv_enabled d'" "dv_revoked_at d' = None"
    using dev(2) f(3,7) \<open>r' = r\<close> by (auto simp: list_all_iff)
  ultimately show ?thesis
    using y y' live dev(3) token(1) body
    by (simp add: public_body_def decode_token_def token_text_ok_def map_err_def)
qed

lemma link_of_share:
  assumes "result_inv db" "s \<in> set (db_shares db)" "r \<in> set (db_results db)" "sh_result_row_id s = rs_id r"
    "owned_result (''device:'' @ uu_text device) rid r"
    "rs_revoked_at r = None" "result_now clock = Inr now" "now < rs_page_expires_at r"
    "rv_cipher S = Some ci" "utf8_valid token"
    "decrypt (ci_open ci) (sh_token_nonce s) (sh_token_ciphertext s)
       (result_aad (uu_bytes device) rid (rs_source_hash r) ''ResultShareToken'') = Inr token"
  shows "result_link_of S clock device rid db
         = Inr \<lparr>rl_url = sh_public_origin s @ ''/r/'' @ token, rl_expires_at = rs_page_expires_at r\<rparr>"
  using result_link_of_row [OF assms(1,3,2,5,4)] assms(6-11)
  by (simp add: result_link_of_def map_err_def)

text \<open>
  C5: What was published can be read: after a publication that was accepted as new, and any
  later transactions, as long as the result is not revoked, its page has not expired and its
  device is active, the owner is given the share link and the page behind that link serves
  exactly the published body and metadata. Used of the libraries: opening inverts sealing,
  base64 decoding inverts encoding and gives 43 characters for 32 bytes, and the device
  identifier parses to its bytes.
\<close>

theorem published_result_is_readable:
  assumes pub: "publish_once L E S device p target db = (db1, Inr receipt)"
    "unpublished device p db" "unpublished device p (pv_interleave E db)" "result_inv (pv_interleave E db)"
    and later: "(result_step L S)\<^sup>*\<^sup>* db1 db2"
    and live: "\<not> list_ex (\<lambda>r. rs_id r = pv_row_id E \<and> rs_revoked_at r \<noteq> None) (db_results db2)"
      "result_now clock = Inr now" "now < rr_page_expires_at receipt"
    and dev: "device_exists db2 (Some (uu_text device))"
      "list_all (\<lambda>d. dv_id d = uu_text device \<longrightarrow> dv_enabled d \<and> dv_revoked_at d = None) (db_devices db2)"
    and libs: "rv_cipher S = Some ci" "aead_ok ci" "pv_token E = Some token" "token_text_ok L token"
      "lb_parse_uuid L (uu_text device) = Some (uu_bytes device)" "utf8_valid (pb_body p)"
  shows "\<exists>url. normalized_public_origin L (rv_config S) = Some url
     \<and> result_link_of S clock device (pb_result_id p) db2
         = Inr \<lparr>rl_url = url @ ''/r/'' @ lb_b64_encode L token, rl_expires_at = rr_page_expires_at receipt\<rparr>
     \<and> public_body L S clock (lb_b64_encode L token) db2
         = Inr (pb_body p, \<lparr>vm_title = pb_title p, vm_page_expires_at = rr_page_expires_at receipt,
                            vm_completed_at = pb_completed_at p, vm_duration_ms = pb_duration_ms p,
                            vm_source_hash = pb_source_hash p\<rparr>)"
proof -
  obtain digest x where v: "validate_publication L p 262144 = Inr ()"
    and x: "prepare_result L E S device p target = Inr x"
    and tx: "publish_transaction L E S x device p digest (pv_interleave E db) = Inr (db1, receipt)"
    using pub(1-3) by (rule publish_once_new)
  obtain r where r: "result_inv db2" "r \<in> set (db_results db2)"
    "result_kept (published_row E x device p digest) r" "published_share E x \<in> set (db_shares db2)"
    using tx pub(4) later by (rule published_later)
  have exp: "rr_page_expires_at receipt = pp_expires x"
    using tx by (rule publish_transaction_Inr) (simp add: published_receipt_def)
  note row = r(3) [unfolded result_kept_def published_row_def, simplified]
  have open': "rs_revoked_at r = None" using live(1) r(2) row by (auto simp: list_ex_iff)
  have shr: "sh_result_row_id (published_share E x) = rs_id r" by (simp add: published_share_def row)
  obtain token' where pr: "rv_cipher S = Some (pp_cipher x)" "pv_token E = Some token'"
    "pp_token_digest x = lb_sha256 L token'"
    "encrypt (pp_cipher x) (pv_body_nonce E) (pb_body p)
       (result_aad (uu_bytes device) (pb_result_id p) (pb_source_hash p) ''ResultBody'') = Inr (pp_body x)"
    "encrypt (pp_cipher x) (pv_token_nonce E) (lb_b64_encode L token')
       (result_aad (uu_bytes device) (pb_result_id p) (pb_source_hash p) ''ResultShareToken'') = Inr (pp_share x)"
    "normalized_public_origin L (rv_config S) = Some (pp_origin_url x)"
    using x by (rule prepare_result_Inr)
  have ci: "pp_cipher x = ci" "token' = token" using pr(1,2) libs(1,3) by simp_all
  note dec = encrypt_decrypt [OF libs(2) pr(4) [unfolded ci] publish_transaction_nonces(1) [OF tx]]
    encrypt_decrypt [OF libs(2) pr(5) [unfolded ci] publish_transaction_nonces(2) [OF tx]]
  have "result_link_of S clock device (pb_result_id p) db2
      = Inr \<lparr>rl_url = sh_public_origin (published_share E x) @ ''/r/'' @ lb_b64_encode L token,
             rl_expires_at = rs_page_expires_at r\<rparr>"
    by (rule link_of_share [OF r(1,4,2) shr _ open' live(2) _ libs(1)])
      (use live(3) libs(4) dec(2) in \<open>simp_all add: row owned_result_def exp token_text_ok_def published_share_def\<close>)
  moreover have "hex_digest L (pb_body p) = pb_source_hash p"
    using v by (simp add: validate_publication_def split: if_splits)
  then have "public_body L S clock (lb_b64_encode L token) db2
      = Inr (pb_body p, \<lparr>vm_title = rs_safe_title r, vm_page_expires_at = rs_page_expires_at r,
                         vm_completed_at = rs_completed_at r, vm_duration_ms = rs_duration_ms r,
                         vm_source_hash = rs_source_hash r\<rparr>)"
    by (intro page_of_share [OF r(1,4,2) shr _ open' live(2) _ _ _ _ libs(4) _ libs(1)])
      (use live(3) libs(5,6) dev dec(1) in \<open>simp_all add: row exp published_share_def pr(3) ci(2)\<close>)
  ultimately show ?thesis using pr(6) by (simp add: row exp published_share_def)
qed

text \<open>Replays.\<close>

lemma published_existing:
  assumes "result_inv db" "r \<in> set (db_results db)" "rs_origin_key r = origin"
    "rs_result_id r = rid" "rs_dedupe_key r = dedupe" "result_now clock = Inr observed"
  shows "\<exists>q. existing_receipt origin rid dedupe (rs_request_digest r) clock db = Inr (Some (receipt_of observed (r, q)))"
proof -
  have "\<exists>q. results_with_notice db
      (\<lambda>r. rs_origin_key r = origin \<and> (rs_result_id r = rid \<or> rs_dedupe_key r = dedupe)) = [(r, q)]"
  proof (rule results_with_notice_unique [OF assms(1,2)])
    fix r' assume "r' \<in> set (db_results db)"
      "rs_origin_key r' = origin \<and> (rs_result_id r' = rid \<or> rs_dedupe_key r' = dedupe)"
    then show "r' = r" using assms(3-5) by (intro result_inv_row [OF assms(1) _ assms(2)]) simp_all
  qed (simp add: assms(3-5))
  then show ?thesis using assms(6) by (auto simp: existing_receipt_def)
qed

lemma existing_conflict:
  assumes "result_inv db" "r \<in> set (db_results db)" "rs_origin_key r = origin"
    "rs_result_id r = rid \<or> rs_dedupe_key r = dedupe" "rs_request_digest r \<noteq> digest"
  shows "existing_receipt origin rid dedupe digest clock db = Inl RConflict"
proof -
  let ?p = "\<lambda>r. rs_origin_key r = origin \<and> (rs_result_id r = rid \<or> rs_dedupe_key r = dedupe)"
  have "r \<in> fst ` set (results_with_notice db ?p)"
    unfolding set_map [symmetric] results_with_notice_rows [OF assms(1)] using assms(2-4) by simp
  then show ?thesis
    using assms(5) unfolding existing_receipt_def by (auto split: list.split)
qed

text \<open>
  C24: Publishing is idempotent: repeating an accepted publication, after any later transactions,
  returns a receipt for the same result with its original acceptance and expiry times, and
  changes nothing.
\<close>

theorem publish_replay:
  assumes pub: "publish_once L E S device p target db = (db1, Inr receipt)"
    "unpublished device p db" "unpublished device p (pv_interleave E db)" "result_inv (pv_interleave E db)"
    and later: "(result_step L S)\<^sup>*\<^sup>* db1 db2" "result_now (pv_observed E') = Inr observed"
  shows "\<exists>receipt'. publish_once L E' S device p target' db2 = (db2, Inr receipt')
     \<and> rr_result_id receipt' = rr_result_id receipt \<and> rr_source_hash receipt' = rr_source_hash receipt
     \<and> rr_accepted_at receipt' = rr_accepted_at receipt \<and> rr_page_expires_at receipt' = rr_page_expires_at receipt"
proof -
  obtain digest x where v: "validate_publication L p 262144 = Inr ()" "publication_digest L S p = Inr digest"
    and tx: "publish_transaction L E S x device p digest (pv_interleave E db) = Inr (db1, receipt)"
    using pub(1-3) by (rule publish_once_new)
  obtain r where r: "result_inv db2" "r \<in> set (db_results db2)"
    "result_kept (published_row E x device p digest) r"
    using tx pub(4) later(1) by (rule published_later)
  have row: "rs_request_digest r = digest" "rs_origin_key r = ''device:'' @ uu_text device"
    "rs_result_id r = pb_result_id p" "rs_dedupe_key r = pb_dedupe_key p" "rs_source_hash r = pb_source_hash p"
    "rs_accepted_at r = pp_now x" "rs_page_expires_at r = pp_expires x"
    using r(3) by (simp_all add: result_kept_def published_row_def)
  obtain q where "existing_receipt (''device:'' @ uu_text device) (pb_result_id p) (pb_dedupe_key p)
      (rs_request_digest r) (pv_observed E') db2 = Inr (Some (receipt_of observed (r, q)))"
    using published_existing [OF r(1,2) row(2-4) later(2)] by blast
  then have "publish_once L E' S device p target' db2 = (db2, Inr (receipt_of observed (r, q)))"
    using v by (simp add: publish_once_def row(1))
  moreover have "receipt = published_receipt E x p" using tx by (rule publish_transaction_Inr)
  ultimately show ?thesis by (simp add: receipt_of_def published_receipt_def row)
qed

text \<open>
  C25: A publication that reuses the result identifier or the dedupe key of an accepted one with
  another content digest is refused as a conflict, and changes nothing.
\<close>

theorem publish_conflict:
  assumes pub: "publish_once L E S device p target db = (db1, Inr receipt)"
    "unpublished device p db" "unpublished device p (pv_interleave E db)" "result_inv (pv_interleave E db)"
    and later: "(result_step L S)\<^sup>*\<^sup>* db1 db2"
    and other: "validate_publication L p' 262144 = Inr ()" "publication_digest L S p' = Inr digest'"
      "publication_digest L S p \<noteq> Inr digest'"
      "pb_result_id p' = pb_result_id p \<or> pb_dedupe_key p' = pb_dedupe_key p"
  shows "publish_once L E' S device p' target' db2 = (db2, Inl RConflict)"
proof -
  obtain digest x where v: "publication_digest L S p = Inr digest"
    and tx: "publish_transaction L E S x device p digest (pv_interleave E db) = Inr (db1, receipt)"
    using pub(1-3) by (rule publish_once_new)
  obtain r where r: "result_inv db2" "r \<in> set (db_results db2)"
    "result_kept (published_row E x device p digest) r"
    using tx pub(4) later(1) by (rule published_later)
  have "rs_request_digest r \<noteq> digest'"
    using r(3) v other(3) by (auto simp: result_kept_def published_row_def)
  then have "existing_receipt (''device:'' @ uu_text device) (pb_result_id p') (pb_dedupe_key p')
      digest' (pv_observed E') db2 = Inl RConflict"
    by (intro existing_conflict [OF r(1,2)])
      (use r(3) other(4) in \<open>auto simp: result_kept_def published_row_def\<close>)
  then show ?thesis using other(1,2) by (simp add: publish_once_def)
qed

section \<open>Capacity\<close>

lemma retained_kept:
  assumes "results_kept (db_results db) (db_results db')" "length (db_results db') = length (db_results db)"
  shows "retained_body_bytes db' = retained_body_bytes db"
proof -
  obtain u v where u: "db_results db' = u @ v" "list_all2 result_kept (db_results db) u"
    using assms(1) by (auto simp: results_kept_def)
  have "v = []" using list_all2_lengthD [OF u(2)] assms(2) u(1) by simp
  have "sum_list (map rs_body_bytes (filter (\<lambda>r. rs_body_purged_at r = None) u))
      = sum_list (map rs_body_bytes (filter (\<lambda>r. rs_body_purged_at r = None) t))"
    if "list_all2 result_kept t u" for t u
    using that by (induction rule: list_all2_induct) (auto simp: result_kept_def)
  from this [OF u(2)] show ?thesis by (simp add: retained_body_bytes_def u(1) \<open>v = []\<close>)
qed

lemma publish_transaction_capacity:
  assumes "publish_transaction L E S x device p digest db = Inr (db', receipt)"
  shows "within_capacity S db'"
proof -
  have "over_capacity S p db = Inr False" using assms by (rule publish_transaction_Inr)
  then have "i64_saturating_add (retained_body_bytes db) (int (length (pb_body p)))
      \<le> int (rc_max_retained_body_bytes (rv_config S))"
    by (simp add: over_capacity_def split: if_splits)
  moreover have "retained_body_bytes db' = retained_body_bytes db + int (length (pb_body p))"
    unfolding retained_body_bytes_def publish_transaction_tables(1) [OF assms] by (simp add: published_row_def)
  ultimately show ?thesis
    by (auto simp: within_capacity_def i64_saturating_add_def i64_saturating_def split: if_splits)
qed

lemma revoke_transaction_length:
  assumes "revoke_transaction row_id req now db = Inr (db', row)"
  shows "length (db_results db') = length (db_results db)"
proof -
  from assms obtain db1 db2 n where
    d1: "db1 = db\<lparr>db_results := update_where (\<lambda>r. rs_id r = row_id \<and> rs_revoked_at r = None)
                    (revoke_result_row now) (db_results db)\<rparr>"
    and u: "update_outbox (cancellable_notice row_id) (cancel_row now) db1 = Some (db2, n)"
    and a: "insert_action \<lparr>ac_result_row_id = row_id, ac_action_kind = ActionRevoke, ac_request_id = req,
              ac_notification_id = None, ac_created_at = now\<rparr> db2 = Some db'"
    by (rule revoke_transaction_Inr)
  show ?thesis
    using map_eq_imp_length_eq [OF update_outbox_results(5) [OF u]] insert_action_results(1) [OF a]
    by (simp add: d1 length_update_where)
qed

lemma resend_transaction_length:
  assumes "resend_transaction L E S device rid req now db = Inr db'"
  shows "length (db_results db') = length (db_results db)"
  using assms
proof (cases rule: resend_transaction_cases)
  case replay
  then show ?thesis by simp
next
  case (sent r q l db1 db2 a chosen)
  then show ?thesis
    using insert_outbox_ignore_results(1) [OF sent(8)] insert_action_results(1) [OF sent(9)]
    by (cases "chosen = re_notification_id E") (simp_all add: length_update_where)
qed

lemma result_step_capacity:
  assumes "result_step L S db db'" "within_capacity S db"
  shows "within_capacity S db'"
  using assms(1)
proof (cases rule: result_step.cases)
  case (published E x device p digest receipt)
  then show ?thesis by (rule publish_transaction_capacity)
next
  case (resent E device rid req now)
  then show ?thesis
    using assms(2) retained_kept [OF resend_transaction_kept resend_transaction_length]
    by (simp add: within_capacity_def)
next
  case (revoked row_id req now row)
  then show ?thesis
    using assms(2) retained_kept [OF revoke_transaction_kept(1) revoke_transaction_length]
    by (simp add: within_capacity_def)
next
  case (outbox_statement f p n)
  then show ?thesis
    using assms(2) retained_kept [OF update_outbox_results(1) map_eq_imp_length_eq [OF update_outbox_results(5)]]
    by (simp add: within_capacity_def)
next
  case other
  then show ?thesis using assms(2) by (simp add: within_capacity_def retained_body_bytes_def)
qed

interpretation result_capacity: invariant_system "result_step L S" "within_capacity S" for L S
  by unfold_locales (rule result_step_capacity)

text \<open>
  C26: The bytes of the bodies kept stay within the configured limit through every sequence of
  transactions, for every limit below the largest i64.
\<close>

theorem retained_bodies_bounded:
  assumes "(result_step L S)\<^sup>*\<^sup>* db db'" "retained_body_bytes db \<le> int (rc_max_retained_body_bytes (rv_config S))"
    "int (rc_max_retained_body_bytes (rv_config S)) < i64_max"
  shows "retained_body_bytes db' \<le> int (rc_max_retained_body_bytes (rv_config S))"
  using result_capacity.steps_inv [OF assms(1)] assms(2,3) by (simp add: within_capacity_def)

section \<open>Resending and revoking\<close>

lemma resend_transaction_records:
  assumes "resend_transaction L E S device rid req now db = Inr db'"
  obtains r a nid where "r \<in> set (db_results db)" "owned_result (''device:'' @ uu_text device) rid r"
    "a \<in> set (db_actions db')" "resend_action (rs_id r) req a" "ac_notification_id a = Some nid"
  using assms
proof (cases rule: resend_transaction_cases)
  case (replay r a nid)
  then show ?thesis using that [OF replay(1,2), of a nid] find_SomeD [OF replay(3)] by simp
next
  case (sent r q l db1 db2 a chosen)
  have "db_actions db' = db_actions db2" using sent(12) by simp
  then show ?thesis using that [OF sent(1,2), of a chosen] find_SomeD [OF sent(10)] sent(11) by simp
qed

text \<open>
  C27: Resending is idempotent: repeating a request identifier that was carried out, after any
  later transactions, enqueues nothing, changes nothing and reports the current receipt.
\<close>

theorem resend_is_idempotent:
  assumes "result_inv db" "resend L E S device rid req db = (db1, Inr receipt)"
    "(result_step L S)\<^sup>*\<^sup>* db1 db2" "result_now (re_now E') = Inr now"
  shows "resend L E' S device rid req db2
         = (db2, receipt_for (''device:'' @ uu_text device) rid (re_observed E') db2)"
proof -
  obtain now0 where tx: "resend_transaction L E S device rid req now0 db = Inr db1" and v: "valid_request_id req"
    using assms(2) by (auto simp: resend_def split: if_splits sum.splits)
  obtain r a nid where r: "r \<in> set (db_results db)" "owned_result (''device:'' @ uu_text device) rid r"
    and a: "a \<in> set (db_actions db1)" "resend_action (rs_id r) req a" "ac_notification_id a = Some nid"
    using tx by (rule resend_transaction_records)
  have i1: "result_inv db1" using resend_transaction_inv [OF tx assms(1)] .
  have i2: "result_inv db2" by (rule result_system.steps_inv [OF assms(3) i1])
  have "results_kept (db_results db) (db_results db2)"
    using resend_transaction_kept [OF tx] result_steps_kept [OF assms(3)] by (rule results_kept_trans)
  then obtain k where k: "k \<in> set (db_results db2)" "result_kept r k" using results_kept_mem r(1) by blast
  then have own: "owned_result (''device:'' @ uu_text device) rid k" "rs_id k = rs_id r"
    using r(2) by (simp_all add: result_kept_def owned_result_def)
  have "distinct (db_results db2)" using i2 by (simp add: result_inv_def distinct_map)
  then have f: "filter (owned_result (''device:'' @ uu_text device) rid) (db_results db2) = [k]"
    using k(1) own(1)
  proof (rule filter_unique)
    fix r' assume "r' \<in> set (db_results db2)" "owned_result (''device:'' @ uu_text device) rid r'"
    then show "r' = k" using own(1) by (intro result_inv_row [OF i2 _ k(1)]) (simp_all add: owned_result_def)
  qed
  have a2: "a \<in> set (db_actions db2)" using a(1) result_steps_tables [OF assms(3)] by blast
  then obtain b where b: "find (resend_action (rs_id k) req) (db_actions db2) = Some b"
    using find_ex [of a] a(2) own(2) by metis
  have "b = a"
    using result_inv_action [OF i2, of b a] find_SomeD [OF b] a2 a(2) own(2)
    by (simp add: action_key_def resend_action_def)
  then have "resend_transaction L E' S device rid req now db2 = Inr db2"
    using f b a(3) find_filter_Cons [OF f] by (simp add: resend_transaction_def count_where_def)
  then show ?thesis using v assms(4) by (simp add: resend_def)
qed

lemma sample_validate:
  "validate_publication sample_libs sample_publication 262144 = Inr ()"
  "validate_publication sample_libs sample_publication 100 = Inr ()"
  "validate_publication sample_libs (sample_publication\<lparr>pb_title := ''u''\<rparr>) 262144 = Inr ()"
proof -
  have key: "valid_key ''x''" "valid_key ''k''" "valid_key ''c''"
    by (simp_all add: valid_key_def utf8_decode_ascii is_control_def is_whitespace_def byte_of_def)
  have title: "trim_chars (utf8_decode ''t'') \<noteq> []" "chars_count ''t'' = 1" "\<not> list_ex is_control (utf8_decode ''t'')"
    "trim_chars (utf8_decode ''u'') \<noteq> []" "chars_count ''u'' = 1" "\<not> list_ex is_control (utf8_decode ''u'')"
    by (simp_all add: trim_chars_def chars_count_def utf8_decode_ascii is_control_def is_whitespace_def byte_of_def)
  have rev: "valid_revision ''1''" "list_all (\<lambda>c. ascii_lower c \<or> ascii_digit c) (concat (replicate 32 ''68''))"
    "length (concat (replicate 32 ''68'')) = 64"
    by code_simp+
  have hash: "hex_digest sample_libs sample_body = concat (replicate 32 ''68'')"
  proof -
    have "hex_digit 6 = CHR ''6''" "hex_digit 8 = CHR ''8''" by code_simp+
    then show ?thesis by (simp add: hex_digest_def sample_libs_def sample_body_def hex_encode_def byte_of_def)
  qed
  show "validate_publication sample_libs sample_publication 262144 = Inr ()"
    "validate_publication sample_libs sample_publication 100 = Inr ()"
    "validate_publication sample_libs (sample_publication\<lparr>pb_title := ''u''\<rparr>) 262144 = Inr ()"
    using key title rev hash unfolding validate_publication_def sample_publication_def
    by (simp_all add: valid_time_def max_safe_integer_def sample_body_def)
qed

lemma sample_prepare:
  "prepare_result sample_libs sample_env sample_service sample_device sample_publication (Some sample_target)
   = Inr sample_prepared"
proof -
  have "available sample_libs sample_service" "normalized_public_origin sample_libs (rv_config sample_service) = Some ''https://r.example''"
    by (simp_all add: available_def normalized_public_origin_def sample_service_def sample_libs_def)
  moreover have "lb_b64_encode sample_libs sample_token = sample_text" "lb_sha256 sample_libs sample_token = sample_token"
    by (simp_all add: sample_libs_def sample_text_def sample_token_def)
  ultimately show ?thesis
  using sample_validate(2)
  by (simp add: prepare_result_def sample_service_def
      sample_env_def result_now_def i64_bounds day_ms_def i64_checked_add_def in_i64_def encrypt_def
      sample_cipher_def sample_prepared_def sample_publication_def map_err_def)
qed

lemma sample_checks: "result_checks sample_row" "outbox_checks (link_notice_row sample_notice)"
proof -
  show "result_checks sample_row" by code_simp
  have "sql_length ''t'' \<le> 128" "sql_length ''[PROTECTED_RESULT_LINK]'' \<le> 6000" "fingerprint_check sample_target"
    by code_simp+
  then show "outbox_checks (link_notice_row sample_notice)"
    by (simp add: outbox_checks_def link_notice_row_def sample_notice_def Let_def target_check_def body_kind_check_def
        origin_check_def kind_check_def claim_check_def)
qed

lemma sample_inserts:
  "insert_result (published_row sample_env sample_prepared sample_device sample_publication sample_digest) (sample_db\<lparr>db_outbox := q\<rparr>)
      = Inr (sample_db\<lparr>db_outbox := q, db_results := [sample_row]\<rparr>)"
  "insert_share (published_share sample_env sample_prepared) (sample_db\<lparr>db_outbox := q, db_results := [sample_row]\<rparr>)
      = Some (sample_db\<lparr>db_outbox := q, db_results := [sample_row], db_shares := [sample_share]\<rparr>)"
  "over_capacity sample_service sample_publication (sample_db\<lparr>db_outbox := q\<rparr>) = Inr False"
  "publish_notice sample_libs sample_env sample_prepared sample_device sample_publication = Inr sample_notice"
proof -
  show "insert_result (published_row sample_env sample_prepared sample_device sample_publication sample_digest) (sample_db\<lparr>db_outbox := q\<rparr>)
      = Inr (sample_db\<lparr>db_outbox := q, db_results := [sample_row]\<rparr>)"
    using sample_checks(1)
    by (simp add: insert_result_def sample_row_def sample_db_def demo_db_def device_exists_def demo_device_def
        published_row_def sample_device_def)
  show "insert_share (published_share sample_env sample_prepared) (sample_db\<lparr>db_outbox := q, db_results := [sample_row]\<rparr>)
      = Some (sample_db\<lparr>db_outbox := q, db_results := [sample_row], db_shares := [sample_share]\<rparr>)"
    by (simp add: insert_share_def sample_share_def published_share_def sample_prepared_def sample_token_def
        sample_db_def demo_db_def sample_row_def published_row_def)
  show "over_capacity sample_service sample_publication (sample_db\<lparr>db_outbox := q\<rparr>) = Inr False"
    by (simp add: over_capacity_def sample_service_def sample_publication_def sample_body_def i64_bounds
        retained_body_bytes_def sample_db_def demo_db_def i64_saturating_add_def i64_saturating_def)
  show "publish_notice sample_libs sample_env sample_prepared sample_device sample_publication = Inr sample_notice"
    by (simp add: publish_notice_def Let_def encrypt_def sample_prepared_def sample_cipher_def sample_env_def
        sample_notice_def sample_publication_def sample_device_def map_err_def)
qed

lemma sample_transaction:
  "publish_transaction sample_libs sample_env sample_service sample_prepared sample_device sample_publication
     sample_digest sample_db = Inr (sample_published, sample_receipt)"
proof -
  have "insert_outbox_abort (link_notice_row sample_notice)
      (sample_db\<lparr>db_outbox := [], db_results := [sample_row], db_shares := [sample_share]\<rparr>) = Some sample_published"
    using sample_checks(2)
    by (simp add: insert_outbox_abort_def insert_outbox_def sample_db_def demo_db_def sample_published_def
        device_exists_def demo_device_def link_notice_row_def sample_notice_def Let_def)
  moreover have "sample_db = sample_db\<lparr>db_outbox := []\<rparr>" by (simp add: sample_db_def)
  ultimately show ?thesis
    using sample_inserts(1-3) [of "[]"] sample_inserts(4) by (simp add: publish_transaction_def sample_receipt_def)
qed

lemma sample_digests:
  "publication_digest sample_libs sample_service sample_publication = Inr sample_digest"
  "publication_digest sample_libs sample_service (sample_publication\<lparr>pb_title := ''u''\<rparr>)
   = Inr (CHR ''u'' # replicate 31 (CHR ''h''))"
  by (simp_all add: publication_digest_def sample_service_def sample_libs_def sample_cipher_def sample_publication_def
        sample_digest_def sample_body_def)

lemma sample_publish:
  "publish_once sample_libs sample_env sample_service sample_device sample_publication (Some sample_target) sample_db
   = (sample_published, Inr sample_receipt)"
proof -
  have "existing_receipt (''device:'' @ uu_text sample_device) (pb_result_id sample_publication)
      (pb_dedupe_key sample_publication) sample_digest (pv_observed sample_env) sample_db = Inr None"
    by (simp add: existing_receipt_def results_with_notice_def sample_db_def demo_db_def)
  moreover have "pv_interleave sample_env sample_db = sample_db" by (simp add: sample_env_def)
  ultimately show ?thesis
    using sample_validate(1) sample_digests(1) sample_prepare sample_transaction by (simp add: publish_once_def Let_def)
qed

lemma sample_inv: "result_inv sample_db" "result_inv sample_published"
proof -
  show "result_inv sample_db"
    by (simp add: result_inv_def sample_db_def demo_db_def linked_notices_def)
  then show "result_inv sample_published" by (rule publish_transaction_inv [OF sample_transaction])
qed
lemma revoke_transaction_outbox:
  assumes "revoke_transaction row_id req now db = Inr (db', row)"
  shows "db_outbox db' = update_where (cancellable_notice row_id) (cancel_row now) (db_outbox db)"
proof -
  from assms obtain db1 db2 n where
    d1: "db1 = db\<lparr>db_results := update_where (\<lambda>r. rs_id r = row_id \<and> rs_revoked_at r = None)
                    (revoke_result_row now) (db_results db)\<rparr>"
    and u: "update_outbox (cancellable_notice row_id) (cancel_row now) db1 = Some (db2, n)"
    and a: "insert_action \<lparr>ac_result_row_id = row_id, ac_action_kind = ActionRevoke, ac_request_id = req,
              ac_notification_id = None, ac_created_at = now\<rparr> db2 = Some db'"
    by (rule revoke_transaction_Inr)
  show ?thesis using u insert_action_results(3) [OF a] by (simp add: update_outbox_Some d1)
qed

text \<open>
  C28: A revocation withdraws the link notices: no unclaimed notice of the result is left waiting
  for delivery.
\<close>

theorem revoke_withdraws_notices:
  assumes "admin_revoke clock observed row_id req db = (db1, Inr receipt)"
    "q \<in> set (db_outbox db1)" "ob_result_row_id q = Some row_id" "ob_kind q = ''result_link''" "ob_claim_token q = None"
  shows "ob_status q \<notin> {PendingChannel, RetryWait, BlockedActivation, BlockedReconnect}"
proof -
  obtain now row where "revoke_transaction row_id req now db = Inr (db1, row)"
    using assms(1) by (rule admin_revoke_Inr)
  then have "q \<in> set (update_where (cancellable_notice row_id) (cancel_row now) (db_outbox db))"
    using assms(2) by (simp add: revoke_transaction_outbox)
  then show ?thesis
  proof (rule update_where_mem)
    fix r assume "q = cancel_row now r"
    then show ?thesis by (simp add: cancel_row_def)
  next
    assume "\<not> cancellable_notice row_id q"
    then show ?thesis using assms(3-5) by (simp add: cancellable_notice_def)
  qed
qed

text \<open>
  The SQL filter of the administrator listing selects exactly the results whose receipt
  shows that page state.
\<close>

lemma listing_filter_matches_receipts:
  "page_state_filter now (Some st) r \<longleftrightarrow> page_state_at now r = st"
  by (cases st) (auto simp: page_state_filter_def page_state_at_def)

lemma results_with_notice_filter:
  "results_with_notice db (\<lambda>r. p r \<and> q r) = filter (\<lambda>rq. q (fst rq)) (results_with_notice db p)"
proof -
  have join: "filter (\<lambda>rq. q (fst rq)) (join_notice db r) = (if q r then join_notice db r else [])" for r
    by (auto simp: join_notice_def filter_empty_conv filter_id_conv split: list.split)
  have "concat (map (join_notice db) (filter (\<lambda>r. p r \<and> q r) t))
      = filter (\<lambda>rq. q (fst rq)) (concat (map (join_notice db) (filter p t)))" for t
    by (induction t) (auto simp: join)
  then show ?thesis by (simp add: results_with_notice_def)
qed

lemma before_cursor_key:
  "before_cursor (Some c) (fst rq) \<longleftrightarrow> listing_key rq < (cu_accepted_at c, cu_result_row_id c)"
  by (auto simp: before_cursor_def listing_key_def)

lemma admin_list_rows_after:
  "admin_list_rows now (Some c) st db
   = filter (\<lambda>rq. listing_key rq < (cu_accepted_at c, cu_result_row_id c)) (admin_list_rows now None st db)"
  unfolding admin_list_rows_def results_with_notice_filter [where q = "before_cursor (Some c)"]
    results_with_notice_filter [where q = "before_cursor None"]
  by (simp add: before_cursor_key before_cursor_def [of None] filter_sort flip: rev_filter)

lemma admin_list_rows_sorted:
  assumes "result_inv db"
  shows "sorted_wrt (\<lambda>x y. listing_key y < listing_key x) (admin_list_rows now after st db)"
proof -
  let ?t = "results_with_notice db (\<lambda>r. page_state_filter now st r \<and> before_cursor after r)"
  have "distinct (map (rs_id \<circ> fst) ?t)"
    using assms unfolding map_map [symmetric] results_with_notice_rows [OF assms]
    by (simp add: result_inv_def distinct_map_filter)
  then have "distinct (map listing_key ?t)"
    by (auto simp: distinct_map inj_on_def listing_key_def)
  then have "distinct (map listing_key (sort_key listing_key ?t))"
    by (simp add: distinct_map)
  then have "sorted_wrt (<) (map listing_key (sort_key listing_key ?t))"
    by (simp add: strict_sorted_iff)
  then show ?thesis by (simp add: admin_list_rows_def sorted_wrt_rev sorted_wrt_map)
qed

lemma filter_less_drop:
  fixes k :: "'a \<Rightarrow> 'k::linorder"
  assumes "sorted_wrt (\<lambda>x y. k y < k x) xs" "i < length xs"
  shows "filter (\<lambda>x. k x < k (xs ! i)) xs = drop (Suc i) xs"
proof -
  obtain us vs where xs: "xs = us @ xs ! i # vs" "us = take i xs" "vs = drop (Suc i) xs"
    using id_take_nth_drop [OF assms(2)] by blast
  have "sorted_wrt (\<lambda>x y. k y < k x) (us @ xs ! i # vs)" using assms(1) xs(1) by simp
  then have "\<forall>u \<in> set us. k (xs ! i) < k u" "\<forall>v \<in> set vs. k v < k (xs ! i)"
    by (auto simp: sorted_wrt_append)
  then have "filter (\<lambda>x. k x < k (xs ! i)) us = []" "filter (\<lambda>x. k x < k (xs ! i)) vs = vs"
    by (auto simp: filter_empty_conv)
  then have "filter (\<lambda>x. k x < k (xs ! i)) (us @ xs ! i # vs) = vs" by simp
  then show ?thesis using xs(1,3) by metis
qed

lemma follow_pages_drop:
  assumes "result_inv db" "0 < limit" "limit \<le> 100" "result_now clock = Inr now"
    "admin_list_rows now after st db = drop m (admin_list_rows now None st db)"
    "length (drop m (admin_list_rows now None st db)) < fuel"
  shows "follow_pages fuel limit after st clock db
         = Some (map result_admin_list_item (drop m (admin_list_rows now None st db)))"
  using assms(5,6)
proof (induction fuel arbitrary: after m)
  case (Suc fuel)
  let ?R = "admin_list_rows now None st db"
  show ?case
  proof (cases "length (drop m ?R) \<le> limit")
    case True
    then have "admin_list_page limit after st clock db = Inr (map result_admin_list_item (drop m ?R), None)"
      using assms(2-4) Suc.prems(1) by (simp add: admin_list_page_def Let_def)
    then show ?thesis by simp
  next
    case False
    let ?c = "\<lparr>cu_accepted_at = rs_accepted_at (fst (?R ! (m + limit - 1))),
                cu_result_row_id = rs_id (fst (?R ! (m + limit - 1)))\<rparr>"
    have last: "last (map result_admin_list_item (take limit (drop m ?R)))
        = result_admin_list_item (?R ! (m + limit - 1))"
      using False assms(2) by (simp add: last_conv_nth last_map)
    have page: "admin_list_page limit after st clock db
        = Inr (map result_admin_list_item (take limit (drop m ?R)), Some ?c)"
      using assms(2-4) Suc.prems(1) False last
      by (simp add: admin_list_page_def Let_def min_def result_admin_list_item_def)
    have "admin_list_rows now (Some ?c) st db = drop (Suc (m + limit - 1)) ?R"
      unfolding admin_list_rows_after
      using filter_less_drop [OF admin_list_rows_sorted [OF assms(1)], of "m + limit - 1" now None st] False assms(2)
      by (simp add: listing_key_def)
    then have "admin_list_rows now (Some ?c) st db = drop (m + limit) ?R" using assms(2) by simp
    then have "follow_pages fuel limit (Some ?c) st clock db
        = Some (map result_admin_list_item (drop (m + limit) ?R))"
      by (rule Suc.IH) (use Suc.prems(2) assms(2) False in simp)
    then show ?thesis
      using page by (simp flip: map_append drop_drop add: append_take_drop_id add.commute)
  qed
qed simp

text \<open>
  C29: Following the cursors of the administrator listing ends, and the pages together are the
  whole listing, in order, each result once; one page more than there are results is always
  enough.
\<close>

theorem pages_enumerate_listing:
  assumes "result_inv db" "0 < limit" "limit \<le> 100" "result_now clock = Inr now"
  shows "follow_pages (Suc (length (db_results db))) limit None st clock db
         = Some (map result_admin_list_item (admin_list_rows now None st db))"
proof -
  have "length (results_with_notice db p) \<le> length (db_results db)" for p
    using arg_cong [OF results_with_notice_rows [OF assms(1), of p], of length] by simp
  then have "length (admin_list_rows now None st db) < Suc (length (db_results db))"
    by (simp add: admin_list_rows_def less_Suc_eq_le)
  then show ?thesis using follow_pages_drop [OF assms, of None st 0 "Suc (length (db_results db))"] by simp
qed

text \<open>
  C30: The link notice shares the namespace of dedupe keys with the notifications of the device:
  when the device has a stored notification with the key \<open>result:\<close> followed by the
  result identifier, the publication of that result is rolled back with a database error.
\<close>

theorem notice_key_taken:
  assumes "q \<in> set (db_outbox db)" "ob_origin_key q = ''device:'' @ uu_text device"
    "ob_dedupe_key q = ''result:'' @ pb_result_id p" "over_capacity S p db = Inr False"
    "insert_result (published_row E x device p digest) db = Inr db1"
    "insert_share (published_share E x) db1 = Some db2" "publish_notice L E x device p = Inr l"
  shows "publish_transaction L E S x device p digest db = Inl (Some RDatabase)"
proof -
  have "db_outbox db2 = db_outbox db"
    using assms(5,6) by (auto simp: insert_result_def insert_share_def split: if_splits)
  moreover have "outbox_collides (link_notice_row l) q"
    using assms(2,3,7)
    by (auto simp: outbox_collides_def publish_notice_def Let_def and_then_eq_Inr link_notice_row_def)
  ultimately have "insert_outbox_abort (link_notice_row l) db2 = None"
    using assms(1) by (auto simp: insert_outbox_abort_def insert_outbox_def list_ex_iff)
  then show ?thesis using assms(4-7) by (simp add: publish_transaction_def)
qed

lemma sample_token_ok: "token_text_ok sample_libs sample_token" "lb_b64_encode sample_libs sample_token = sample_text"
proof -
  have "utf8_valid sample_text"
    by (rule utf8_valid_ascii) (simp add: sample_text_def sample_token_def byte_of_def list_all_iff)
  then show "token_text_ok sample_libs sample_token" "lb_b64_encode sample_libs sample_token = sample_text"
    by (simp_all add: token_text_ok_def sample_libs_def sample_token_def sample_text_def)
qed

lemma sample_sel:
  "db_results sample_published = [sample_row]" "db_shares sample_published = [sample_share]"
  "db_devices sample_published = [demo_device]" "db_actions sample_published = []"
  "db_results sample_db = []" "pv_interleave sample_env = (\<lambda>db. db)" "pv_token sample_env = Some sample_token"
  "rv_cipher sample_service = Some sample_cipher" "uu_text sample_device = ''d1''" "uu_bytes sample_device = ''d1''"
  "lb_parse_uuid sample_libs = Some" "rr_page_expires_at sample_receipt = 86400020"
  "pb_body sample_publication = sample_body" "pb_title sample_publication = ''t''"
  "pb_result_id sample_publication = ''x''" "pb_dedupe_key sample_publication = ''k''"
  "pb_completed_at sample_publication = None" "pb_duration_ms sample_publication = None"
  "pb_source_hash sample_publication = concat (replicate 32 ''68'')"
  "rs_revoked_at sample_row = None" "dv_id demo_device = ''d1''" "dv_enabled demo_device" "dv_revoked_at demo_device = None"
  "rs_id sample_row = ''row''" "sh_result_row_id sample_share = ''row''" "sh_token_digest sample_share = sample_token"
  by (simp_all add: sample_published_def sample_db_def demo_db_def sample_env_def sample_service_def sample_device_def
      sample_libs_def sample_receipt_def published_receipt_def sample_prepared_def sample_publication_def
      sample_row_def published_row_def demo_device_def sample_share_def published_share_def)

lemma sample_cipher_ok: "aead_ok sample_cipher"
  by (simp add: aead_ok_def sample_cipher_def)

lemma sample_body_valid: "utf8_valid sample_body"
  by (rule utf8_valid_ascii) (simp add: sample_body_def byte_of_def list_all_iff)

theorem published_result_is_readable_witness:
  "public_body sample_libs sample_service (Some 50) sample_text sample_published
   = Inr (sample_body, \<lparr>vm_title = ''t'', vm_page_expires_at = 86400020, vm_completed_at = None,
                        vm_duration_ms = None, vm_source_hash = concat (replicate 32 ''68'')\<rparr>)"
  using published_result_is_readable [OF sample_publish _ _ _ rtranclp.rtrancl_refl, of "Some 50" 50 sample_cipher sample_token]
    sample_inv sample_token_ok sample_body_valid sample_cipher_ok
  by (auto simp: sample_sel unpublished_def result_now_def i64_bounds device_exists_def)

lemma receipt_for_owned:
  assumes "result_inv db" "r \<in> set (db_results db)" "owned_result origin rid r" "result_now clock = Inr observed"
  shows "\<exists>q. receipt_for origin rid clock db = Inr (receipt_of observed (r, q))"
proof -
  have "\<exists>q. results_with_notice db (\<lambda>r. rs_origin_key r = origin \<and> rs_result_id r = rid) = [(r, q)]"
  proof (rule results_with_notice_unique [OF assms(1,2)])
    fix r' assume "r' \<in> set (db_results db)" "rs_origin_key r' = origin \<and> rs_result_id r' = rid"
    then show "r' = r" using assms(3) by (intro result_inv_row [OF assms(1) _ assms(2)]) (simp_all add: owned_result_def)
  qed (use assms(3) in \<open>simp add: owned_result_def\<close>)
  then show ?thesis using assms(4) by (auto simp: receipt_for_def)
qed

lemma sample_revoke_transaction:
  obtains db1 row where "revoke_transaction ''row'' ''req'' 30 sample_published = Inr (db1, row)"
proof -
  let ?db = "sample_published\<lparr>db_results := [revoke_result_row 30 sample_row]\<rparr>"
  have q: "db_outbox sample_published = [link_notice_row sample_notice]" by (simp add: sample_published_def)
  have "outbox_checks (cancel_row 30 (link_notice_row sample_notice))"
    by (rule checks_transfer [OF sample_checks(2)])
      (simp_all add: cancel_row_def link_notice_row_def sample_notice_def Let_def claim_check_def)
  then have "list_all outbox_checks (map (cancel_row 30) (filter (cancellable_notice ''row'') (db_outbox ?db)))"
    by (simp add: q)
  then obtain db2 n where u: "update_outbox (cancellable_notice ''row'') (cancel_row 30) ?db = Some (db2, n)"
    by (simp add: update_outbox_def Let_def)
  have "map rs_id (db_results db2) = [''row'']"
    using arg_cong [OF update_outbox_results(5) [OF u], of "map fst"]
    by (simp add: result_keys_def revoke_result_row_def sample_sel comp_def)
  then have "list_ex (\<lambda>r. rs_id r = ''row'') (db_results db2)" by (auto simp: list_ex_iff)
  moreover have "sql_length ''req'' = 3" by code_simp
  ultimately obtain db3 where "insert_action \<lparr>ac_result_row_id = ''row'', ac_action_kind = ActionRevoke,
      ac_request_id = ''req'', ac_notification_id = None, ac_created_at = 30\<rparr> db2 = Some db3"
    using update_outbox_results(3) [OF u] by (simp add: insert_action_def sample_sel)
  then show ?thesis
    using u by (intro that [of db3 "revoke_result_row 30 sample_row"])
      (simp add: revoke_transaction_def sample_sel update_where_def revoke_result_row_def)
qed

lemma sample_request: "valid_request_id ''req''"
  by (simp add: valid_request_id_def utf8_decode_ascii is_control_def byte_of_def)

lemma sample_revoke:
  obtains db1 receipt where "admin_revoke (Some 30) (Some 40) ''row'' ''req'' sample_published = (db1, Inr receipt)"
    "db_shares db1 = [sample_share]"
proof -
  obtain db1 row where tx: "revoke_transaction ''row'' ''req'' 30 sample_published = Inr (db1, row)"
    by (rule sample_revoke_transaction)
  have i: "result_inv db1" using revoke_transaction_kept(2) [OF tx] sample_inv(2) .
  have row: "row = revoke_result_row 30 sample_row"
    using tx by (auto simp: revoke_transaction_def Let_def and_then_eq_Inr sample_sel update_where_def revoke_result_row_def)
  obtain k where "k \<in> set (db_results db1)" "result_kept sample_row k"
    using results_kept_mem [OF revoke_transaction_kept(1) [OF tx]] by (auto simp: sample_sel)
  then obtain q where "receipt_for (rs_origin_key row) (rs_result_id row) (Some 40) db1 = Inr (receipt_of 40 (k, q))"
    using receipt_for_owned [OF i, of k _ _ "Some 40" 40]
    by (auto simp: owned_result_def result_kept_def row revoke_result_row_def result_now_def i64_bounds)
  then have "admin_revoke (Some 30) (Some 40) ''row'' ''req'' sample_published = (db1, Inr (receipt_of 40 (k, q)))"
    using tx sample_request by (simp add: admin_revoke_def result_now_def i64_bounds)
  then show ?thesis using revoke_transaction_tables(1) [OF tx] by (intro that) (simp_all add: sample_sel)
qed

theorem revoked_result_never_served_witness:
  "\<exists>db1 receipt. admin_revoke (Some 30) (Some 40) ''row'' ''req'' sample_published = (db1, Inr receipt)
     \<and> public_body sample_libs sample_service (Some 50) sample_text db1 = Inl RInaccessible"
proof (rule sample_revoke)
  fix db1 receipt
  assume r: "admin_revoke (Some 30) (Some 40) ''row'' ''req'' sample_published = (db1, Inr receipt)"
    "db_shares db1 = [sample_share]"
  have "decode_token sample_libs sample_text = Inr sample_token" "lb_sha256 sample_libs sample_token = sample_token"
    by (simp_all add: decode_token_def sample_text_def sample_token_def sample_libs_def)
  then show ?thesis
    using revoked_result_never_served [OF sample_inv(2) r(1) rtranclp.rtrancl_refl, of sample_share sample_libs sample_text sample_token sample_service "Some 50"] r
    by (auto simp: sample_sel)
qed

theorem revoke_withdraws_notices_witness:
  "\<exists>db1 receipt. admin_revoke (Some 30) (Some 40) ''row'' ''req'' sample_published = (db1, Inr receipt)
     \<and> (\<exists>q. db_outbox db1 = [q] \<and> ob_status q \<notin> {PendingChannel, RetryWait, BlockedActivation, BlockedReconnect})"
proof (rule sample_revoke)
  fix db1 receipt
  assume r: "admin_revoke (Some 30) (Some 40) ''row'' ''req'' sample_published = (db1, Inr receipt)"
  obtain now row where "revoke_transaction ''row'' ''req'' now sample_published = Inr (db1, row)"
    using r by (rule admin_revoke_Inr)
  then have q: "db_outbox db1 = [cancel_row now (link_notice_row sample_notice)]"
    by (simp add: revoke_transaction_outbox sample_published_def update_where_def cancellable_notice_def
        link_notice_row_def sample_notice_def Let_def)
  then show ?thesis
    using revoke_withdraws_notices [OF r, of "cancel_row now (link_notice_row sample_notice)"] r
    by (auto simp: cancel_row_def link_notice_row_def sample_notice_def Let_def)
qed

theorem publish_replay_witness:
  "\<exists>receipt'. publish_once sample_libs sample_env sample_service sample_device sample_publication None sample_published
       = (sample_published, Inr receipt') \<and> rr_accepted_at receipt' = rr_accepted_at sample_receipt"
  using publish_replay [OF sample_publish _ _ _ rtranclp.rtrancl_refl, of sample_env 20 None] sample_inv
  by (auto simp: sample_sel unpublished_def result_now_def i64_bounds sample_env_def)

theorem publish_conflict_witness:
  "publish_once sample_libs sample_env sample_service sample_device (sample_publication\<lparr>pb_title := ''u''\<rparr>) None sample_published
   = (sample_published, Inl RConflict)"
  by (rule publish_conflict [OF sample_publish _ _ _ rtranclp.rtrancl_refl sample_validate(3) sample_digests(2)])
    (simp_all add: sample_sel unpublished_def sample_inv sample_digests sample_digest_def)

theorem retained_bodies_bounded_witness:
  "retained_body_bytes sample_published \<le> 1000"
proof -
  have "result_step sample_libs sample_service sample_db sample_published"
    by (rule result_step.published) (rule sample_transaction)
  from retained_bodies_bounded [OF r_into_rtranclp [of "result_step sample_libs sample_service", OF this]] show ?thesis
    by (simp add: sample_service_def retained_body_bytes_def sample_sel i64_bounds)
qed

theorem pages_enumerate_listing_witness:
  "follow_pages 2 1 None None (Some 50) sample_published
   = Some (map result_admin_list_item (admin_list_rows 50 None None sample_published))"
  using pages_enumerate_listing [OF sample_inv(2), of 1 "Some 50" 50 None]
  by (simp add: sample_sel result_now_def i64_bounds numeral_2_eq_2)

theorem notice_key_taken_witness:
  "publish_transaction sample_libs sample_env sample_service sample_prepared sample_device sample_publication
     sample_digest sample_taken = Inl (Some RDatabase)"
  unfolding sample_taken_def
  by (rule notice_key_taken [OF _ _ _ sample_inserts(3,1,2,4), of "demo_row\<lparr>ob_dedupe_key := ''result:x''\<rparr>"])
    (simp_all add: demo_row_sel sample_sel)

lemma sample_resend_ok:
  obtains db1 receipt where
    "resend sample_libs sample_resend sample_service sample_device ''x'' ''req'' sample_published = (db1, Inr receipt)"
proof -
  let ?n = "result_link_notice ''t'' ''https://r.example'' sample_text"
  let ?l = "\<lparr>ln_outbox_id = ''out2'', ln_device_id = ''d1'', ln_notification_id = ''note2'',
      ln_dedupe_key = ''result-resend:row:req'', ln_payload_hash = hex_digest sample_libs ?n, ln_target = sample_target,
      ln_title = ''t'', ln_ciphertext = ?n, ln_nonce = replicate 24 (CHR ''p''), ln_result_row_id = ''row'', ln_now = 30,
      ln_expires_at = 86400020\<rparr>"
  let ?q = "link_notice_row sample_notice"
  have l: "resend_notice sample_libs sample_resend sample_service sample_device ''x'' ''req'' 30 sample_row ?q = Inr ?l"
    by (simp add: resend_notice_def sample_sel link_notice_row_def sample_notice_def Let_def decrypt_def nonce_bytes_def
        sample_cipher_def encrypt_def sample_resend_def map_err_def sample_row_def published_row_def sample_prepared_def
        sample_env_def)
  have "outbox_checks (link_notice_row ?l)"
    using sample_checks(2)
    by (simp add: outbox_checks_def link_notice_row_def sample_notice_def Let_def target_check_def body_kind_check_def
        origin_check_def kind_check_def claim_check_def)
  then have i: "insert_outbox_ignore (link_notice_row ?l) sample_published
      = Some (sample_published\<lparr>db_outbox := [?q, link_notice_row ?l]\<rparr>)"
    by (simp add: insert_outbox_ignore_def insert_outbox_abort_def insert_outbox_def sample_published_def
        outbox_collides_def link_notice_row_def sample_notice_def Let_def device_exists_def sample_db_def demo_db_def demo_device_def)
  have "sql_length ''req'' = 3" by code_simp
  moreover have "owned_result (''device:'' @ uu_text sample_device) ''x'' sample_row" "initial_notice sample_row ?q"
    "30 < rs_page_expires_at sample_row"
    by (simp_all add: owned_result_def initial_notice_def sample_row_def published_row_def sample_device_def
        sample_publication_def link_notice_row_def sample_notice_def Let_def sample_env_def sample_prepared_def)
  moreover have "db_outbox sample_published = [?q]" by (simp add: sample_published_def)
  ultimately obtain db1 where
    tx: "resend_transaction sample_libs sample_resend sample_service sample_device ''x'' ''req'' 30 sample_published = Inr db1"
    using l i
    by (simp add: resend_transaction_def count_where_def sample_sel insert_action_def resend_action_def sample_resend_def)
  obtain k where "k \<in> set (db_results db1)" "result_kept sample_row k"
    using results_kept_mem [OF resend_transaction_kept [OF tx]] by (auto simp: sample_sel)
  then obtain q where "receipt_for (''device:'' @ uu_text sample_device) ''x'' (Some 30) db1 = Inr (receipt_of 30 (k, q))"
    using receipt_for_owned [OF resend_transaction_inv [OF tx sample_inv(2)], of k _ _ "Some 30" 30]
      \<open>owned_result (''device:'' @ uu_text sample_device) ''x'' sample_row\<close>
    by (auto simp: owned_result_def result_kept_def result_now_def i64_bounds)
  then show ?thesis
    using tx sample_request
    by (intro that [of db1 "receipt_of 30 (k, q)"])
      (simp add: resend_def sample_resend_def result_now_def i64_bounds)
qed

theorem resend_is_idempotent_witness:
  "\<exists>db1 receipt. resend sample_libs sample_resend sample_service sample_device ''x'' ''req'' sample_published = (db1, Inr receipt)
     \<and> fst (resend sample_libs (sample_resend\<lparr>re_notification_id := ''note3''\<rparr>) sample_service sample_device ''x'' ''req'' db1) = db1"
proof (rule sample_resend_ok)
  fix db1 receipt
  assume r: "resend sample_libs sample_resend sample_service sample_device ''x'' ''req'' sample_published = (db1, Inr receipt)"
  then show ?thesis
    using resend_is_idempotent [OF sample_inv(2) r rtranclp.rtrancl_refl, of "sample_resend\<lparr>re_notification_id := ''note3''\<rparr>" 30]
    by (auto simp: sample_resend_def result_now_def i64_bounds)
qed

end
