(* ===== verification/Retention.thy ===== *)
theory Retention
  imports Result_Correct
begin

text \<open>
  The retention service of the relay (\<open>apps/server/src/retention.rs\<close>) with the purge of bundle bodies
  (\<open>outbox/bundles.rs\<close>): bounded batches that blank the bodies of expired results, keep the last
  delivery status of a result before its notice goes, and delete aged terminal rows of the outbox, the
  bundles, the inbound commands, the selections and the confirmations with the rows that depend on them.
  The clock, the cancellation and the database faults of each round are arguments; a write-ahead-log
  checkpoint changes no row and its result is discarded, so it has no counterpart here.
\<close>

section \<open>Data\<close>

definition retention_batch :: nat where "retention_batch = 500"

record retention_config =
  rc_accepted_days :: u32
  rc_dead_letter_days :: u32
  rc_inbound_terminal_days :: u32
  rc_inbound_expired_days :: u32

record retention_run_report =
  rp_outbox_deleted :: u64
  rp_inbound_deleted :: u64
  rp_selection_deleted :: u64
  rp_started_at :: i64
  rp_completed_at :: i64
  rp_completed :: bool

record round_result =
  rd_outbox :: u64
  rd_inbound :: u64
  rd_selections :: u64
  rd_confirmations :: u64

definition may_have_more :: "round_result \<Rightarrow> bool" where
  "may_have_more r =
     list_ex (\<lambda>deleted. deleted = of_nat retention_batch)
       [rd_outbox r, rd_inbound r, rd_selections r, rd_confirmations r]"

datatype retention_error = RetentionDatabase | RetentionClock

text \<open>The tables of the inbound side, with the columns retention reads.\<close>

datatype inbound_status = InReceived | InDispatching | InWaitingGateway | InReplyQueued | InExpired | InDeadLetter

record inbound_row =
  in_message_key :: string
  in_status :: inbound_status
  in_updated_at :: i64

record selection_row =
  sc_sender_fingerprint :: string
  sc_expires_at :: i64

record selection_entry =
  se_sender_fingerprint :: string
  se_slot :: i64

datatype dispatch_state =
  AwaitingConfirmation | DispatchLocked | DispatchPending | DispatchOutcome | DispatchFailed | DispatchCancelled

record confirmation_row =
  cc_confirmation_id :: string
  cc_sender_fingerprint :: string
  cc_expires_at :: i64
  cc_dispatch_state :: dispatch_state
  cc_dispatch_message_key :: "string option"

record retention_store =
  rn_relay :: relay_db
  rn_inbound :: "inbound_row list"
  rn_selections :: "selection_row list"
  rn_entries :: "selection_entry list"
  rn_confirmations :: "confirmation_row list"

text \<open>The n-th statement of a round fails when the flag of n is set.\<close>

type_synonym statement_faults = "nat \<Rightarrow> bool"

section \<open>Times\<close>

definition days_to_milliseconds :: "u32 \<Rightarrow> i64" where
  "days_to_milliseconds days = uint days * 24 * 60 * 60 * 1000"

definition retention_timestamp_ms :: "nat option \<Rightarrow> retention_error + i64" where
  "retention_timestamp_ms clock =
     (case clock of
        None \<Rightarrow> Inl RetentionClock
      | Some ms \<Rightarrow> if int ms \<le> i64_max then Inr (int ms) else Inl RetentionClock)"

section \<open>Bodies of results and bundles\<close>

definition purgeable_result :: "i64 \<Rightarrow> result_row \<Rightarrow> bool" where
  "purgeable_result now r \<longleftrightarrow> rs_body_purged_at r = None \<and> rs_body_retain_until r \<le> now"

definition purge_result :: "i64 \<Rightarrow> result_row \<Rightarrow> result_row" where
  "purge_result now r =
     r\<lparr>rs_body_ciphertext := None, rs_body_nonce := None, rs_body_purged_at := Some now,
       rs_updated_at := max (rs_updated_at r) now\<rparr>"

definition purge_results_at :: "i64 \<Rightarrow> relay_db \<Rightarrow> relay_db" where
  "purge_results_at now db =
     db\<lparr>db_results :=
         update_where
           (\<lambda>r. rs_id r \<in> selected retention_batch (purgeable_result now)
                             (\<lambda>r. (rs_body_retain_until r, rs_id r)) rs_id (db_results db))
           (purge_result now) (db_results db)\<rparr>"

definition purgeable_bundle :: "i64 \<Rightarrow> bundle_row \<Rightarrow> bool" where
  "purgeable_bundle now b \<longleftrightarrow>
     bn_body_purged_at b = None \<and> bn_body_retain_until b \<le> now
     \<and> bn_status b \<in> {BundleProviderAccepted, BundlePartialFailed, BundleExpired,
                      BundleBlockedTargetChanged, BundleDeliveryUnknown}"

definition purge_bundle :: "i64 \<Rightarrow> bundle_row \<Rightarrow> bundle_row" where
  "purge_bundle now b =
     b\<lparr>bn_body_ciphertext := None, bn_body_nonce := None, bn_body_purged_at := Some now,
       bn_updated_at := max (bn_updated_at b) now\<rparr>"

definition purge_bundle_content_at :: "i64 \<Rightarrow> nat \<Rightarrow> relay_db \<Rightarrow> relay_db \<times> nat" where
  "purge_bundle_content_at now limit db =
     (let hit = (\<lambda>b. bn_id b \<in> selected limit (purgeable_bundle now)
                                  (\<lambda>b. (bn_body_retain_until b, bn_id b)) bn_id (db_bundles db))
      in (db\<lparr>db_bundles := update_where hit (purge_bundle now) (db_bundles db)\<rparr>,
          count_where hit (db_bundles db)))"

section \<open>Aged rows\<close>

definition live_page :: "i64 \<Rightarrow> relay_db \<Rightarrow> outbox_row \<Rightarrow> bool" where
  "live_page now db q \<longleftrightarrow>
     list_ex (\<lambda>r. ob_result_row_id q = Some (rs_id r) \<and> rs_page_expires_at r > now) (db_results db)"

definition aged_notice :: "retention_config \<Rightarrow> i64 \<Rightarrow> relay_db \<Rightarrow> outbox_row \<Rightarrow> bool" where
  "aged_notice cfg now db q \<longleftrightarrow>
     (ob_result_row_id q = None \<or> \<not> live_page now db q)
     \<and> ((ob_status q \<in> {ProviderAccepted, Cancelled, Expired}
         \<and> ob_updated_at q < i64_sub now (days_to_milliseconds (rc_accepted_days cfg)))
        \<or> (ob_status q = DeadLetter
           \<and> ob_updated_at q < i64_sub now (days_to_milliseconds (rc_dead_letter_days cfg))))"

definition notice_order :: "outbox_row \<Rightarrow> i64 \<times> string" where
  "notice_order q = (ob_updated_at q, ob_id q)"

definition current_aged_notice :: "retention_config \<Rightarrow> i64 \<Rightarrow> relay_db \<Rightarrow> outbox_row \<Rightarrow> bool" where
  "current_aged_notice cfg now db q \<longleftrightarrow>
     (ob_result_row_id q \<noteq> None
      \<and> ob_notification_id q \<in> set (map rs_current_notification_id (db_results db)))
     \<and> aged_notice cfg now db q"

text \<open>
  Before the notice of a result goes, the result takes its last status. The scalar subquery gives NULL
  when the result has no current notice, which the column refuses: the statement then fails.
\<close>

definition last_status :: "relay_db \<Rightarrow> result_row \<Rightarrow> delivery_status option" where
  "last_status db r = map_option ob_status (first_row (filter (current_notice r) (db_outbox db)))"

definition keep_last_status :: "i64 \<Rightarrow> relay_db \<Rightarrow> result_row \<Rightarrow> result_row" where
  "keep_last_status now db r =
     (case last_status db r of
        None \<Rightarrow> r
      | Some s \<Rightarrow> r\<lparr>rs_notification_status := s, rs_updated_at := max (rs_updated_at r) now\<rparr>)"

definition keep_last_statuses :: "retention_config \<Rightarrow> i64 \<Rightarrow> relay_db \<Rightarrow> relay_db option" where
  "keep_last_statuses cfg now db =
     (let hit = (\<lambda>r. Some (rs_id r) \<in> selected retention_batch (current_aged_notice cfg now db) notice_order
                                         ob_result_row_id (db_outbox db))
      in if list_ex (\<lambda>r. hit r \<and> last_status db r = None) (db_results db) then None
         else Some (db\<lparr>db_results := update_where hit (keep_last_status now db) (db_results db)\<rparr>))"

definition delete_aged_notices :: "retention_config \<Rightarrow> i64 \<Rightarrow> relay_db \<Rightarrow> relay_db \<times> nat" where
  "delete_aged_notices cfg now db =
     (let hit = (\<lambda>q. ob_id q \<in> selected retention_batch (aged_notice cfg now db) notice_order ob_id
                                  (db_outbox db))
      in (db\<lparr>db_outbox := delete_where hit (db_outbox db)\<rparr>, count_where hit (db_outbox db)))"

definition aged_bundle :: "retention_config \<Rightarrow> i64 \<Rightarrow> bundle_row \<Rightarrow> bool" where
  "aged_bundle cfg now b \<longleftrightarrow>
     (bn_status b \<in> {BundleProviderAccepted, BundleExpired}
      \<and> bn_updated_at b < i64_sub now (days_to_milliseconds (rc_accepted_days cfg)))
     \<or> (bn_status b \<in> {BundlePartialFailed, BundleBlockedTargetChanged, BundleDeliveryUnknown}
        \<and> bn_updated_at b < i64_sub now (days_to_milliseconds (rc_dead_letter_days cfg)))"

definition delete_aged_bundles :: "retention_config \<Rightarrow> i64 \<Rightarrow> relay_db \<Rightarrow> relay_db \<times> nat" where
  "delete_aged_bundles cfg now db =
     (let ids = selected retention_batch (aged_bundle cfg now) (\<lambda>b. (bn_updated_at b, bn_id b)) bn_id
                  (db_bundles db)
      in (db\<lparr>db_bundles := delete_where (\<lambda>b. bn_id b \<in> ids) (db_bundles db),
             db_segments := delete_where (\<lambda>g. sg_bundle_row_id g \<in> ids) (db_segments db)\<rparr>,
          count_where (\<lambda>b. bn_id b \<in> ids) (db_bundles db)))"

section \<open>The statements of a round\<close>

text \<open>
  Statement 0 purges results, 1 purges bundles, 2 is the transaction on the outbox, which changes
  nothing when it fails, 3 deletes bundles, 4 inbound commands, 5 selections and 6 confirmations.
\<close>

definition delete_outbox_at ::
  "retention_config \<Rightarrow> statement_faults \<Rightarrow> i64 \<Rightarrow> retention_store
     \<Rightarrow> (retention_store, retention_error, u64) effect" where
  "delete_outbox_at cfg fl now st =
     (if fl 0 then (st, Inl RetentionDatabase)
      else let st = st\<lparr>rn_relay := purge_results_at now (rn_relay st)\<rparr> in
        if fl 1 then (st, Inl RetentionDatabase)
        else let st = st\<lparr>rn_relay := fst (purge_bundle_content_at now retention_batch (rn_relay st))\<rparr> in
          if fl 2 then (st, Inl RetentionDatabase)
          else case keep_last_statuses cfg now (rn_relay st) of
            None \<Rightarrow> (st, Inl RetentionDatabase)
          | Some db \<Rightarrow>
              let (db, outbox_deleted) = delete_aged_notices cfg now db;
                  st = st\<lparr>rn_relay := db\<rparr>
              in if fl 3 then (st, Inl RetentionDatabase)
                 else let (db, bundles_deleted) = delete_aged_bundles cfg now db
                      in (st\<lparr>rn_relay := db\<rparr>, Inr (of_nat outbox_deleted + of_nat bundles_deleted)))"

definition aged_command :: "retention_config \<Rightarrow> i64 \<Rightarrow> inbound_row \<Rightarrow> bool" where
  "aged_command cfg now c \<longleftrightarrow>
     (in_status c \<in> {InReplyQueued, InDeadLetter}
      \<and> in_updated_at c < i64_sub now (days_to_milliseconds (rc_inbound_terminal_days cfg)))
     \<or> (in_status c = InExpired
        \<and> in_updated_at c < i64_sub now (days_to_milliseconds (rc_inbound_expired_days cfg)))"

definition delete_inbound_at ::
  "retention_config \<Rightarrow> statement_faults \<Rightarrow> i64 \<Rightarrow> retention_store
     \<Rightarrow> (retention_store, retention_error, u64) effect" where
  "delete_inbound_at cfg fl now st =
     (if fl 4 then (st, Inl RetentionDatabase)
      else let keys = selected retention_batch (aged_command cfg now)
                        (\<lambda>c. (in_updated_at c, in_message_key c)) in_message_key (rn_inbound st)
           in (st\<lparr>rn_inbound := delete_where (\<lambda>c. in_message_key c \<in> keys) (rn_inbound st),
                  rn_confirmations :=
                    delete_where (\<lambda>f. is_some_and (\<lambda>k. k \<in> keys) (cc_dispatch_message_key f))
                      (rn_confirmations st)\<rparr>,
               Inr (of_nat (count_where (\<lambda>c. in_message_key c \<in> keys) (rn_inbound st)))))"

definition expired_selection :: "i64 \<Rightarrow> selection_row \<Rightarrow> bool" where
  "expired_selection now s \<longleftrightarrow> sc_expires_at s \<le> now"

definition expired_confirmation :: "i64 \<Rightarrow> confirmation_row \<Rightarrow> bool" where
  "expired_confirmation now f \<longleftrightarrow> cc_expires_at f \<le> now \<and> cc_dispatch_state f \<noteq> DispatchPending"

definition delete_selections_at ::
  "statement_faults \<Rightarrow> i64 \<Rightarrow> retention_store \<Rightarrow> (retention_store, retention_error, u64 \<times> u64) effect" where
  "delete_selections_at fl now st =
     (if fl 5 then (st, Inl RetentionDatabase)
      else
        let senders = selected retention_batch (expired_selection now)
                        (\<lambda>s. (sc_expires_at s, sc_sender_fingerprint s)) sc_sender_fingerprint
                        (rn_selections st);
            selections = count_where (\<lambda>s. sc_sender_fingerprint s \<in> senders) (rn_selections st);
            st = st\<lparr>rn_selections := delete_where (\<lambda>s. sc_sender_fingerprint s \<in> senders) (rn_selections st),
                    rn_entries := delete_where (\<lambda>e. se_sender_fingerprint e \<in> senders) (rn_entries st)\<rparr>
        in if fl 6 then (st, Inl RetentionDatabase)
           else
             let ids = selected retention_batch (expired_confirmation now)
                         (\<lambda>f. (cc_expires_at f, cc_sender_fingerprint f, cc_confirmation_id f))
                         cc_confirmation_id (rn_confirmations st);
                 confirmations = count_where (\<lambda>f. cc_confirmation_id f \<in> ids) (rn_confirmations st)
             in (st\<lparr>rn_confirmations :=
                      delete_where (\<lambda>f. cc_confirmation_id f \<in> ids) (rn_confirmations st)\<rparr>,
                 Inr (of_nat selections, of_nat confirmations)))"

section \<open>Rounds and runs\<close>

text \<open>What surrounds one round: the clock, the cancellation at its four checks, the faults.\<close>

record round_env =
  re_clock :: "nat option"
  re_cancelled :: "nat \<Rightarrow> bool"
  re_faults :: statement_faults

definition no_round :: round_result where
  "no_round = \<lparr>rd_outbox = 0, rd_inbound = 0, rd_selections = 0, rd_confirmations = 0\<rparr>"

definition run_round_at ::
  "retention_config \<Rightarrow> round_env \<Rightarrow> i64 \<Rightarrow> retention_store
     \<Rightarrow> (retention_store, retention_error, round_result) effect" where
  "run_round_at cfg E now st =
     (if re_cancelled E 1 then (st, Inr no_round)
      else st_then (delete_outbox_at cfg (re_faults E) now st) (\<lambda>st outbox.
        if re_cancelled E 2 then (st, Inr (no_round\<lparr>rd_outbox := outbox\<rparr>))
        else st_then (delete_inbound_at cfg (re_faults E) now st) (\<lambda>st inbound.
          if re_cancelled E 3 then (st, Inr (no_round\<lparr>rd_outbox := outbox, rd_inbound := inbound\<rparr>))
          else st_then (delete_selections_at (re_faults E) now st) (\<lambda>st counts.
            (st, Inr \<lparr>rd_outbox = outbox, rd_inbound = inbound, rd_selections = fst counts,
                      rd_confirmations = snd counts\<rparr>)))))"

definition add_round :: "round_result \<Rightarrow> retention_run_report \<Rightarrow> retention_run_report" where
  "add_round r rep =
     rep\<lparr>rp_outbox_deleted := u_saturating_add (rp_outbox_deleted rep) (rd_outbox r),
         rp_inbound_deleted := u_saturating_add (rp_inbound_deleted rep) (rd_inbound r),
         rp_selection_deleted := u_saturating_add (rp_selection_deleted rep) (rd_selections r)\<rparr>"

text \<open>The loop of \<open>run_once\<close>; \<open>None\<close> stands for a run that does not end.\<close>

partial_function (option) retention_loop ::
  "retention_config \<Rightarrow> (nat \<Rightarrow> round_env) \<Rightarrow> nat \<Rightarrow> retention_run_report \<Rightarrow> retention_store
     \<Rightarrow> (retention_store, retention_error, retention_run_report) effect option" where
  "retention_loop cfg E k rep st =
     (if re_cancelled (E k) 0 then Some (st, Inr rep)
      else case retention_timestamp_ms (re_clock (E k)) of
        Inl e \<Rightarrow> Some (st, Inl e)
      | Inr now \<Rightarrow>
          (case run_round_at cfg (E k) now st of
             (st', r) \<Rightarrow>
               (case r of
                  Inl e \<Rightarrow> Some (st', Inl e)
                | Inr res \<Rightarrow>
                    if \<not> may_have_more res then Some (st', Inr ((add_round res rep)\<lparr>rp_completed := True\<rparr>))
                    else retention_loop cfg E (Suc k) (add_round res rep) st')))"

record retention_pass =
  pe_start :: "nat option"
  pe_cancelled :: bool
  pe_rounds :: "nat \<Rightarrow> round_env"
  pe_end :: "nat option"

definition retention_started :: "i64 \<Rightarrow> retention_run_report" where
  "retention_started t =
     \<lparr>rp_outbox_deleted = 0, rp_inbound_deleted = 0, rp_selection_deleted = 0, rp_started_at = t,
      rp_completed_at = t, rp_completed = False\<rparr>"

definition run_once ::
  "retention_config \<Rightarrow> retention_pass \<Rightarrow> retention_store
     \<Rightarrow> (retention_store, retention_error, retention_run_report) effect option" where
  "run_once cfg P st =
     (case retention_timestamp_ms (pe_start P) of
        Inl e \<Rightarrow> Some (st, Inl e)
      | Inr started_at \<Rightarrow>
          if pe_cancelled P then Some (st, Inr (retention_started started_at))
          else map_option (\<lambda>m. st_then m (\<lambda>st rep.
                 (st, and_then (retention_timestamp_ms (pe_end P)) (\<lambda>now.
                        Inr (rep\<lparr>rp_completed_at := max now (rp_started_at rep)\<rparr>)))))
               (retention_loop cfg (pe_rounds P) 0 (retention_started started_at) st))"

text \<open>
  The service task: a pass at the start, then one per tick until the token is cancelled or a pass fails.
  The list holds what the select statement chose so far; the count is that of completed passes.
\<close>

datatype retention_event = CancelledEvent | TickEvent retention_pass

definition progress_pass ::
  "retention_config \<Rightarrow> retention_pass \<Rightarrow> nat \<Rightarrow> retention_store
     \<Rightarrow> (retention_store \<times> nat \<times> (retention_error + unit)) option" where
  "progress_pass cfg P n st =
     map_option (\<lambda>(st, r). case r of
         Inl e \<Rightarrow> (st, n, Inl e)
       | Inr rep \<Rightarrow> (st, if rp_completed rep then Suc n else n, Inr ()))
       (run_once cfg P st)"

fun retention_ticks ::
  "retention_config \<Rightarrow> retention_event list \<Rightarrow> nat \<Rightarrow> retention_store
     \<Rightarrow> (retention_store \<times> nat \<times> (retention_error + unit) option) option" where
  "retention_ticks cfg [] n st = Some (st, n, None)"
| "retention_ticks cfg (CancelledEvent # _) n st = Some (st, n, Some (Inr ()))"
| "retention_ticks cfg (TickEvent P # ticks) n st =
     Option.bind (progress_pass cfg P n st) (\<lambda>(st, n, r).
       case r of Inl e \<Rightarrow> Some (st, n, Some (Inl e)) | Inr _ \<Rightarrow> retention_ticks cfg ticks n st)"

definition run_with_progress ::
  "retention_config \<Rightarrow> retention_pass \<Rightarrow> retention_event list \<Rightarrow> retention_store
     \<Rightarrow> (retention_store \<times> nat \<times> (retention_error + unit) option) option" where
  "run_with_progress cfg P ticks st = retention_ticks cfg (TickEvent P # ticks) 0 st"

end
