(* ===== verification/Retention_Correct.thy ===== *)
theory Retention_Correct
  imports Retention
begin

text \<open>
  What a retention run keeps: the delivery status shown by every receipt, the results whose page
  is still open with their notices, and every notification that is not in a terminal state. A
  run always ends; the test for a full batch can end it too early.
\<close>

definition shown_status :: "relay_db \<Rightarrow> result_row \<Rightarrow> delivery_status" where
  "shown_status db r = (case last_status db r of Some s \<Rightarrow> s | None \<Rightarrow> rs_notification_status r)"

definition result_identity :: "result_row \<Rightarrow> string \<times> string \<times> string \<times> string \<times> i64" where
  "result_identity r =
     (rs_id r, rs_origin_key r, rs_result_id r, rs_current_notification_id r, rs_page_expires_at r)"

text \<open>The results stay in place and show the same status.\<close>

definition status_kept :: "relay_db \<Rightarrow> relay_db \<Rightarrow> bool" where
  "status_kept db db' \<longleftrightarrow>
     (\<exists>g. db_results db' = map g (db_results db)
        \<and> (\<forall>r \<in> set (db_results db).
              result_identity (g r) = result_identity r \<and> rs_updated_at r \<le> rs_updated_at (g r)
              \<and> shown_status db' (g r) = shown_status db r))"

definition relay_inv :: "relay_db \<Rightarrow> bool" where
  "relay_inv db \<longleftrightarrow> schema_inv db \<and> result_inv db"

text \<open>A round deletes at least as many rows as it reports.\<close>

definition retention_rows :: "retention_store \<Rightarrow> nat" where
  "retention_rows st =
     length (db_outbox (rn_relay st)) + length (db_bundles (rn_relay st)) + length (rn_inbound st)
     + length (rn_selections st) + length (rn_confirmations st)"


section \<open>Demonstration data\<close>

definition demo_config :: retention_config where
  "demo_config = \<lparr>rc_accepted_days = 0, rc_dead_letter_days = 0, rc_inbound_terminal_days = 0, rc_inbound_expired_days = 0\<rparr>"

definition demo_pass :: "nat \<Rightarrow> retention_pass" where
  "demo_pass t =
     \<lparr>pe_start = Some t, pe_cancelled = False,
      pe_rounds = (\<lambda>_. \<lparr>re_clock = Some t, re_cancelled = (\<lambda>_. False), re_faults = (\<lambda>_. False)\<rparr>),
      pe_end = Some t\<rparr>"

definition demo_store :: "relay_db \<Rightarrow> retention_store" where
  "demo_store db = \<lparr>rn_relay = db, rn_inbound = [], rn_selections = [], rn_entries = [], rn_confirmations = []\<rparr>"

definition demo_delivered :: relay_db where
  "demo_delivered = sample_published\<lparr>db_outbox := [(link_notice_row sample_notice)\<lparr>ob_status := ProviderAccepted\<rparr>]\<rparr>"

definition demo_aged_row :: "nat \<Rightarrow> outbox_row" where
  "demo_aged_row i = demo_row\<lparr>ob_id := replicate i (CHR ''x''), ob_status := Expired\<rparr>"

definition demo_bundle :: bundle_row where
  "demo_bundle = \<lparr>bn_id = ''b'', bn_origin_key = ''device:d1'', bn_origin_device_id = ''d1'', bn_bundle_id = ''b1'',
     bn_dedupe_key = ''k'', bn_request_digest = replicate 32 (CHR ''q''), bn_kind = ''run_completed'',
     bn_content_mode = ''full_final'', bn_source = ''codex_stop'', bn_correlation_key = ''c'', bn_result_revision = 1,
     bn_title = ''t'', bn_body_ciphertext = None, bn_body_nonce = None, bn_body_bytes = 1,
     bn_source_hash = replicate 64 (CHR ''a''), bn_target_account_fingerprint = sample_target,
     bn_status = BundleExpired, bn_segment_count = 1, bn_accepted_segments = 0, bn_accepted_at = 0,
     bn_created_at = 0, bn_expires_at = 1, bn_updated_at = 0, bn_body_retain_until = 0, bn_body_purged_at = Some 0\<rparr>"

definition demo_many :: relay_db where
  "demo_many = demo_db\<lparr>db_outbox := map demo_aged_row [0..<501], db_bundles := [demo_bundle]\<rparr>"

section \<open>Lemmas\<close>

section \<open>Lemmas\<close>

lemma status_keptI:
  assumes "db_results db' = map g (db_results db)"
    and "\<And>r. r \<in> set (db_results db) \<Longrightarrow> result_identity (g r) = result_identity r"
    and "\<And>r. r \<in> set (db_results db) \<Longrightarrow> rs_updated_at r \<le> rs_updated_at (g r)"
    and "\<And>r. r \<in> set (db_results db) \<Longrightarrow> shown_status db' (g r) = shown_status db r"
  shows "status_kept db db'"
  unfolding status_kept_def using assms by blast

lemma status_kept_trans:
  assumes "status_kept db db'" "status_kept db' db''"
  shows "status_kept db db''"
proof -
  obtain g where g: "db_results db' = map g (db_results db)"
    "\<forall>r \<in> set (db_results db). result_identity (g r) = result_identity r
       \<and> rs_updated_at r \<le> rs_updated_at (g r) \<and> shown_status db' (g r) = shown_status db r"
    using assms(1) unfolding status_kept_def by blast
  obtain h where h: "db_results db'' = map h (db_results db')"
    "\<forall>r \<in> set (db_results db'). result_identity (h r) = result_identity r
       \<and> rs_updated_at r \<le> rs_updated_at (h r) \<and> shown_status db'' (h r) = shown_status db' r"
    using assms(2) unfolding status_kept_def by blast
  have "db_results db'' = map (h \<circ> g) (db_results db)" by (simp add: h(1) g(1))
  then show ?thesis
  proof (rule status_keptI)
    fix r assume r: "r \<in> set (db_results db)"
    then have "g r \<in> set (db_results db')" by (simp add: g(1))
    note gr = bspec [OF g(2) r] bspec [OF h(2) this]
    show "result_identity ((h \<circ> g) r) = result_identity r" using gr by (simp only: o_apply)
    show "rs_updated_at r \<le> rs_updated_at ((h \<circ> g) r)" using gr unfolding o_apply by linarith
    show "shown_status db'' ((h \<circ> g) r) = shown_status db r" using gr by (simp only: o_apply)
  qed
qed

lemma current_notice_cong: "result_identity r' = result_identity r \<Longrightarrow> current_notice r' = current_notice r"
  by (auto simp: result_identity_def current_notice_def)

lemma last_status_cong:
  "result_identity r' = result_identity r \<Longrightarrow> db_outbox db' = db_outbox db \<Longrightarrow> last_status db' r' = last_status db r"
  unfolding last_status_def by (drule current_notice_cong) (simp only:)

lemma status_kept_same:
  assumes "db_results db' = db_results db" "db_outbox db' = db_outbox db"
  shows "status_kept db db'"
proof (rule status_keptI [where g = id])
  show "shown_status db' (id r) = shown_status db r" for r
    unfolding shown_status_def id_apply by (simp only: last_status_cong [OF refl assms(2)])
qed (simp_all add: assms)

lemma status_kept_purge: "status_kept db (purge_results_at now db)"
proof (rule status_keptI)
  define hit where "hit r \<longleftrightarrow> rs_id r \<in> selected retention_batch (purgeable_result now)
      (\<lambda>r. (rs_body_retain_until r, rs_id r)) rs_id (db_results db)" for r :: result_row
  show "db_results (purge_results_at now db) = map (\<lambda>r. if hit r then purge_result now r else r) (db_results db)"
    by (simp add: purge_results_at_def update_where_def hit_def)
  fix r :: result_row
  show i: "result_identity (if hit r then purge_result now r else r) = result_identity r"
    by (simp add: result_identity_def purge_result_def)
  show "rs_updated_at r \<le> rs_updated_at (if hit r then purge_result now r else r)"
    by (simp add: purge_result_def)
  have "last_status (purge_results_at now db) (if hit r then purge_result now r else r) = last_status db r"
    using i by (rule last_status_cong) (simp add: purge_results_at_def)
  moreover have "rs_notification_status (if hit r then purge_result now r else r) = rs_notification_status r"
    by (simp add: purge_result_def)
  ultimately show "shown_status (purge_results_at now db) (if hit r then purge_result now r else r) = shown_status db r"
    unfolding shown_status_def by (simp only:)
qed

lemma status_kept_bundles:
  "status_kept db (fst (purge_bundle_content_at now n db))" "status_kept db (fst (delete_aged_bundles cfg now db))"
  by (rule status_kept_same; simp add: purge_bundle_content_at_def delete_aged_bundles_def Let_def)+

text \<open>A result has at most one current notice.\<close>

lemma current_notice_unique:
  assumes "result_inv db" "r \<in> set (db_results db)"
    and "q \<in> set (db_outbox db)" "q' \<in> set (db_outbox db)" "current_notice r q" "current_notice r q'"
  shows "q' = q"
proof -
  obtain x where "join_notice db r = [(r, x)]" using join_notice_single [OF assms(1,2)] by blast
  then have "length (filter (current_notice r) (db_outbox db)) \<le> 1"
    by (auto simp: join_notice_def split: list.splits)
  moreover have "q \<in> set (filter (current_notice r) (db_outbox db))"
    "q' \<in> set (filter (current_notice r) (db_outbox db))" using assms(3-6) by simp_all
  moreover have "y = x" if "length xs \<le> 1" "x \<in> set xs" "y \<in> set xs" for x y :: outbox_row and xs
    using that by (cases xs; cases "tl xs") simp_all
  ultimately show ?thesis by blast
qed

lemma last_status_unique:
  assumes "result_inv db" "r \<in> set (db_results db)" "q \<in> set (db_outbox db)" "current_notice r q"
  shows "last_status db r = Some (ob_status q)"
proof -
  have "q \<in> set (filter (current_notice r) (db_outbox db))" using assms(3,4) by simp
  then obtain x xs where x: "filter (current_notice r) (db_outbox db) = x # xs"
    by (cases "filter (current_notice r) (db_outbox db)") auto
  then have "x \<in> set (filter (current_notice r) (db_outbox db))" by (simp only: list.set_intros(1))
  then have "x \<in> set (db_outbox db)" "current_notice r x" by simp_all
  then have "x = q" using current_notice_unique [OF assms(1,2,3)] assms(4) by blast
  then show ?thesis by (simp add: last_status_def x)
qed

lemma last_status_None: "last_status db r = None \<longleftrightarrow> (\<forall>q \<in> set (db_outbox db). \<not> current_notice r q)"
  by (simp add: last_status_def filter_empty_conv)

lemma keep_last_status_identity: "result_identity (keep_last_status now db r) = result_identity r"
  by (simp add: keep_last_status_def result_identity_def split: option.split)

lemma keep_last_status_updated: "rs_updated_at r \<le> rs_updated_at (keep_last_status now db r)"
  by (simp add: keep_last_status_def split: option.split)

lemma keep_last_statuses_Some:
  assumes "keep_last_statuses cfg now db = Some db'"
  obtains hit :: "result_row \<Rightarrow> bool" where
    "hit = (\<lambda>r. Some (rs_id r) \<in> selected retention_batch (current_aged_notice cfg now db) notice_order
                                   ob_result_row_id (db_outbox db))"
    "\<forall>r \<in> set (db_results db). hit r \<longrightarrow> last_status db r \<noteq> None"
    "db' = db\<lparr>db_results := map (\<lambda>r. if hit r then keep_last_status now db r else r) (db_results db)\<rparr>"
  using assms
  by (auto simp: keep_last_statuses_def Let_def update_where_def list_ex_iff split: if_splits)

lemma live_page_identity:
  assumes "db_results db' = map g (db_results db)"
    and "\<And>r. r \<in> set (db_results db) \<Longrightarrow> result_identity (g r) = result_identity r"
  shows "live_page now db' q = live_page now db q"
proof -
  have "rs_id (g r) = rs_id r \<and> rs_page_expires_at (g r) = rs_page_expires_at r"
    if "r \<in> set (db_results db)" for r using assms(2) [OF that] by (simp add: result_identity_def)
  then show ?thesis unfolding live_page_def assms(1) list_ex_iff set_map by (auto; metis)
qed

lemma aged_notice_identity:
  assumes "db_results db' = map g (db_results db)"
    and "\<And>r. r \<in> set (db_results db) \<Longrightarrow> result_identity (g r) = result_identity r"
  shows "aged_notice cfg now db' = aged_notice cfg now db"
proof
  fix q
  have "live_page now db' q = live_page now db q" using assms by (rule live_page_identity)
  then show "aged_notice cfg now db' q = aged_notice cfg now db q" by (simp only: aged_notice_def)
qed

lemma status_kept_delete:
  assumes inv: "result_inv db" "distinct (map ob_id (db_outbox db))"
    and keep: "keep_last_statuses cfg now db = Some db'"
  shows "status_kept db (fst (delete_aged_notices cfg now db'))"
proof -
  obtain hit :: "result_row \<Rightarrow> bool" where hit: "hit = (\<lambda>r. Some (rs_id r) \<in> selected retention_batch
      (current_aged_notice cfg now db) notice_order ob_result_row_id (db_outbox db))"
    and some: "\<forall>r \<in> set (db_results db). hit r \<longrightarrow> last_status db r \<noteq> None"
    and db': "db' = db\<lparr>db_results := map (\<lambda>r. if hit r then keep_last_status now db r else r) (db_results db)\<rparr>"
    using keep by (rule keep_last_statuses_Some)
  let ?g = "\<lambda>r. if hit r then keep_last_status now db r else r"
  let ?db = "fst (delete_aged_notices cfg now db')"
  let ?gone = "\<lambda>q. ob_id q \<in> selected retention_batch (aged_notice cfg now db) notice_order ob_id (db_outbox db)"
  have g: "result_identity (?g r) = result_identity r" for r
    using keep_last_status_identity by simp
  have aged: "aged_notice cfg now db' = aged_notice cfg now db"
    by (rule aged_notice_identity [where g = ?g]) (simp_all add: db' keep_last_status_identity)
  have out: "db_outbox ?db = delete_where ?gone (db_outbox db)"
    unfolding delete_aged_notices_def Let_def aged by (simp add: db')
  show ?thesis
  proof (rule status_keptI [where g = ?g])
    show "db_results ?db = map ?g (db_results db)" by (simp add: delete_aged_notices_def Let_def db')
    fix r assume r: "r \<in> set (db_results db)"
    show "result_identity (?g r) = result_identity r" by (rule g)
    show "rs_updated_at r \<le> rs_updated_at (?g r)" by (simp add: keep_last_status_updated)
    have cn: "current_notice (?g r) = current_notice r" using g by (rule current_notice_cong)
    show "shown_status ?db (?g r) = shown_status db r"
    proof (cases "last_status db r")
      case None
      with some r have "\<not> hit r" by blast
      moreover have "last_status ?db r = None"
        using None by (simp add: last_status_None out)
      ultimately show ?thesis by (simp add: shown_status_def None)
    next
      case (Some s)
      then obtain q where q: "q \<in> set (db_outbox db)" "current_notice r q"
        using last_status_None [of db r] by auto
      have s: "s = ob_status q" using last_status_unique [OF inv(1) r q] Some by simp
      show ?thesis
      proof (cases "?gone q")
        case True
        then have "q \<in> set (take retention_batch (select_ordered (aged_notice cfg now db) notice_order (db_outbox db)))"
          using selected_iff [OF inv(2) q(1)] by blast
        moreover have "ob_result_row_id q \<noteq> None
            \<and> ob_notification_id q \<in> set (map rs_current_notification_id (db_results db))"
          using q(2) r by (auto simp: current_notice_def)
        ultimately have "q \<in> set (take retention_batch (select_ordered (current_aged_notice cfg now db)
            notice_order (db_outbox db)))"
          unfolding current_aged_notice_def by (rule select_narrower)
        then have "hit r" using q(2) unfolding hit selected_def by (force simp: current_notice_def)
        moreover have "last_status ?db (?g r) = None"
          unfolding last_status_None cn out
          using current_notice_unique [OF inv(1) r q(1) _ q(2)] True by auto
        ultimately show ?thesis by (simp add: shown_status_def Some keep_last_status_def)
      next
        case False
        then have "last_status ?db (?g r) \<noteq> None"
          unfolding last_status_None cn out using q by auto
        then obtain s' where s': "last_status ?db (?g r) = Some s'" by blast
        have "s' = s"
        proof -
          obtain q' where q': "q' \<in> set (db_outbox ?db)" "current_notice r q'" "s' = ob_status q'"
            using s' unfolding last_status_def cn by (auto dest: first_row_filterD)
          then have "q' = q" using current_notice_unique [OF inv(1) r q(1) _ q(2)] by (simp add: out)
          with q' s show ?thesis by simp
        qed
        then show ?thesis by (simp add: shown_status_def s' Some)
      qed
    qed
  qed
qed

lemma results_with_notice_first:
  "receipt_for o' rid clock db =
     (case filter (\<lambda>r. rs_origin_key r = o' \<and> rs_result_id r = rid) (db_results db) of
        [] \<Rightarrow> Inl RNotFound
      | r # _ \<Rightarrow> and_then (result_now clock) (\<lambda>observed.
                 Inr (receipt_of observed (r, first_row (filter (current_notice r) (db_outbox db))))))"
proof (cases "filter (\<lambda>r. rs_origin_key r = o' \<and> rs_result_id r = rid) (db_results db)")
  case Nil
  then show ?thesis by (simp add: receipt_for_def results_with_notice_def)
next
  case (Cons r rs)
  obtain rqs where "join_notice db r = (r, first_row (filter (current_notice r) (db_outbox db))) # rqs"
    by (cases "filter (current_notice r) (db_outbox db)") (simp_all add: join_notice_def first_row_def)
  then show ?thesis by (simp add: receipt_for_def results_with_notice_def Cons)
qed

lemma receipt_kept:
  assumes "status_kept db db'" "receipt_for o' rid clock db = Inr rec"
  shows "\<exists>rec'. receipt_for o' rid clock db' = Inr rec'
           \<and> rr_notification_status rec' = rr_notification_status rec
           \<and> rr_notification_id rec' = rr_notification_id rec \<and> rr_updated_at rec \<le> rr_updated_at rec'"
proof -
  let ?p = "\<lambda>r. rs_origin_key r = o' \<and> rs_result_id r = rid"
  obtain g where g: "db_results db' = map g (db_results db)"
    "\<forall>r \<in> set (db_results db). result_identity (g r) = result_identity r
       \<and> rs_updated_at r \<le> rs_updated_at (g r) \<and> shown_status db' (g r) = shown_status db r"
    using assms(1) unfolding status_kept_def by blast
  obtain r rs t where f: "filter ?p (db_results db) = r # rs"
    and t: "result_now clock = Inr t"
      "rec = receipt_of t (r, first_row (filter (current_notice r) (db_outbox db)))"
    using assms(2) unfolding results_with_notice_first
    by (auto simp: and_then_eq_Inr split: list.splits)
  have "r \<in> set (filter ?p (db_results db))" by (simp add: f)
  then have gr: "result_identity (g r) = result_identity r" "rs_updated_at r \<le> rs_updated_at (g r)"
    "shown_status db' (g r) = shown_status db r" using g(2) by simp_all
  have "?p (g x) = ?p x" if "x \<in> set (db_results db)" for x
    using g(2) that by (simp add: result_identity_def)
  then have "filter ?p (db_results db') = map g (filter ?p (db_results db))"
    unfolding g(1) filter_map o_def by (simp cong: filter_cong)
  then have f': "filter ?p (db_results db') = g r # map g rs" by (simp add: f)
  have st: "joined_status (x, first_row (filter (current_notice x) (db_outbox d))) = shown_status d x" for x d
    by (cases "first_row (filter (current_notice x) (db_outbox d))")
      (simp_all add: joined_status_def shown_status_def last_status_def)
  show ?thesis
    unfolding results_with_notice_first f' list.case t and_then_simps
    using gr st by (simp add: receipt_of_def Let_def result_identity_def le_max_iff_disj)
qed

lemma delete_outbox_at_stages:
  assumes "P (rn_relay st)" "\<And>db. P db \<Longrightarrow> P (purge_results_at now db)"
    and "\<And>db. P db \<Longrightarrow> P (fst (purge_bundle_content_at now retention_batch db))"
    and "\<And>db db'. P db \<Longrightarrow> keep_last_statuses cfg now db = Some db' \<Longrightarrow> P (fst (delete_aged_notices cfg now db'))"
    and "\<And>db. P db \<Longrightarrow> P (fst (delete_aged_bundles cfg now db))"
  shows "P (rn_relay (fst (delete_outbox_at cfg fl now st)))"
proof -
  define db1 where "db1 = purge_results_at now (rn_relay st)"
  define db2 where "db2 = fst (purge_bundle_content_at now retention_batch db1)"
  have p: "P db1" "P db2" using assms(1-3) by (simp_all add: db1_def db2_def)
  show ?thesis
  proof (cases "keep_last_statuses cfg now db2")
    case None
    then show ?thesis using assms(1) p
      by (simp add: delete_outbox_at_def Let_def flip: db1_def db2_def)
  next
    case (Some db3)
    define db4 n where "db4 = fst (delete_aged_notices cfg now db3)" and "n = snd (delete_aged_notices cfg now db3)"
    define db5 m where "db5 = fst (delete_aged_bundles cfg now db4)" and "m = snd (delete_aged_bundles cfg now db4)"
    have "delete_aged_notices cfg now db3 = (db4, n)" "delete_aged_bundles cfg now db4 = (db5, m)"
      by (simp_all add: db4_def n_def db5_def m_def)
    moreover have "P db4" using assms(4) [OF p(2) Some] by (simp add: db4_def)
    moreover from this have "P db5" using assms(5) by (simp add: db5_def)
    ultimately show ?thesis using assms(1) p
      by (simp add: delete_outbox_at_def Let_def Some flip: db1_def db2_def)
  qed
qed

lemma relay_st_then:
  assumes "rn_relay (fst m) = rn_relay s" "\<And>s' v. rn_relay (fst (f s' v)) = rn_relay s'"
  shows "rn_relay (fst (st_then m f)) = rn_relay s"
  using assms by (cases m; cases "snd m") simp_all

lemma inbound_relay [simp]: "rn_relay (fst (delete_inbound_at cfg fl now s)) = rn_relay s"
  by (simp add: delete_inbound_at_def Let_def)

lemma selections_relay [simp]: "rn_relay (fst (delete_selections_at fl now s)) = rn_relay s"
  by (simp add: delete_selections_at_def Let_def)

lemma run_round_relay:
  "rn_relay (fst (run_round_at cfg E now st)) = rn_relay st
   \<or> rn_relay (fst (run_round_at cfg E now st)) = rn_relay (fst (delete_outbox_at cfg (re_faults E) now st))"
proof (cases "re_cancelled E 1")
  case True
  then show ?thesis by (simp add: run_round_at_def)
next
  case False
  have "rn_relay (fst (run_round_at cfg E now st)) = rn_relay (fst (delete_outbox_at cfg (re_faults E) now st))"
    unfolding run_round_at_def using False
    by (simp only: if_False, intro relay_st_then refl) (auto intro!: relay_st_then)
  then show ?thesis ..
qed

lemma delete_outbox_rows:
  assumes "delete_outbox_at cfg fl now st = (st', Inr n)"
  shows "retention_rows st' + unat n \<le> retention_rows st"
proof -
  define db1 where "db1 = purge_results_at now (rn_relay st)"
  define db2 where "db2 = fst (purge_bundle_content_at now retention_batch db1)"
  obtain db3 where db3: "keep_last_statuses cfg now db2 = Some db3"
    using assms by (auto simp: delete_outbox_at_def Let_def split: if_splits option.splits simp flip: db1_def db2_def)
  define db4 a where "db4 = fst (delete_aged_notices cfg now db3)" and "a = snd (delete_aged_notices cfg now db3)"
  define db5 b where "db5 = fst (delete_aged_bundles cfg now db4)" and "b = snd (delete_aged_bundles cfg now db4)"
  have eq: "delete_aged_notices cfg now db3 = (db4, a)" "delete_aged_bundles cfg now db4 = (db5, b)"
    by (simp_all add: db4_def a_def db5_def b_def)
  have st': "st' = st\<lparr>rn_relay := db5\<rparr>" "n = of_nat a + of_nat b"
    using assms eq by (auto simp: delete_outbox_at_def Let_def db3 split: if_splits simp flip: db1_def db2_def)
  have t: "db_outbox db3 = db_outbox (rn_relay st)" "length (db_bundles db3) = length (db_bundles (rn_relay st))"
    using db3 by (auto simp: keep_last_statuses_def Let_def db2_def db1_def purge_bundle_content_at_def
        purge_results_at_def length_update_where split: if_splits)
  have "length (db_outbox db4) + a = length (db_outbox db3)" "db_bundles db4 = db_bundles db3"
    using eq(1) by (auto simp: delete_aged_notices_def Let_def length_delete_where)
  moreover have "length (db_bundles db5) + b = length (db_bundles db4)" "db_outbox db5 = db_outbox db4"
    using eq(2) by (auto simp: delete_aged_bundles_def Let_def length_delete_where)
  moreover have "unat n \<le> a + b"
    unfolding st'(2) by (metis of_nat_add unat_of_nat_le)
  ultimately show ?thesis using t by (simp add: retention_rows_def st'(1))
qed

lemma delete_inbound_rows:
  assumes "delete_inbound_at cfg fl now st = (st', Inr n)"
  shows "retention_rows st' + unat n \<le> retention_rows st"
proof -
  define keys where "keys = selected retention_batch (aged_command cfg now)
    (\<lambda>c. (in_updated_at c, in_message_key c)) in_message_key (rn_inbound st)"
  let ?hit = "\<lambda>c. in_message_key c \<in> keys"
  have st': "st' = st\<lparr>rn_inbound := delete_where ?hit (rn_inbound st),
      rn_confirmations := delete_where (\<lambda>f. is_some_and (\<lambda>k. k \<in> keys) (cc_dispatch_message_key f))
        (rn_confirmations st)\<rparr>" "n = of_nat (count_where ?hit (rn_inbound st))"
    using assms by (auto simp: delete_inbound_at_def Let_def split: if_splits simp flip: keys_def)
  have "unat n \<le> count_where ?hit (rn_inbound st)" unfolding st'(2) by (rule unat_of_nat_le)
  with length_delete_where [of ?hit "rn_inbound st"] show ?thesis
    using length_delete_where_le [of "\<lambda>f. is_some_and (\<lambda>k. k \<in> keys) (cc_dispatch_message_key f)" "rn_confirmations st"]
    by (simp add: retention_rows_def st'(1))
qed

lemma delete_selections_rows:
  assumes "delete_selections_at fl now st = (st', Inr (n, m))"
  shows "retention_rows st' + unat n + unat m \<le> retention_rows st"
proof -
  define senders where "senders = selected retention_batch (expired_selection now)
    (\<lambda>s. (sc_expires_at s, sc_sender_fingerprint s)) sc_sender_fingerprint (rn_selections st)"
  define ids where "ids = selected retention_batch (expired_confirmation now)
    (\<lambda>f. (cc_expires_at f, cc_sender_fingerprint f, cc_confirmation_id f)) cc_confirmation_id (rn_confirmations st)"
  let ?s = "\<lambda>s. sc_sender_fingerprint s \<in> senders" and ?f = "\<lambda>f. cc_confirmation_id f \<in> ids"
  have st': "rn_selections st' = delete_where ?s (rn_selections st)" "rn_inbound st' = rn_inbound st"
    "rn_relay st' = rn_relay st" "rn_confirmations st' = delete_where ?f (rn_confirmations st)"
    "n = of_nat (count_where ?s (rn_selections st))" "m = of_nat (count_where ?f (rn_confirmations st))"
    using assms by (auto simp: delete_selections_at_def Let_def senders_def ids_def split: if_splits)
  have "unat n \<le> count_where ?s (rn_selections st)" "unat m \<le> count_where ?f (rn_confirmations st)"
    unfolding st'(5,6) by (rule unat_of_nat_le)+
  with length_delete_where [of ?s "rn_selections st"] length_delete_where [of ?f "rn_confirmations st"]
  show ?thesis by (simp add: retention_rows_def st'(1-4))
qed

lemma run_round_rows:
  assumes "run_round_at cfg E now st = (st', Inr res)" "may_have_more res"
  shows "retention_rows st' < retention_rows st"
proof -
  have zero: "unat (0 :: u64) = 0" by simp
  have "retention_rows st' + unat (rd_outbox res) + unat (rd_inbound res) + unat (rd_selections res)
      + unat (rd_confirmations res) \<le> retention_rows st"
  proof (cases "re_cancelled E 1")
    case True
    with assms(1) show ?thesis by (auto simp: run_round_at_def no_round_def)
  next
    case False
    with assms(1) obtain s1 a where 1: "delete_outbox_at cfg (re_faults E) now st = (s1, Inr a)"
      by (auto simp: run_round_at_def st_then_eq_Inr)
    note rows1 = delete_outbox_rows [OF 1]
    show ?thesis
    proof (cases "re_cancelled E 2")
      case True
      with assms(1) False 1 rows1 show ?thesis by (auto simp: run_round_at_def no_round_def)
    next
      case f2: False
      with assms(1) False 1 obtain s2 b where 2: "delete_inbound_at cfg (re_faults E) now s1 = (s2, Inr b)"
        by (auto simp: run_round_at_def st_then_eq_Inr)
      note rows2 = delete_inbound_rows [OF 2]
      show ?thesis
      proof (cases "re_cancelled E 3")
        case True
        with assms(1) False f2 1 2 rows1 rows2 show ?thesis by (auto simp: run_round_at_def no_round_def)
      next
        case f3: False
        with assms(1) False f2 1 2 obtain s3 c d
          where 3: "delete_selections_at (re_faults E) now s2 = (s3, Inr (c, d))"
          by (auto simp: run_round_at_def st_then_eq_Inr)
        with assms(1) False f2 f3 1 2 rows1 rows2 delete_selections_rows [OF 3] show ?thesis
          by (auto simp: run_round_at_def)
      qed
    qed
  qed
  moreover have "unat (of_nat retention_batch :: u64) = 500" by (simp add: retention_batch_def)
  then have "unat (rd_outbox res) = 500 \<or> unat (rd_inbound res) = 500 \<or> unat (rd_selections res) = 500
      \<or> unat (rd_confirmations res) = 500"
    using assms(2) by (auto simp: may_have_more_def)
  ultimately show ?thesis by linarith
qed

text \<open>The loop ends, and what every round keeps holds at its end.\<close>

lemma retention_loop_ends:
  assumes "P st"
    and "\<And>k now s. retention_timestamp_ms (re_clock (E k)) = Inr now \<Longrightarrow> P s
           \<Longrightarrow> P (fst (run_round_at cfg (E k) now s))"
  shows "\<exists>st' r. retention_loop cfg E k rep st = Some (st', r) \<and> P st'
           \<and> (\<forall>rep'. r = Inr rep' \<longrightarrow> rp_completed rep' \<or> (\<exists>k. re_cancelled (E k) 0))"
  using assms(1)
proof (induction "retention_rows st" arbitrary: st k rep rule: less_induct)
  case less
  show ?case
  proof (cases "re_cancelled (E k) 0")
    case True
    then show ?thesis using less.prems by (auto simp: retention_loop.simps)
  next
    case run: False
    show ?thesis
    proof (cases "retention_timestamp_ms (re_clock (E k))")
      case (Inl e)
      then show ?thesis using less.prems run by (simp add: retention_loop.simps [of _ _ k])
    next
      case (Inr now)
      obtain st1 r where round: "run_round_at cfg (E k) now st = (st1, r)" by fastforce
      have p1: "P st1" using assms(2) [OF Inr less.prems] by (simp add: round)
      show ?thesis
      proof (cases r)
        case (Inl e)
        then show ?thesis using run Inr round p1 by (simp add: retention_loop.simps [of _ _ k])
      next
        case res: (Inr res)
        show ?thesis
        proof (cases "may_have_more res")
          case False
          then show ?thesis using run Inr round p1 res by (simp add: retention_loop.simps [of _ _ k])
        next
          case True
          then have "retention_rows st1 < retention_rows st" using round res by (auto intro: run_round_rows)
          from less.hyps [OF this p1, of "Suc k" "add_round res rep"] True show ?thesis
            using run Inr round res by (simp add: retention_loop.simps [of _ _ k])
        qed
      qed
    qed
  qed
qed

lemma run_once_ends:
  assumes "P st"
    and "\<And>k now s. retention_timestamp_ms (re_clock (pe_rounds X k)) = Inr now \<Longrightarrow> P s
           \<Longrightarrow> P (fst (run_round_at cfg (pe_rounds X k) now s))"
  shows "\<exists>st' r. run_once cfg X st = Some (st', r) \<and> P st'
           \<and> (\<forall>rep. r = Inr rep \<longrightarrow> rp_completed rep \<or> pe_cancelled X \<or> (\<exists>k. re_cancelled (pe_rounds X k) 0))"
proof (cases "retention_timestamp_ms (pe_start X)")
  case (Inl e)
  then show ?thesis using assms(1) by (simp add: run_once_def)
next
  case (Inr t)
  have "\<exists>st' r. retention_loop cfg (pe_rounds X) 0 (retention_started t) st = Some (st', r) \<and> P st'
      \<and> (\<forall>rep'. r = Inr rep' \<longrightarrow> rp_completed rep' \<or> (\<exists>k. re_cancelled (pe_rounds X k) 0))"
    using assms by (rule retention_loop_ends)
  then obtain st' r where loop: "retention_loop cfg (pe_rounds X) 0 (retention_started t) st = Some (st', r)"
    "P st'" "\<forall>rep'. r = Inr rep' \<longrightarrow> rp_completed rep' \<or> (\<exists>k. re_cancelled (pe_rounds X k) 0)" by blast
  show ?thesis
  proof (cases "pe_cancelled X")
    case True
    then show ?thesis using Inr assms(1) by (simp add: run_once_def)
  next
    case False
    show ?thesis
    proof (cases r)
      case l: (Inl e)
      then show ?thesis using Inr False loop by (simp add: run_once_def)
    next
      case rep: (Inr rep)
      then show ?thesis using Inr False loop
        by (auto simp: run_once_def and_then_eq_Inr)
    qed
  qed
qed

lemma relay_inv_outbox_same:
  assumes "relay_inv db" "map result_keys (db_results db') = map result_keys (db_results db)"
    "db_shares db' = db_shares db" "db_actions db' = db_actions db" "db_outbox db' = db_outbox db"
  shows "relay_inv db'"
  using assms result_inv_cong [of db' db]
  by (simp add: relay_inv_def schema_inv_def linked_notices_def)

lemma keys_update_where:
  "(\<And>r. result_keys (f r) = result_keys r) \<Longrightarrow> map result_keys (update_where p f t) = map result_keys t"
  by (rule map_update_where)

lemma relay_inv_purge: "relay_inv db \<Longrightarrow> relay_inv (purge_results_at now db)"
  by (rule relay_inv_outbox_same)
    (simp_all add: purge_results_at_def keys_update_where purge_result_def result_keys_def)

lemma relay_inv_bundles:
  "relay_inv db \<Longrightarrow> relay_inv (fst (purge_bundle_content_at now n db))"
  "relay_inv db \<Longrightarrow> relay_inv (fst (delete_aged_bundles cfg now db))"
  by (rule relay_inv_outbox_same; simp add: purge_bundle_content_at_def delete_aged_bundles_def Let_def)+

lemma relay_inv_keep:
  assumes "relay_inv db" "keep_last_statuses cfg now db = Some db'"
  shows "relay_inv db'"
proof -
  have k: "result_keys (keep_last_status now db r) = result_keys r" for r
    by (simp add: keep_last_status_def result_keys_def split: option.split)
  from assms(2) show ?thesis
    by (intro relay_inv_outbox_same [OF assms(1)])
      (auto simp: keep_last_statuses_def Let_def k intro!: keys_update_where split: if_splits)
qed

lemma relay_inv_delete:
  assumes "relay_inv db"
  shows "relay_inv (db\<lparr>db_outbox := delete_where p (db_outbox db)\<rparr>)"
proof -
  have "linked_notices (db\<lparr>db_outbox := delete_where p (db_outbox db)\<rparr>) = delete_where p (linked_notices db)"
    by (simp add: linked_notices_def delete_where_def conj_commute)
  then show ?thesis
    using assms
    by (auto simp: relay_inv_def schema_inv_def outbox_keys_unique_def result_inv_def list_all_iff
        intro: distinct_delete_where)
qed

lemma relay_inv_notices: "relay_inv db \<Longrightarrow> relay_inv (fst (delete_aged_notices cfg now db))"
  using relay_inv_delete by (simp add: delete_aged_notices_def Let_def)

lemma relay_inv_ids: "relay_inv db \<Longrightarrow> distinct (map ob_id (db_outbox db))"
  by (simp add: relay_inv_def schema_inv_def outbox_keys_unique_def)

lemmas relay_inv_stages = relay_inv_purge relay_inv_bundles relay_inv_keep relay_inv_notices

text \<open>
  C6: through a whole retention run, with any faults, cancellations and clock readings, every
  receipt keeps its delivery status and its notification, and its time of change never goes
  back: before the current notice of a result is deleted, its last status has been written to
  the result, although both statements are limited to a batch.
\<close>

theorem receipts_survive_retention:
  assumes "schema_inv (rn_relay st)" "result_inv (rn_relay st)"
    and "run_once cfg P st = Some (st', x)"
    and "receipt_for owner rid clock (rn_relay st) = Inr rec"
  shows "\<exists>rec'. receipt_for owner rid clock (rn_relay st') = Inr rec'
           \<and> rr_notification_status rec' = rr_notification_status rec
           \<and> rr_notification_id rec' = rr_notification_id rec \<and> rr_updated_at rec \<le> rr_updated_at rec'"
proof -
  let ?Q = "\<lambda>db. relay_inv db \<and> status_kept (rn_relay st) db"
  have round: "?Q (rn_relay (fst (run_round_at cfg E now s)))" if "?Q (rn_relay s)" for E now s
  proof -
    have "?Q (rn_relay (fst (delete_outbox_at cfg (re_faults E) now s)))"
      using that
    proof (rule delete_outbox_at_stages)
      show "?Q (purge_results_at now db)" if "?Q db" for db
        using that status_kept_trans [OF _ status_kept_purge] relay_inv_purge by simp
      show "?Q (fst (purge_bundle_content_at now retention_batch db))" "?Q (fst (delete_aged_bundles cfg now db))"
        if "?Q db" for db
        using that status_kept_trans [OF _ status_kept_bundles(1)] status_kept_trans [OF _ status_kept_bundles(2)]
          relay_inv_bundles by simp_all
      show "?Q (fst (delete_aged_notices cfg now db'))"
        if "?Q db" "keep_last_statuses cfg now db = Some db'" for db db'
      proof
        show "relay_inv (fst (delete_aged_notices cfg now db'))"
          using that relay_inv_stages by blast
        have "status_kept db (fst (delete_aged_notices cfg now db'))"
          using that relay_inv_ids by (intro status_kept_delete) (simp_all add: relay_inv_def)
        then show "status_kept (rn_relay st) (fst (delete_aged_notices cfg now db'))"
          using conjunct2 [OF that(1)] status_kept_trans by blast
      qed
    qed
    then show ?thesis using run_round_relay [of cfg E now s] that by (elim disjE) simp_all
  qed
  have "?Q (rn_relay st)" using assms(1,2) status_kept_same by (simp add: relay_inv_def)
  then have "\<exists>st' r. run_once cfg P st = Some (st', r) \<and> ?Q (rn_relay st')
      \<and> (\<forall>rep. r = Inr rep \<longrightarrow> rp_completed rep \<or> pe_cancelled P \<or> (\<exists>k. re_cancelled (pe_rounds P k) 0))"
    using round by (rule run_once_ends [where P = "\<lambda>s. ?Q (rn_relay s)"])
  then have "status_kept (rn_relay st) (rn_relay st')" using assms(3) by auto
  then show ?thesis using assms(4) by (rule receipt_kept)
qed







text \<open>
  C37: a retention run always ends, and when it is not cancelled and no statement fails it
  reports a completed pass.
\<close>

theorem retention_run_ends:
  "\<exists>st' x. run_once cfg P st = Some (st', x)
     \<and> (\<forall>rep. x = Inr rep \<and> \<not> pe_cancelled P \<and> (\<forall>k. \<not> re_cancelled (pe_rounds P k) 0) \<longrightarrow> rp_completed rep)"
proof -
  have "\<exists>st' r. run_once cfg P st = Some (st', r) \<and> True
      \<and> (\<forall>rep. r = Inr rep \<longrightarrow> rp_completed rep \<or> pe_cancelled P \<or> (\<exists>k. re_cancelled (pe_rounds P k) 0))"
    by (rule run_once_ends) simp_all
  then show ?thesis by blast
qed

lemma delete_outbox_counts:
  assumes "db_results db = []" "\<forall>b \<in> set (db_bundles db). bn_body_purged_at b \<noteq> None"
    and "distinct (map ob_id (db_outbox db))" "distinct (map bn_id (db_bundles db))"
    and "rn_relay st = db" "\<forall>n. \<not> fl n"
  obtains st' where
    "delete_outbox_at cfg fl now st =
       (st', Inr (of_nat (min retention_batch (count_where (aged_notice cfg now db) (db_outbox db)))
                  + of_nat (min retention_batch (count_where (aged_bundle cfg now) (db_bundles db)))))"
    "count_where (aged_notice cfg now (rn_relay st')) (db_outbox (rn_relay st'))
       = count_where (aged_notice cfg now db) (db_outbox db) - retention_batch"
    "rn_inbound st' = rn_inbound st" "rn_selections st' = rn_selections st"
    "rn_confirmations st' = rn_confirmations st"
proof -
  have 1: "purge_results_at now db = db" using assms(1) by (simp add: purge_results_at_def update_where_def)
  have "b \<notin> {b \<in> set (db_bundles db). purgeable_bundle now b}" for b
    using assms(2) by (auto simp: purgeable_bundle_def)
  then have "selected retention_batch (purgeable_bundle now) (\<lambda>b. (bn_body_retain_until b, bn_id b)) bn_id
      (db_bundles db) = {}" by (auto elim!: selectedD)
  then have 2: "fst (purge_bundle_content_at now retention_batch db) = db"
    by (simp add: purge_bundle_content_at_def Let_def update_where_def)
  have 3: "keep_last_statuses cfg now db = Some db"
    using assms(1) by (simp add: keep_last_statuses_def Let_def update_where_def)
  define db4 where "db4 = fst (delete_aged_notices cfg now db)"
  define db5 where "db5 = fst (delete_aged_bundles cfg now db4)"
  have 4: "delete_aged_notices cfg now db
      = (db4, min retention_batch (count_where (aged_notice cfg now db) (db_outbox db)))"
    by (simp add: db4_def delete_aged_notices_def Let_def count_selected [OF assms(3)])
  have b4: "db_bundles db4 = db_bundles db" "db_results db4 = []"
    using assms(1) by (simp_all add: db4_def delete_aged_notices_def Let_def)
  have 5: "delete_aged_bundles cfg now db4
      = (db5, min retention_batch (count_where (aged_bundle cfg now) (db_bundles db)))"
    by (simp add: db5_def delete_aged_bundles_def Let_def b4 count_selected [OF assms(4)])
  have eq: "delete_outbox_at cfg fl now st = (st\<lparr>rn_relay := db5\<rparr>,
      Inr (of_nat (min retention_batch (count_where (aged_notice cfg now db) (db_outbox db)))
           + of_nat (min retention_batch (count_where (aged_bundle cfg now) (db_bundles db)))))"
    using assms(6) unfolding delete_outbox_at_def Let_def
    by (simp add: assms(5) 1 2 3 4 5)
  have b5: "db_results db5 = []" "db_outbox db5 = db_outbox db4"
    by (simp_all add: db5_def delete_aged_bundles_def Let_def b4)
  have aged: "aged_notice cfg now db5 = aged_notice cfg now db"
    using assms(1) b5(1) by (intro aged_notice_identity [where g = id]) simp_all
  have "count_where (aged_notice cfg now db5) (db_outbox db5)
      = count_where (aged_notice cfg now db) (db_outbox db) - retention_batch"
    unfolding aged b5(2)
    by (simp add: db4_def delete_aged_notices_def Let_def count_delete_selected [OF assms(3)])
  with eq show thesis by (intro that [of "st\<lparr>rn_relay := db5\<rparr>"]) simp_all
qed

lemma delete_inbound_counts:
  assumes "distinct (map in_message_key (rn_inbound st))" "\<forall>n. \<not> fl n"
  obtains st' where
    "delete_inbound_at cfg fl now st
       = (st', Inr (of_nat (min retention_batch (count_where (aged_command cfg now) (rn_inbound st)))))"
    "rn_relay st' = rn_relay st" "rn_selections st' = rn_selections st"
    "length (rn_confirmations st') \<le> length (rn_confirmations st)"
proof -
  have "snd (delete_inbound_at cfg fl now st)
      = Inr (of_nat (min retention_batch (count_where (aged_command cfg now) (rn_inbound st))))"
    using assms(2) by (simp add: delete_inbound_at_def Let_def count_selected [OF assms(1)])
  moreover have "rn_selections (fst (delete_inbound_at cfg fl now st)) = rn_selections st"
    "length (rn_confirmations (fst (delete_inbound_at cfg fl now st))) \<le> length (rn_confirmations st)"
    by (simp_all add: delete_inbound_at_def Let_def length_delete_where_le)
  ultimately show thesis by (intro that [of "fst (delete_inbound_at cfg fl now st)"]) (simp_all add: prod_eq_iff)
qed

lemma delete_selections_counts:
  assumes "distinct (map sc_sender_fingerprint (rn_selections st))" "\<forall>n. \<not> fl n"
  obtains st' m where
    "delete_selections_at fl now st
       = (st', Inr (of_nat (min retention_batch (count_where (expired_selection now) (rn_selections st))), of_nat m))"
    "rn_relay st' = rn_relay st" "m \<le> length (rn_confirmations st)"
proof -
  define m where "m = count_where (\<lambda>f. cc_confirmation_id f \<in> selected retention_batch (expired_confirmation now)
    (\<lambda>f. (cc_expires_at f, cc_sender_fingerprint f, cc_confirmation_id f)) cc_confirmation_id
    (rn_confirmations st)) (rn_confirmations st)"
  have "snd (delete_selections_at fl now st)
      = Inr (of_nat (min retention_batch (count_where (expired_selection now) (rn_selections st))), of_nat m)"
    using assms(2) by (simp add: delete_selections_at_def Let_def m_def count_selected [OF assms(1)])
  moreover have "m \<le> length (rn_confirmations st)" by (simp add: m_def count_where_le)
  ultimately show thesis by (intro that [of "fst (delete_selections_at fl now st)" m]) (simp_all add: prod_eq_iff)
qed

lemma counts_not_full:
  "a < retention_batch \<Longrightarrow> of_nat a \<noteq> (of_nat retention_batch :: u64)"
  "0 < b \<Longrightarrow> b \<le> retention_batch \<Longrightarrow> of_nat retention_batch + of_nat b \<noteq> (of_nat retention_batch :: u64)"
proof -
  have u: "unat (of_nat n :: u64) = n" if "n \<le> 500" for n
    using that by (simp add: unat_of_nat)
  show "a < retention_batch \<Longrightarrow> of_nat a \<noteq> (of_nat retention_batch :: u64)"
    using u [of a] u [of retention_batch] by (auto simp: retention_batch_def)
  show "0 < b \<Longrightarrow> b \<le> retention_batch \<Longrightarrow> of_nat retention_batch + of_nat b \<noteq> (of_nat retention_batch :: u64)"
    using u [of b] by (auto simp: retention_batch_def)
qed

text \<open>
  C38: deleted bundles are counted together with deleted notifications, so a full batch of
  notifications and at least one bundle do not look like a full batch: the run ends after this
  round and reports a completed pass although aged notifications are left.
\<close>

theorem retention_stops_early:
  assumes "db_results db = []" "\<forall>b \<in> set (db_bundles db). bn_body_purged_at b \<noteq> None"
    and "distinct (map ob_id (db_outbox db))" "distinct (map bn_id (db_bundles db))"
    and "distinct (map in_message_key (rn_inbound st))" "distinct (map sc_sender_fingerprint (rn_selections st))"
    and "distinct (map cc_confirmation_id (rn_confirmations st))" "rn_relay st = db"
    and "retention_timestamp_ms (pe_start P) = Inr t" "\<not> pe_cancelled P" "retention_timestamp_ms (pe_end P) = Inr u"
    and "retention_timestamp_ms (re_clock (pe_rounds P 0)) = Inr now" "\<forall>n. \<not> re_cancelled (pe_rounds P 0) n"
    and "\<forall>n. \<not> re_faults (pe_rounds P 0) n"
    and "retention_batch < count_where (aged_notice cfg now db) (db_outbox db)"
    and "0 < count_where (aged_bundle cfg now) (db_bundles db)"
    and "count_where (aged_command cfg now) (rn_inbound st) < retention_batch"
    and "count_where (expired_selection now) (rn_selections st) < retention_batch"
    and "length (rn_confirmations st) < retention_batch"
  shows "\<exists>st' rep. run_once cfg P st = Some (st', Inr rep) \<and> rp_completed rep
           \<and> 0 < count_where (aged_notice cfg now (rn_relay st')) (db_outbox (rn_relay st'))"
proof -
  let ?E = "pe_rounds P 0"
  have full: "min retention_batch (count_where (aged_notice cfg now db) (db_outbox db)) = retention_batch"
    using assms(15) by simp
  obtain s1 where s1: "delete_outbox_at cfg (re_faults ?E) now st =
      (s1, Inr (of_nat retention_batch
                + of_nat (min retention_batch (count_where (aged_bundle cfg now) (db_bundles db)))))"
    "count_where (aged_notice cfg now (rn_relay s1)) (db_outbox (rn_relay s1))
       = count_where (aged_notice cfg now db) (db_outbox db) - retention_batch"
    "rn_inbound s1 = rn_inbound st" "rn_selections s1 = rn_selections st" "rn_confirmations s1 = rn_confirmations st"
    by (rule delete_outbox_counts [OF assms(1-4,8,14), of cfg now, unfolded full])
  have d1: "distinct (map in_message_key (rn_inbound s1))" using assms(5) by (simp only: s1(3))
  obtain s2 where s2: "delete_inbound_at cfg (re_faults ?E) now s1
      = (s2, Inr (of_nat (min retention_batch (count_where (aged_command cfg now) (rn_inbound s1)))))"
    "rn_relay s2 = rn_relay s1" "rn_selections s2 = rn_selections s1"
    "length (rn_confirmations s2) \<le> length (rn_confirmations s1)"
    by (rule delete_inbound_counts [OF d1 assms(14)])
  have d2: "distinct (map sc_sender_fingerprint (rn_selections s2))" using assms(6) by (simp only: s2(3) s1(4))
  obtain s3 m where s3: "delete_selections_at (re_faults ?E) now s2
      = (s3, Inr (of_nat (min retention_batch (count_where (expired_selection now) (rn_selections s2))), of_nat m))"
    "rn_relay s3 = rn_relay s2" "m \<le> length (rn_confirmations s2)"
    by (rule delete_selections_counts [OF d2 assms(14)])
  define res where "res = \<lparr>rd_outbox = of_nat retention_batch
      + of_nat (min retention_batch (count_where (aged_bundle cfg now) (db_bundles db))),
    rd_inbound = of_nat (min retention_batch (count_where (aged_command cfg now) (rn_inbound st))),
    rd_selections = of_nat (min retention_batch (count_where (expired_selection now) (rn_selections st))),
    rd_confirmations = of_nat m\<rparr>"
  have round: "run_round_at cfg ?E now st = (s3, Inr res)"
    using assms(13) unfolding run_round_at_def s1(1) st_then_simps s2(1) s3(1)
    by (simp add: s1(3,4) s2(3) res_def)
  have "m < retention_batch" using s3(3) s2(4) assms(19) by (simp add: s1(5))
  then have "rd_confirmations res \<noteq> of_nat retention_batch"
    unfolding res_def round_result.select_convs by (rule counts_not_full(1))
  moreover have "rd_inbound res \<noteq> of_nat retention_batch" "rd_selections res \<noteq> of_nat retention_batch"
    unfolding res_def round_result.select_convs
    using assms(17,18) by (intro counts_not_full(1); simp)+
  moreover have "rd_outbox res \<noteq> of_nat retention_batch"
    unfolding res_def round_result.select_convs
    using assms(16) by (intro counts_not_full(2)) (simp_all add: retention_batch_def)
  ultimately have "\<not> may_have_more res" by (simp add: may_have_more_def)
  then have "run_once cfg P st = Some (s3, Inr ((add_round res (retention_started t))\<lparr>rp_completed := True,
      rp_completed_at := max u (rp_started_at (add_round res (retention_started t)))\<rparr>))"
    using assms(9-13) round by (simp add: run_once_def retention_loop.simps [of _ _ 0])
  moreover have "0 < count_where (aged_notice cfg now (rn_relay s3)) (db_outbox (rn_relay s3))"
    unfolding s3(2) s2(2) s1(2) using assms(15) by simp
  ultimately show ?thesis by simp
qed

lemma demo_times:
  "retention_timestamp_ms (Some 86400021) = Inr 86400021" "retention_timestamp_ms (Some 50) = Inr 50"
  by (simp_all add: retention_timestamp_ms_def i64_simps)

lemma demo_pass_sel [simp]:
  "pe_start (demo_pass t) = Some t" "\<not> pe_cancelled (demo_pass t)" "pe_end (demo_pass t) = Some t"
  "re_clock (pe_rounds (demo_pass t) k) = Some t" "\<not> re_cancelled (pe_rounds (demo_pass t) k) n"
  "\<not> re_faults (pe_rounds (demo_pass t) k) n"
  by (simp_all add: demo_pass_def)

lemma demo_store_sel [simp]:
  "rn_relay (demo_store db) = db" "rn_inbound (demo_store db) = []" "rn_selections (demo_store db) = []"
  "rn_confirmations (demo_store db) = []"
  by (simp_all add: demo_store_def)

lemma demo_delivered_inv: "schema_inv demo_delivered" "result_inv demo_delivered"
proof -
  have "outbox_checks (link_notice_row sample_notice)" by (rule sample_checks(2))
  then have "outbox_checks ((link_notice_row sample_notice)\<lparr>ob_status := ProviderAccepted\<rparr>)"
    by (simp add: outbox_checks_def target_check_def body_kind_check_def origin_check_def kind_check_def
        claim_check_def link_notice_row_def)
  then show "schema_inv demo_delivered"
    by (simp add: demo_delivered_def schema_inv_def outbox_keys_unique_def)
  have "result_inv demo_delivered = result_inv sample_published"
    by (rule result_inv_cong)
      (simp_all add: demo_delivered_def sample_published_def linked_notices_def notice_keys_def)
  then show "result_inv demo_delivered" using sample_inv(2) by simp
qed

lemma demo_delivered_receipt:
  "\<exists>rec. receipt_for ''device:d1'' ''x'' (Some 86400021) demo_delivered = Inr rec
         \<and> rr_notification_status rec = ProviderAccepted"
proof -
  have r: "db_results demo_delivered = [sample_row]" "rs_origin_key sample_row = ''device:d1''" "rs_result_id sample_row = ''x''"
    "rs_current_notification_id sample_row = ''note''" "rs_id sample_row = ''row''"
    by (simp_all add: demo_delivered_def sample_published_def sample_row_def published_row_def sample_device_def
        sample_publication_def sample_env_def)
  have q: "filter (current_notice sample_row) (db_outbox demo_delivered)
      = [(link_notice_row sample_notice)\<lparr>ob_status := ProviderAccepted\<rparr>]"
    by (simp add: demo_delivered_def current_notice_def r link_notice_row_def sample_notice_def Let_def)
  have "result_now (Some 86400021) = Inr 86400021" by (simp add: result_now_def i64_simps)
  then show ?thesis
    unfolding results_with_notice_first using r q by (simp add: receipt_of_def Let_def joined_status_def)
qed

theorem receipts_survive_retention_witness:
  "\<exists>st' x rec'. run_once demo_config (demo_pass 86400021) (demo_store demo_delivered) = Some (st', x)
     \<and> receipt_for ''device:d1'' ''x'' (Some 86400021) (rn_relay st') = Inr rec'
     \<and> rr_notification_status rec' = ProviderAccepted"
proof -
  obtain st' x where run: "run_once demo_config (demo_pass 86400021) (demo_store demo_delivered) = Some (st', x)"
    using run_once_ends [where P = "\<lambda>_. True"] by blast
  obtain rec where rec: "receipt_for ''device:d1'' ''x'' (Some 86400021) demo_delivered = Inr rec"
    "rr_notification_status rec = ProviderAccepted" using demo_delivered_receipt by blast
  show ?thesis
    using receipts_survive_retention [OF _ _ run, of "''device:d1''" "''x''" "Some 86400021" rec] rec run
      demo_delivered_inv by auto
qed


lemma demo_many_counts:
  "count_where (aged_notice demo_config 50 demo_many) (db_outbox demo_many) = 501"
  "count_where (aged_bundle demo_config 50) (db_bundles demo_many) = 1"
  "distinct (map ob_id (db_outbox demo_many))" "db_results demo_many = []" "db_bundles demo_many = [demo_bundle]"
proof -
  show "db_results demo_many = []" "db_bundles demo_many = [demo_bundle]"
    by (simp_all add: demo_many_def demo_db_def)
  have cut: "i64_sub 50 (days_to_milliseconds 0) = 50"
    by (simp add: days_to_milliseconds_def i64_sub_id i64_simps)
  have "aged_notice demo_config 50 demo_many (demo_aged_row i)" for i
    by (simp add: aged_notice_def demo_config_def demo_aged_row_def demo_row_def staged_row_def live_page_def
        demo_many_def demo_db_def cut)
  then have "filter (aged_notice demo_config 50 demo_many) (map demo_aged_row [0..<501]) = map demo_aged_row [0..<501]"
    by (intro filter_True) auto
  then show "count_where (aged_notice demo_config 50 demo_many) (db_outbox demo_many) = 501"
    by (simp add: count_where_def demo_many_def)
  show "count_where (aged_bundle demo_config 50) (db_bundles demo_many) = 1"
    by (simp add: count_where_def demo_many_def aged_bundle_def demo_config_def demo_bundle_def cut)
  have "length (ob_id (demo_aged_row i)) = i" for i by (simp add: demo_aged_row_def)
  then have "inj_on (\<lambda>i. ob_id (demo_aged_row i)) (set [0..<501])" by (intro inj_onI) metis
  then show "distinct (map ob_id (db_outbox demo_many))"
    by (simp add: demo_many_def distinct_map o_def)
qed

theorem retention_stops_early_witness:
  "\<exists>st' rep. run_once demo_config (demo_pass 50) (demo_store demo_many) = Some (st', Inr rep) \<and> rp_completed rep
     \<and> 0 < count_where (aged_notice demo_config 50 (rn_relay st')) (db_outbox (rn_relay st'))"
  using demo_many_counts(2)
  by (intro retention_stops_early [where db = demo_many])
    (simp_all add: demo_many_counts demo_times retention_batch_def count_where_def [of _ "[]"] demo_bundle_def)

lemma demo_empty_run:
  "\<exists>st' rep. run_once demo_config (demo_pass 50) (demo_store demo_db) = Some (st', Inr rep)"
proof -
  obtain s1 where s1: "delete_outbox_at demo_config (\<lambda>_. False) 50 (demo_store demo_db) = (s1, Inr (of_nat 0 + of_nat 0))"
    "rn_inbound s1 = []" "rn_selections s1 = []" "rn_confirmations s1 = []"
    by (rule delete_outbox_counts [of demo_db "demo_store demo_db" "\<lambda>_. False" demo_config 50])
      (simp_all add: demo_db_def count_where_def)
  have "re_faults (pe_rounds (demo_pass 50) 0) = (\<lambda>_. False)" by (simp add: demo_pass_def)
  then show ?thesis
    by (simp add: run_once_def retention_loop.simps [of _ _ 0] demo_times run_round_at_def s1
        delete_inbound_at_def delete_selections_at_def Let_def count_where_def delete_where_def
        may_have_more_def retention_batch_def)
qed

theorem retention_run_ends_witness:
  "\<exists>st' rep. run_once demo_config (demo_pass 50) (demo_store demo_db) = Some (st', Inr rep) \<and> rp_completed rep"
  using retention_run_ends [of demo_config "demo_pass 50" "demo_store demo_db"] demo_empty_run by auto

end
