(* ===== verification/Agent_Event.thy ===== *)
theory Agent_Event
  imports Relay_Prelude
begin

text \<open>
  The agent events of the desktop application: source descriptors
  (\<open>apps/desktop/src-tauri/src/source.rs\<close>), the event envelope with its validation and decoding
  (\<open>agent/event_v2.rs\<close>) and the stable keys derived from framed components (\<open>agent/keys.rs\<close>).
  BLAKE3 in hexadecimal, SHA-256 in hexadecimal and JSON are parameters.
\<close>

section \<open>Source descriptors\<close>

record source_descriptor =
  sd_agent_kind :: string
  sd_source_id :: string
  sd_source_kind :: string
  sd_instance_id :: string

datatype source_descriptor_error = SrcEmpty string | SrcTooLong string | SrcContainsControl string

definition max_source_component_chars :: nat where "max_source_component_chars = 128"

definition validate_source_component :: "string \<Rightarrow> string \<Rightarrow> source_descriptor_error + unit" where
  "validate_source_component name v =
     (if trim_chars (utf8_decode v) = [] then Inl (SrcEmpty name)
      else if chars_count v > max_source_component_chars then Inl (SrcTooLong name)
      else if list_ex is_control (utf8_decode v) then Inl (SrcContainsControl name)
      else Inr ())"

definition agent_kind_new :: "string \<Rightarrow> source_descriptor_error + string" where
  "agent_kind_new v = and_then (validate_source_component ''agent_kind'' v) (\<lambda>_. Inr v)"

definition source_validate :: "source_descriptor \<Rightarrow> source_descriptor_error + unit" where
  "source_validate s =
     and_then (validate_source_component ''agent_kind'' (sd_agent_kind s)) (\<lambda>_.
     and_then (validate_source_component ''source_id'' (sd_source_id s)) (\<lambda>_.
     and_then (validate_source_component ''source_kind'' (sd_source_kind s)) (\<lambda>_.
       validate_source_component ''instance_id'' (sd_instance_id s))))"

definition source_descriptor_new ::
  "string \<Rightarrow> string \<Rightarrow> string \<Rightarrow> string \<Rightarrow> source_descriptor_error + source_descriptor" where
  "source_descriptor_new kind sid skind inst =
     (let s = \<lparr>sd_agent_kind = kind, sd_source_id = sid, sd_source_kind = skind, sd_instance_id = inst\<rparr>
      in and_then (source_validate s) (\<lambda>_. Inr s))"

definition derive_stable_key :: "(string \<Rightarrow> string) \<Rightarrow> string \<Rightarrow> string list \<Rightarrow> string" where
  "derive_stable_key b3 namespace components = b3 (frame namespace @ concat (map frame components))"

definition source_key :: "(string \<Rightarrow> string) \<Rightarrow> source_descriptor \<Rightarrow> string" where
  "source_key b3 s =
     derive_stable_key b3 ''agent-source-v1''
       [sd_agent_kind s, sd_source_id s, sd_source_kind s, sd_instance_id s]"

section \<open>Event envelopes\<close>

definition agent_event_schema_version :: int where "agent_event_schema_version = 4"
definition max_key_chars :: nat where "max_key_chars = 256"
definition max_label_chars :: nat where "max_label_chars = 256"
definition max_path_chars :: nat where "max_path_chars = 32768"
definition max_safe_summary_chars :: nat where "max_safe_summary_chars = 4096"
definition max_content_bytes :: nat where "max_content_bytes = 256 * 1024"

datatype source_classification = UserTurn | ExplicitNonTarget | UnknownClassification | Verification

record capture_metadata =
  cm_helper_build :: string
  cm_policy_revision :: i64
  cm_source_classification :: source_classification
  cm_source_reason :: string

record agent_correlation =
  co_conversation_key :: "string option"
  co_run_key :: "string option"
  co_parent_run_key :: "string option"
  co_agent_id :: "string option"
  co_agent_role :: "string option"

datatype prompt_origin = OriginHuman | OriginSystemPrompt | OriginAgentGenerated | OriginImported | OriginUnknown

record prompt_submitted =
  ps_text :: string
  ps_workspace_path :: "string option"
  ps_model_name :: "string option"
  ps_origin :: prompt_origin

record run_started =
  rn_agent_label :: string
  rn_workspace_path :: "string option"
  rn_model_name :: "string option"
  rn_task :: "string option"
  rn_reasoning_effort :: "string option"

record codex_usage_snapshot =
  us_used_percent :: "int option"
  us_window_duration_mins :: "i64 option"
  us_resets_at :: "i64 option"

definition usage_unavailable :: codex_usage_snapshot where
  "usage_unavailable = \<lparr>us_used_percent = None, us_window_duration_mins = None, us_resets_at = None\<rparr>"

datatype settling_reason = AgentStopHook | AdapterSettled | WorkflowIdle

record run_settling =
  se_reason :: settling_reason
  se_codex_usage :: "codex_usage_snapshot option"

datatype completion_confidence = Authoritative | DefinitiveAdapter | Inferred | Provisional

primrec confidence_as_str :: "completion_confidence \<Rightarrow> string" where
  "confidence_as_str Authoritative = ''authoritative''"
| "confidence_as_str DefinitiveAdapter = ''definitive_adapter''"
| "confidence_as_str Inferred = ''inferred''"
| "confidence_as_str Provisional = ''provisional''"

datatype result_content_mode = StatusOnly | RedactedExcerpt | FullFinal

primrec captures_text :: "result_content_mode \<Rightarrow> bool" where
  "captures_text StatusOnly = False"
| "captures_text RedactedExcerpt = True"
| "captures_text FullFinal = True"

primrec content_mode_rank :: "result_content_mode \<Rightarrow> nat" where
  "content_mode_rank StatusOnly = 0"
| "content_mode_rank RedactedExcerpt = 1"
| "content_mode_rank FullFinal = 2"

datatype output_kind = AssistantFinal | AssistantCandidate | ErrorSummary | SystemSummary

record output_produced =
  op_output_kind :: output_kind
  op_text :: string
  op_content_mode :: result_content_mode
  op_content_available :: bool
  op_source_hash :: "string option"
  op_capture_generation :: "i64 option"

datatype attention_kind = AttPermission | AttUserInput | AttConfirmation

record attention_required =
  at_attention_kind :: attention_kind
  at_safe_summary :: string
  at_expires_at :: "i64 option"

datatype agent_outcome = AgentSuccess | AgentFailure | AgentInterrupted | AgentCancelled | AgentUnknown

text \<open>The payloads of the four terminal events are their completion confidence.\<close>

datatype agent_event_payload =
    PromptSubmitted prompt_submitted
  | RunStarted run_started
  | RunSettling run_settling
  | RunCompleted completion_confidence
  | RunFailed completion_confidence
  | RunInterrupted completion_confidence
  | RunCancelled completion_confidence
  | OutputProduced output_produced
  | AttentionRequired attention_required

datatype agent_event_kind =
    KPromptSubmitted | KRunStarted | KRunSettling | KRunCompleted | KRunFailed | KRunInterrupted
  | KRunCancelled | KOutputProduced | KAttentionRequired

primrec kind_as_str :: "agent_event_kind \<Rightarrow> string" where
  "kind_as_str KPromptSubmitted = ''prompt_submitted''"
| "kind_as_str KRunStarted = ''run_started''"
| "kind_as_str KRunSettling = ''run_settling''"
| "kind_as_str KRunCompleted = ''run_completed''"
| "kind_as_str KRunFailed = ''run_failed''"
| "kind_as_str KRunInterrupted = ''run_interrupted''"
| "kind_as_str KRunCancelled = ''run_cancelled''"
| "kind_as_str KOutputProduced = ''output_produced''"
| "kind_as_str KAttentionRequired = ''attention_required''"

primrec payload_kind :: "agent_event_payload \<Rightarrow> agent_event_kind" where
  "payload_kind (PromptSubmitted _) = KPromptSubmitted"
| "payload_kind (RunStarted _) = KRunStarted"
| "payload_kind (RunSettling _) = KRunSettling"
| "payload_kind (RunCompleted _) = KRunCompleted"
| "payload_kind (RunFailed _) = KRunFailed"
| "payload_kind (RunInterrupted _) = KRunInterrupted"
| "payload_kind (RunCancelled _) = KRunCancelled"
| "payload_kind (OutputProduced _) = KOutputProduced"
| "payload_kind (AttentionRequired _) = KAttentionRequired"

fun payload_outcome :: "agent_event_payload \<Rightarrow> agent_outcome option" where
  "payload_outcome (RunCompleted _) = Some AgentSuccess"
| "payload_outcome (RunFailed _) = Some AgentFailure"
| "payload_outcome (RunInterrupted _) = Some AgentInterrupted"
| "payload_outcome (RunCancelled _) = Some AgentCancelled"
| "payload_outcome _ = None"

fun payload_confidence :: "agent_event_payload \<Rightarrow> completion_confidence option" where
  "payload_confidence (RunCompleted c) = Some c"
| "payload_confidence (RunFailed c) = Some c"
| "payload_confidence (RunInterrupted c) = Some c"
| "payload_confidence (RunCancelled c) = Some c"
| "payload_confidence _ = None"

record agent_event =
  ev_schema_version :: int
  ev_source :: source_descriptor
  ev_event_id :: string
  ev_occurred_at :: i64
  ev_observed_at :: i64
  ev_correlation :: agent_correlation
  ev_payload :: agent_event_payload
  ev_metadata :: "capture_metadata option"

section \<open>Validation\<close>

datatype agent_event_error =
    InvalidCaptureMetadata | UnsupportedSchema int | InvalidSource source_descriptor_error
  | MissingField string | FieldTooLong string | ContentTooLarge string | ContainsControl string
  | InvalidResultContent | InvalidResultHash | InvalidTimestamp | MissingCorrelation string
  | InvalidExpiry | InvalidUsage

definition line_control :: "nat \<Rightarrow> bool" where
  "line_control n \<longleftrightarrow> n = 10 \<or> n = 13 \<or> n = 9"

definition validate_bounded_text :: "string \<Rightarrow> string \<Rightarrow> nat \<Rightarrow> bool \<Rightarrow> agent_event_error + unit" where
  "validate_bounded_text name v max_chars allow_line_controls =
     (if trim_chars (utf8_decode v) = [] then Inl (MissingField name)
      else if chars_count v > max_chars then Inl (FieldTooLong name)
      else if list_ex (\<lambda>n. is_control n \<and> \<not> (allow_line_controls \<and> line_control n)) (utf8_decode v)
      then Inl (ContainsControl name)
      else Inr ())"

definition validate_event_key :: "string \<Rightarrow> string \<Rightarrow> agent_event_error + unit" where
  "validate_event_key name v = validate_bounded_text name v max_key_chars False"

definition validate_label :: "string \<Rightarrow> string \<Rightarrow> agent_event_error + unit" where
  "validate_label name v = validate_bounded_text name v max_label_chars False"

definition validate_optional_label :: "string \<Rightarrow> string option \<Rightarrow> agent_event_error + unit" where
  "validate_optional_label name v = (case v of None \<Rightarrow> Inr () | Some x \<Rightarrow> validate_label name x)"

definition validate_optional_path :: "string option \<Rightarrow> agent_event_error + unit" where
  "validate_optional_path v =
     (case v of
        None \<Rightarrow> Inr ()
      | Some x \<Rightarrow> validate_bounded_text ''workspace_path'' x max_path_chars False)"

definition validate_content_bytes :: "string \<Rightarrow> string \<Rightarrow> agent_event_error + unit" where
  "validate_content_bytes name v =
     (if length v > max_content_bytes then Inl (ContentTooLarge name)
      else if list_ex (\<lambda>n. is_control n \<and> \<not> line_control n) (utf8_decode v)
      then Inl (ContainsControl name)
      else Inr ())"

definition validate_content :: "string \<Rightarrow> string \<Rightarrow> agent_event_error + unit" where
  "validate_content name v =
     (if trim_chars (utf8_decode v) = [] then Inl (MissingField name)
      else if length v > max_content_bytes then Inl (ContentTooLarge name)
      else if list_ex (\<lambda>n. is_control n \<and> \<not> line_control n) (utf8_decode v)
      then Inl (ContainsControl name)
      else Inr ())"

definition validate_summary :: "string \<Rightarrow> agent_event_error + unit" where
  "validate_summary v = validate_bounded_text ''safe_summary'' v max_safe_summary_chars False"

definition validate_output :: "(string \<Rightarrow> string) \<Rightarrow> output_produced \<Rightarrow> agent_event_error + unit" where
  "validate_output sha e =
     (case op_content_mode e of
        StatusOnly \<Rightarrow>
          if op_content_available e \<or> op_text e \<noteq> [] \<or> op_source_hash e \<noteq> None
          then Inl InvalidResultContent else Inr ()
      | _ \<Rightarrow>
          if \<not> op_content_available e
          then (if op_text e \<noteq> [] \<or> op_source_hash e \<noteq> None then Inl InvalidResultContent else Inr ())
          else and_then (validate_content_bytes ''text'' (op_text e)) (\<lambda>_.
                 if op_source_hash e \<noteq> Some (sha (op_text e)) then Inl InvalidResultHash else Inr ()))"

fun payload_validate :: "(string \<Rightarrow> string) \<Rightarrow> agent_event_payload \<Rightarrow> agent_event_error + unit" where
  "payload_validate sha (PromptSubmitted e) =
     and_then (validate_content ''text'' (ps_text e)) (\<lambda>_.
     and_then (validate_optional_path (ps_workspace_path e)) (\<lambda>_.
       validate_optional_label ''model_name'' (ps_model_name e)))"
| "payload_validate sha (RunStarted e) =
     and_then (validate_label ''agent_label'' (rn_agent_label e)) (\<lambda>_.
     and_then (validate_optional_path (rn_workspace_path e)) (\<lambda>_.
     and_then (validate_optional_label ''model_name'' (rn_model_name e)) (\<lambda>_.
     and_then (case rn_task e of
                 None \<Rightarrow> Inr ()
               | Some task \<Rightarrow> validate_bounded_text ''task'' task max_safe_summary_chars True) (\<lambda>_.
       validate_optional_label ''reasoning_effort'' (rn_reasoning_effort e)))))"
| "payload_validate sha (RunSettling e) =
     (case se_codex_usage e of
        None \<Rightarrow> Inr ()
      | Some u \<Rightarrow>
          if is_some_and (\<lambda>v. v > 100) (us_used_percent u)
             \<or> is_some_and (\<lambda>v. v \<le> 0) (us_window_duration_mins u)
             \<or> is_some_and (\<lambda>v. v < 0) (us_resets_at u)
          then Inl InvalidUsage else Inr ())"
| "payload_validate sha (OutputProduced e) = validate_output sha e"
| "payload_validate sha (AttentionRequired e) = validate_summary (at_safe_summary e)"
| "payload_validate sha _ = Inr ()"

fun validate_named_keys :: "(string \<times> string option) list \<Rightarrow> agent_event_error + unit" where
  "validate_named_keys [] = Inr ()"
| "validate_named_keys ((name, v) # rest) =
     (case v of
        None \<Rightarrow> validate_named_keys rest
      | Some x \<Rightarrow> and_then (validate_event_key name x) (\<lambda>_. validate_named_keys rest))"

definition correlation_validate :: "agent_correlation \<Rightarrow> agent_event_error + unit" where
  "correlation_validate c =
     validate_named_keys
       [(''conversation_key'', co_conversation_key c), (''run_key'', co_run_key c),
        (''parent_run_key'', co_parent_run_key c), (''agent_id'', co_agent_id c),
        (''agent_role'', co_agent_role c)]"

definition requires_run_key :: "agent_event_kind \<Rightarrow> bool" where
  "requires_run_key k \<longleftrightarrow>
     k \<in> {KRunStarted, KRunSettling, KRunCompleted, KRunFailed, KRunInterrupted, KRunCancelled,
           KOutputProduced}"

definition metadata_validate :: "capture_metadata \<Rightarrow> agent_event_error + unit" where
  "metadata_validate m =
     (if length (cm_helper_build m) > 128 \<or> \<not> list_all (\<lambda>c. byte_of c < 128) (cm_helper_build m)
         \<or> list_ex is_control (utf8_decode (cm_helper_build m))
      then Inl InvalidCaptureMetadata
      else if cm_policy_revision m < 0 \<or> cm_source_reason m = [] \<or> length (cm_source_reason m) > 128
              \<or> \<not> list_all (\<lambda>c. ascii_alphanumeric c \<or> c = CHR ''_'') (cm_source_reason m)
      then Inl InvalidCaptureMetadata
      else Inr ())"

definition envelope_validate :: "(string \<Rightarrow> string) \<Rightarrow> agent_event \<Rightarrow> agent_event_error + unit" where
  "envelope_validate sha e =
     (if ev_schema_version e \<noteq> agent_event_schema_version then Inl (UnsupportedSchema (ev_schema_version e))
      else
        and_then (case source_validate (ev_source e) of Inl x \<Rightarrow> Inl (InvalidSource x) | Inr _ \<Rightarrow> Inr ()) (\<lambda>_.
        and_then (case ev_metadata e of None \<Rightarrow> Inr () | Some m \<Rightarrow> metadata_validate m) (\<lambda>_.
        and_then (validate_event_key ''event_id'' (ev_event_id e)) (\<lambda>_.
        if ev_occurred_at e < 0 \<or> ev_observed_at e < ev_occurred_at e then Inl InvalidTimestamp
        else
        and_then (correlation_validate (ev_correlation e)) (\<lambda>_.
        if co_parent_run_key (ev_correlation e) \<noteq> None \<and> co_run_key (ev_correlation e) = None
        then Inl (MissingCorrelation ''run_key'')
        else if requires_run_key (payload_kind (ev_payload e)) \<and> co_run_key (ev_correlation e) = None
        then Inl (MissingCorrelation ''run_key'')
        else
        and_then (payload_validate sha (ev_payload e)) (\<lambda>_.
        (case ev_payload e of
           AttentionRequired a \<Rightarrow>
             if is_some_and (\<lambda>v. v \<le> ev_occurred_at e) (at_expires_at a) then Inl InvalidExpiry else Inr ()
         | _ \<Rightarrow> Inr ())))))))"

datatype agent_event_decode_error =
    DecodeUnsupportedSchema int | DecodeMalformed | DecodeInvalid agent_event_error

text \<open>\<open>probe\<close> reads the schema version of a JSON document and \<open>parse\<close> reads a whole envelope.\<close>

definition decode_json ::
  "(string \<Rightarrow> int option) \<Rightarrow> (string \<Rightarrow> agent_event option) \<Rightarrow> (string \<Rightarrow> string) \<Rightarrow> string
   \<Rightarrow> agent_event_decode_error + agent_event" where
  "decode_json probe parse sha bytes =
     and_then (ok_or DecodeMalformed (probe bytes)) (\<lambda>version.
     if version \<noteq> agent_event_schema_version then Inl (DecodeUnsupportedSchema version)
     else
     and_then (ok_or DecodeMalformed (parse bytes)) (\<lambda>e.
       (case envelope_validate sha e of Inl x \<Rightarrow> Inl (DecodeInvalid x) | Inr _ \<Rightarrow> Inr e)))"

definition event_payload_hash ::
  "(string \<Rightarrow> string) \<Rightarrow> (int \<times> agent_correlation \<times> agent_event_payload \<times> capture_metadata option \<Rightarrow> string option)
   \<Rightarrow> agent_event \<Rightarrow> string option" where
  "event_payload_hash b3 to_json e =
     (case to_json (ev_schema_version e, ev_correlation e, ev_payload e, ev_metadata e) of
        None \<Rightarrow> None
      | Some canonical \<Rightarrow> Some (derive_stable_key b3 ''agent-event-payload-v2'' [canonical]))"

section \<open>Stable keys\<close>

datatype stable_key_error =
    KeyEmpty string | KeyTooLong string | KeyContainsControl string | MissingIdentityComponents

definition max_stable_key_component_chars :: nat where "max_stable_key_component_chars = 1024"

definition validate_key_component :: "string \<Rightarrow> string \<Rightarrow> stable_key_error + unit" where
  "validate_key_component name v =
     (if trim_chars (utf8_decode v) = [] then Inl (KeyEmpty name)
      else if chars_count v > max_stable_key_component_chars then Inl (KeyTooLong name)
      else if list_ex is_control (utf8_decode v) then Inl (KeyContainsControl name)
      else Inr ())"

definition derive_agent_conversation_key ::
  "(string \<Rightarrow> string) \<Rightarrow> string \<Rightarrow> string \<Rightarrow> string \<Rightarrow> stable_key_error + string" where
  "derive_agent_conversation_key b3 kind inst conversation =
     and_then (validate_key_component ''instance_id'' inst) (\<lambda>_.
     and_then (validate_key_component ''external_conversation_id'' conversation) (\<lambda>_.
       Inr (derive_stable_key b3 ''agent-conversation-v1'' [kind, inst, conversation])))"

definition derive_agent_run_key ::
  "(string \<Rightarrow> string) \<Rightarrow> string \<Rightarrow> string \<Rightarrow> string \<Rightarrow> string \<Rightarrow> stable_key_error + string" where
  "derive_agent_run_key b3 kind inst conversation run =
     and_then (validate_key_component ''instance_id'' inst) (\<lambda>_.
     and_then (validate_key_component ''external_conversation_id'' conversation) (\<lambda>_.
     and_then (validate_key_component ''external_run_id'' run) (\<lambda>_.
       Inr (derive_stable_key b3 ''agent-run-v1'' [kind, inst, conversation, run]))))"

fun validate_key_components :: "string list \<Rightarrow> stable_key_error + unit" where
  "validate_key_components [] = Inr ()"
| "validate_key_components (c # cs) =
     and_then (validate_key_component ''event_identity_component'' c) (\<lambda>_. validate_key_components cs)"

definition derive_agent_event_id ::
  "(string \<Rightarrow> string) \<Rightarrow> agent_event_kind \<Rightarrow> string list \<Rightarrow> stable_key_error + string" where
  "derive_agent_event_id b3 kind identity_components =
     (if identity_components = [] then Inl MissingIdentityComponents
      else and_then (validate_key_components identity_components) (\<lambda>_.
        Inr (derive_stable_key b3 ''agent-event-id-v2'' (kind_as_str kind # identity_components))))"

definition content_hash :: "(string \<Rightarrow> string) \<Rightarrow> string \<Rightarrow> string" where
  "content_hash b3 text = derive_stable_key b3 ''agent-content-v1'' [text]"

end
