(* ===== verification/Run_Reducer.thy ===== *)
theory Run_Reducer
  imports Agent_Event
begin

text \<open>
  The projection of agent events to runs (\<open>apps/desktop/src-tauri/src/agent/run_reducer.rs\<close>) on the
  stored run record (\<open>storage/run_repository.rs\<close>): identity merging, start, activity, settling,
  terminal events with their confidence, and the finalizer of a settled run. The fields that the
  code stores as text stay text.
\<close>

section \<open>Runs\<close>

record agent_run =
  ru_run_key :: string
  ru_agent_kind :: string
  ru_instance_id :: string
  ru_conversation_key :: "string option"
  ru_parent_run_key :: "string option"
  ru_agent_id :: "string option"
  ru_agent_role :: "string option"
  ru_agent_label :: string
  ru_status :: string
  ru_outcome :: string
  ru_completion_confidence :: string
  ru_started_at :: "i64 option"
  ru_settling_at :: "i64 option"
  ru_settle_not_before :: "i64 option"
  ru_settle_generation :: i64
  ru_completed_at :: "i64 option"
  ru_failed_at :: "i64 option"
  ru_interrupted_at :: "i64 option"
  ru_cancelled_at :: "i64 option"
  ru_last_event_at :: i64

record run_transition =
  rt_run :: agent_run
  rt_terminal_applied :: bool
  rt_reopened_inferred_completion :: bool
  rt_replaced_inferred_completion :: bool

datatype run_state_error =
  MissingRunCorrelation | IdentityConflict | CorrelationConflict string | UnsupportedEvent

definition is_terminal_status :: "string \<Rightarrow> bool" where
  "is_terminal_status s \<longleftrightarrow>
     s \<in> {''completed'', ''failed'', ''interrupted'', ''cancelled'', ''abandoned''}"

definition can_reopen_inferred :: "agent_run \<Rightarrow> bool" where
  "can_reopen_inferred r \<longleftrightarrow> ru_status r = ''completed'' \<and> ru_completion_confidence r = ''inferred''"

definition is_absorbing_terminal :: "agent_run \<Rightarrow> bool" where
  "is_absorbing_terminal r \<longleftrightarrow> is_terminal_status (ru_status r) \<and> \<not> can_reopen_inferred r"

primrec confidence_rank :: "completion_confidence \<Rightarrow> nat" where
  "confidence_rank Authoritative = 4"
| "confidence_rank DefinitiveAdapter = 3"
| "confidence_rank Inferred = 2"
| "confidence_rank Provisional = 1"

definition stored_confidence_rank :: "string \<Rightarrow> nat" where
  "stored_confidence_rank v =
     (if v = ''authoritative'' then 4 else if v = ''definitive_adapter'' then 3
      else if v = ''inferred'' then 2 else 1)"

definition terminal_at :: "agent_run \<Rightarrow> i64 option" where
  "terminal_at r =
     (if ru_status r = ''completed'' then ru_completed_at r
      else if ru_status r = ''failed'' then ru_failed_at r
      else if ru_status r = ''interrupted'' then ru_interrupted_at r
      else if ru_status r = ''cancelled'' then ru_cancelled_at r
      else None)"

definition reopen_running :: "agent_run \<Rightarrow> agent_run" where
  "reopen_running r =
     r\<lparr>ru_status := ''running'', ru_outcome := ''unknown'',
       ru_completion_confidence := confidence_as_str Provisional,
       ru_settling_at := None, ru_settle_not_before := None, ru_completed_at := None,
       ru_failed_at := None, ru_interrupted_at := None, ru_cancelled_at := None\<rparr>"

section \<open>Identity\<close>

definition non_blank :: "string option \<Rightarrow> string option" where
  "non_blank v =
     (case v of None \<Rightarrow> None | Some s \<Rightarrow> if trim_chars (utf8_decode s) = [] then None else Some s)"

fun merge_correlation :: "string \<Rightarrow> string option \<Rightarrow> string option \<Rightarrow> run_state_error + string option" where
  "merge_correlation field (Some stored) (Some incoming) =
     (if stored \<noteq> incoming then Inl (CorrelationConflict field) else Inr (Some stored))"
| "merge_correlation field (Some stored) None = Inr (Some stored)"
| "merge_correlation field None incoming = Inr incoming"

definition new_run :: "string \<Rightarrow> agent_event \<Rightarrow> agent_run" where
  "new_run run_key e =
     \<lparr>ru_run_key = run_key, ru_agent_kind = sd_agent_kind (ev_source e),
      ru_instance_id = sd_instance_id (ev_source e),
      ru_conversation_key = co_conversation_key (ev_correlation e),
      ru_parent_run_key = co_parent_run_key (ev_correlation e),
      ru_agent_id = non_blank (co_agent_id (ev_correlation e)),
      ru_agent_role = non_blank (co_agent_role (ev_correlation e)),
      ru_agent_label = sd_agent_kind (ev_source e), ru_status = ''running'', ru_outcome = ''unknown'',
      ru_completion_confidence = confidence_as_str Provisional, ru_started_at = None,
      ru_settling_at = None, ru_settle_not_before = None, ru_settle_generation = 0,
      ru_completed_at = None, ru_failed_at = None, ru_interrupted_at = None, ru_cancelled_at = None,
      ru_last_event_at = ev_occurred_at e\<rparr>"

definition merge_run_identity :: "agent_run option \<Rightarrow> agent_event \<Rightarrow> run_state_error + agent_run" where
  "merge_run_identity current e =
     and_then (ok_or MissingRunCorrelation (co_run_key (ev_correlation e))) (\<lambda>run_key.
     (case current of
        None \<Rightarrow> Inr (new_run run_key e)
      | Some r \<Rightarrow>
          if ru_agent_kind r \<noteq> sd_agent_kind (ev_source e) \<or> ru_instance_id r \<noteq> sd_instance_id (ev_source e)
          then Inl IdentityConflict
          else
          and_then (merge_correlation ''conversation_key'' (ru_conversation_key r)
                      (co_conversation_key (ev_correlation e))) (\<lambda>conversation.
          and_then (merge_correlation ''parent_run_key'' (ru_parent_run_key r)
                      (co_parent_run_key (ev_correlation e))) (\<lambda>parent.
          and_then (merge_correlation ''agent_id'' (ru_agent_id r)
                      (non_blank (co_agent_id (ev_correlation e)))) (\<lambda>aid.
          and_then (merge_correlation ''agent_role'' (ru_agent_role r)
                      (non_blank (co_agent_role (ev_correlation e)))) (\<lambda>role.
            Inr (r\<lparr>ru_conversation_key := conversation, ru_parent_run_key := parent,
                   ru_agent_id := aid, ru_agent_role := role\<rparr>)))))))"

section \<open>Events\<close>

definition opt_min :: "i64 option \<Rightarrow> i64 \<Rightarrow> i64" where
  "opt_min v t = (case v of None \<Rightarrow> t | Some x \<Rightarrow> min x t)"

definition apply_run_started :: "agent_run \<Rightarrow> agent_event \<Rightarrow> run_started \<Rightarrow> agent_run" where
  "apply_run_started r e s =
     (if \<not> is_absorbing_terminal r
      then (reopen_running r)
             \<lparr>ru_agent_label := rn_agent_label s,
              ru_started_at := Some (opt_min (ru_started_at r) (ev_occurred_at e)),
              ru_last_event_at := max (ru_last_event_at r) (ev_occurred_at e)\<rparr>
      else
        let r1 = (if ru_agent_label r = ru_agent_kind r then r\<lparr>ru_agent_label := rn_agent_label s\<rparr> else r)
        in if is_some_and (\<lambda>t. ev_occurred_at e \<le> t) (terminal_at r1)
           then r1\<lparr>ru_started_at := Some (opt_min (ru_started_at r1) (ev_occurred_at e))\<rparr>
           else r1)"

definition apply_run_settling :: "agent_run \<Rightarrow> agent_event \<Rightarrow> i64 \<Rightarrow> agent_run" where
  "apply_run_settling r e quiet_ms =
     (if is_absorbing_terminal r then r
      else
        let r1 = (if ru_status r \<noteq> ''settling''
                  then r\<lparr>ru_settle_generation := i64_saturating_add (ru_settle_generation r) 1,
                         ru_settling_at := Some (ev_occurred_at e)\<rparr>
                  else r\<lparr>ru_settling_at := Some (opt_min (ru_settling_at r) (ev_occurred_at e))\<rparr>);
            deadline = i64_saturating_add (ev_observed_at e) quiet_ms
        in r1\<lparr>ru_status := ''settling'', ru_outcome := ''unknown'',
              ru_completion_confidence := confidence_as_str Provisional, ru_completed_at := None,
              ru_failed_at := None, ru_interrupted_at := None, ru_cancelled_at := None,
              ru_settle_not_before :=
                Some (case ru_settle_not_before r1 of None \<Rightarrow> deadline | Some d \<Rightarrow> max d deadline),
              ru_last_event_at := max (ru_last_event_at r1) (ev_occurred_at e)\<rparr>)"

definition apply_activity :: "agent_run \<Rightarrow> agent_event \<Rightarrow> agent_run" where
  "apply_activity r e =
     (if is_absorbing_terminal r then r
      else (reopen_running r)\<lparr>ru_last_event_at := max (ru_last_event_at r) (ev_occurred_at e)\<rparr>)"

definition ended_run :: "agent_run \<Rightarrow> agent_event \<Rightarrow> string \<Rightarrow> string \<Rightarrow> completion_confidence \<Rightarrow> agent_run" where
  "ended_run r e status oc confidence =
     r\<lparr>ru_status := status, ru_outcome := oc,
       ru_completion_confidence := confidence_as_str confidence, ru_settling_at := None,
       ru_settle_not_before := None,
       ru_completed_at := (if status = ''completed'' then Some (ev_occurred_at e) else None),
       ru_failed_at := (if status = ''failed'' then Some (ev_occurred_at e) else None),
       ru_interrupted_at := (if status = ''interrupted'' then Some (ev_occurred_at e) else None),
       ru_cancelled_at := (if status = ''cancelled'' then Some (ev_occurred_at e) else None),
       ru_last_event_at := max (ru_last_event_at r) (ev_occurred_at e)\<rparr>"

definition apply_terminal ::
  "agent_run \<Rightarrow> agent_event \<Rightarrow> string \<Rightarrow> string \<Rightarrow> completion_confidence \<Rightarrow> agent_run \<times> bool" where
  "apply_terminal r e status oc confidence =
     (if status = ''completed'' \<and> confidence \<noteq> Authoritative then (r, False)
      else if \<not> (\<not> is_terminal_status (ru_status r)
                 \<or> confidence_rank confidence > stored_confidence_rank (ru_completion_confidence r))
      then (r, False)
      else (ended_run r e status oc confidence, True))"

definition terminal_transition ::
  "agent_run \<Rightarrow> agent_event \<Rightarrow> string \<Rightarrow> string \<Rightarrow> completion_confidence \<Rightarrow> run_transition" where
  "terminal_transition r e status oc confidence =
     (let (r', applied) = apply_terminal r e status oc confidence
      in \<lparr>rt_run = r', rt_terminal_applied = applied, rt_reopened_inferred_completion = False,
          rt_replaced_inferred_completion = (can_reopen_inferred r \<and> applied)\<rparr>)"

definition reduce_run_with_quiet ::
  "agent_run option \<Rightarrow> agent_event \<Rightarrow> i64 \<Rightarrow> run_state_error + run_transition" where
  "reduce_run_with_quiet current e quiet_ms =
     and_then (merge_run_identity current e) (\<lambda>r.
     (case ev_payload e of
        RunStarted s \<Rightarrow>
          Inr \<lparr>rt_run = apply_run_started r e s, rt_terminal_applied = False,
               rt_reopened_inferred_completion = can_reopen_inferred r,
               rt_replaced_inferred_completion = False\<rparr>
      | RunSettling _ \<Rightarrow>
          Inr \<lparr>rt_run = apply_run_settling r e quiet_ms, rt_terminal_applied = False,
               rt_reopened_inferred_completion = False, rt_replaced_inferred_completion = False\<rparr>
      | RunCompleted c \<Rightarrow> Inr (terminal_transition r e ''completed'' ''success'' c)
      | RunFailed c \<Rightarrow> Inr (terminal_transition r e ''failed'' ''failure'' c)
      | RunInterrupted c \<Rightarrow> Inr (terminal_transition r e ''interrupted'' ''interrupted'' c)
      | RunCancelled c \<Rightarrow> Inr (terminal_transition r e ''cancelled'' ''cancelled'' c)
      | OutputProduced _ \<Rightarrow>
          Inr \<lparr>rt_run = apply_activity r e, rt_terminal_applied = False,
               rt_reopened_inferred_completion = can_reopen_inferred r,
               rt_replaced_inferred_completion = False\<rparr>
      | PromptSubmitted _ \<Rightarrow> Inl UnsupportedEvent
      | AttentionRequired _ \<Rightarrow> Inl UnsupportedEvent))"

definition inferred_completion :: "agent_run \<Rightarrow> agent_run" where
  "inferred_completion r =
     r\<lparr>ru_status := ''completed'', ru_outcome := ''unknown'',
       ru_completion_confidence := confidence_as_str Inferred,
       ru_completed_at :=
         Some (max (case ru_settling_at r of None \<Rightarrow> ru_last_event_at r | Some t \<Rightarrow> t) (ru_last_event_at r)),
       ru_failed_at := None, ru_interrupted_at := None, ru_cancelled_at := None,
       ru_settle_not_before := None\<rparr>"

definition finalize_due_run :: "agent_run \<Rightarrow> i64 \<Rightarrow> agent_run option" where
  "finalize_due_run r now =
     (if ru_status r \<noteq> ''settling'' \<or> (case ru_settle_not_before r of None \<Rightarrow> True | Some d \<Rightarrow> d > now)
      then None else Some (inferred_completion r))"

text \<open>
  What happens to one stored run: an event that is reduced, which the caller stores, or a pass of
  the finalizer.
\<close>

inductive run_step :: "agent_run option \<Rightarrow> agent_run option \<Rightarrow> bool" where
  event: "reduce_run_with_quiet current e quiet_ms = Inr t \<Longrightarrow> run_step current (Some (rt_run t))"
| finalized: "finalize_due_run r now = Some r' \<Longrightarrow> run_step (Some r) (Some r')"

section \<open>The invariant of a run\<close>

text \<open>Exactly the fields of the current status are set, and an open run is provisional.\<close>

definition run_inv :: "agent_run \<Rightarrow> bool" where
  "run_inv r \<longleftrightarrow>
     ru_status r \<in> {''running'', ''settling'', ''completed'', ''failed'', ''interrupted'', ''cancelled''}
     \<and> (ru_completed_at r \<noteq> None \<longleftrightarrow> ru_status r = ''completed'')
     \<and> (ru_failed_at r \<noteq> None \<longleftrightarrow> ru_status r = ''failed'')
     \<and> (ru_interrupted_at r \<noteq> None \<longleftrightarrow> ru_status r = ''interrupted'')
     \<and> (ru_cancelled_at r \<noteq> None \<longleftrightarrow> ru_status r = ''cancelled'')
     \<and> (ru_settle_not_before r \<noteq> None \<longleftrightarrow> ru_status r = ''settling'')
     \<and> (ru_status r = ''settling'' \<longrightarrow> ru_settling_at r \<noteq> None)
     \<and> (ru_status r = ''running'' \<longrightarrow> ru_settling_at r = None)
     \<and> (ru_status r \<in> {''running'', ''settling''}
          \<longrightarrow> ru_outcome r = ''unknown'' \<and> ru_completion_confidence r = ''provisional'')
     \<and> (ru_outcome r = ''success'' \<longrightarrow>
          ru_status r = ''completed'' \<and> ru_completion_confidence r = ''authoritative'')
     \<and> (ru_status r = ''completed'' \<longrightarrow> ru_completion_confidence r \<in> {''authoritative'', ''inferred''})
     \<and> ru_completion_confidence r \<in> range confidence_as_str"

primrec run_state_inv :: "agent_run option \<Rightarrow> bool" where
  "run_state_inv None = True"
| "run_state_inv (Some r) = run_inv r"

text \<open>The status and the outcome of each of the four terminal events.\<close>

definition terminal_kinds :: "(string \<times> string) set" where
  "terminal_kinds =
     {(''completed'', ''success''), (''failed'', ''failure''), (''interrupted'', ''interrupted''),
      (''cancelled'', ''cancelled'')}"

definition run_rank :: "agent_run \<Rightarrow> nat" where
  "run_rank r = stored_confidence_rank (ru_completion_confidence r)"

text \<open>What a run reports as its end.\<close>

definition run_end :: "agent_run \<Rightarrow> string \<times> string \<times> string \<times> i64 option" where
  "run_end r = (ru_status r, ru_outcome r, ru_completion_confidence r, terminal_at r)"

end
