(* ===== verification/Run_Correct.thy ===== *)
theory Run_Correct
  imports Run_Reducer
begin

text \<open>
  Correctness of the run projection: the invariant of a stored run, ends that are final, events
  that may be replayed, the quiet window before an inferred completion, and the identity of
  events.
\<close>

definition same_identity_keys :: "agent_run \<Rightarrow> agent_run \<Rightarrow> bool" where
  "same_identity_keys r r' \<longleftrightarrow>
     ru_agent_kind r' = ru_agent_kind r \<and> ru_instance_id r' = ru_instance_id r
     \<and> ru_conversation_key r' = ru_conversation_key r \<and> ru_parent_run_key r' = ru_parent_run_key r
     \<and> ru_agent_id r' = ru_agent_id r \<and> ru_agent_role r' = ru_agent_role r"

section \<open>Demonstration data\<close>

definition demo_source :: source_descriptor where
  "demo_source = \<lparr>sd_agent_kind = ''codex'', sd_source_id = ''events'', sd_source_kind = ''jsonl'', sd_instance_id = ''default''\<rparr>"

definition demo_event :: "i64 \<Rightarrow> agent_event_payload \<Rightarrow> agent_event" where
  "demo_event at p =
     \<lparr>ev_schema_version = 4, ev_source = demo_source, ev_event_id = ''e1'', ev_occurred_at = at, ev_observed_at = at + 5,
      ev_correlation = \<lparr>co_conversation_key = Some ''c'', co_run_key = Some ''r'', co_parent_run_key = None,
         co_agent_id = None, co_agent_role = None\<rparr>,
      ev_payload = p, ev_metadata = None\<rparr>"

definition demo_stop :: agent_event where
  "demo_stop = demo_event 100 (RunSettling \<lparr>se_reason = AgentStopHook, se_codex_usage = None\<rparr>)"

definition demo_settling :: agent_run where
  "demo_settling = (new_run ''r'' demo_stop)\<lparr>ru_status := ''settling'', ru_settling_at := Some 100,
     ru_settle_not_before := Some 1105, ru_settle_generation := 1\<rparr>"


section \<open>Lemmas\<close>

lemma stored_rank: "stored_confidence_rank (confidence_as_str c) = confidence_rank c"
  by (cases c) (simp_all add: stored_confidence_rank_def)

lemma range_confidence: "range confidence_as_str = {''authoritative'', ''definitive_adapter'', ''inferred'', ''provisional''}"
proof -
  have "UNIV = {Authoritative, DefinitiveAdapter, Inferred, Provisional}"
    by (auto intro: completion_confidence.exhaust)
  then show ?thesis by (metis (no_types) confidence_as_str.simps image_empty image_insert)
qed

lemma merge_identity_fields:
  assumes "merge_run_identity (Some r) e = Inr r'"
  obtains a b c d where
    "r' = r\<lparr>ru_conversation_key := a, ru_parent_run_key := b, ru_agent_id := c, ru_agent_role := d\<rparr>"
  using assms by (auto simp: merge_run_identity_def and_then_eq_Inr split: if_splits)

lemma run_inv_identity [simp]:
  "run_inv (r\<lparr>ru_conversation_key := a, ru_parent_run_key := b, ru_agent_id := c, ru_agent_role := d\<rparr>) = run_inv r"
  by (simp add: run_inv_def)

lemma merge_identity_inv:
  assumes "merge_run_identity current e = Inr r" "run_state_inv current"
  shows "run_inv r"
proof (cases current)
  case None
  then show ?thesis using assms(1)
    by (auto simp: merge_run_identity_def and_then_eq_Inr run_inv_def new_run_def range_confidence)
next
  case (Some q)
  with assms have q: "run_inv q" "merge_run_identity (Some q) e = Inr r" by simp_all
  from q(2) show ?thesis by (rule merge_identity_fields) (simp add: q(1))
qed

lemma run_inv_label [simp]:
  "run_inv (r\<lparr>ru_agent_label := l\<rparr>) = run_inv r" "run_inv (r\<lparr>ru_started_at := t\<rparr>) = run_inv r"
  by (simp_all add: run_inv_def)

lemma reopened_inv:
  "run_inv ((reopen_running r)\<lparr>ru_agent_label := l, ru_started_at := t, ru_last_event_at := k\<rparr>)"
  "run_inv ((reopen_running r)\<lparr>ru_last_event_at := k\<rparr>)"
  by (simp_all add: run_inv_def reopen_running_def range_confidence)

lemma apply_run_started_inv: "run_inv r \<Longrightarrow> run_inv (apply_run_started r e s)"
  by (simp add: apply_run_started_def Let_def reopened_inv)

lemma apply_activity_inv: "run_inv r \<Longrightarrow> run_inv (apply_activity r e)"
  by (simp add: apply_activity_def reopened_inv)

lemma apply_run_settling_inv: "run_inv r \<Longrightarrow> run_inv (apply_run_settling r e q)"
  by (cases "ru_status r = ''settling''")
    (simp_all add: apply_run_settling_def Let_def run_inv_def range_confidence)

lemma apply_terminal_cases:
  obtains (kept) "apply_terminal r e status oc c = (r, False)"
      "(status = ''completed'' \<and> c \<noteq> Authoritative)
       \<or> (is_terminal_status (ru_status r) \<and> confidence_rank c \<le> run_rank r)"
  | (ended) "apply_terminal r e status oc c = (ended_run r e status oc c, True)"
      "status = ''completed'' \<longrightarrow> c = Authoritative"
      "is_terminal_status (ru_status r) \<longrightarrow> run_rank r < confidence_rank c"
proof (cases "(status = ''completed'' \<and> c \<noteq> Authoritative)
       \<or> (is_terminal_status (ru_status r) \<and> confidence_rank c \<le> run_rank r)")
  case True
  then show ?thesis by (intro kept) (auto simp: apply_terminal_def run_rank_def)
next
  case False
  then show ?thesis by (intro ended) (auto simp: apply_terminal_def run_rank_def)
qed

lemma ended_run_inv:
  assumes "(status, oc) \<in> terminal_kinds" "status = ''completed'' \<longrightarrow> c = Authoritative"
  shows "run_inv (ended_run r e status oc c)"
proof -
  have "confidence_as_str c \<in> range confidence_as_str" by simp
  with assms show ?thesis
    unfolding terminal_kinds_def by (elim insertE) (simp_all add: ended_run_def run_inv_def range_confidence)
qed

lemma apply_terminal_inv:
  assumes "run_inv r" "(status, oc) \<in> terminal_kinds"
  shows "run_inv (fst (apply_terminal r e status oc c))"
  by (rule apply_terminal_cases [of r e status oc c]) (use assms ended_run_inv in simp_all)

lemma reduce_cases:
  assumes "reduce_run_with_quiet current e quiet_ms = Inr t"
  obtains (started) r s where "merge_run_identity current e = Inr r" "ev_payload e = RunStarted s"
      "rt_run t = apply_run_started r e s" "\<not> rt_terminal_applied t"
  | (settling) r s where "merge_run_identity current e = Inr r" "ev_payload e = RunSettling s"
      "rt_run t = apply_run_settling r e quiet_ms" "\<not> rt_terminal_applied t"
  | (activity) r s where "merge_run_identity current e = Inr r" "ev_payload e = OutputProduced s"
      "rt_run t = apply_activity r e" "\<not> rt_terminal_applied t"
  | (terminal) r status oc c where "merge_run_identity current e = Inr r" "(status, oc) \<in> terminal_kinds"
      "payload_confidence (ev_payload e) = Some c"
      "\<And>cur r'. merge_run_identity cur e = Inr r' \<Longrightarrow>
         reduce_run_with_quiet cur e quiet_ms = Inr (terminal_transition r' e status oc c)"
      "t = terminal_transition r e status oc c"
proof -
  obtain r where r: "merge_run_identity current e = Inr r"
    using assms by (auto simp: reduce_run_with_quiet_def and_then_eq_Inr)
  show ?thesis
  proof (cases "ev_payload e")
    case (RunStarted s)
    then show ?thesis using assms r by (intro started [of r s]) (auto simp: reduce_run_with_quiet_def)
  next
    case (RunSettling s)
    then show ?thesis using assms r by (intro settling [of r s]) (auto simp: reduce_run_with_quiet_def)
  next
    case (OutputProduced s)
    then show ?thesis using assms r by (intro activity [of r s]) (auto simp: reduce_run_with_quiet_def)
  next
    case (RunCompleted c)
    then show ?thesis using assms r
      by (intro terminal [of r "''completed''" "''success''" c]) (simp_all add: reduce_run_with_quiet_def terminal_kinds_def)
  next
    case (RunFailed c)
    then show ?thesis using assms r
      by (intro terminal [of r "''failed''" "''failure''" c]) (simp_all add: reduce_run_with_quiet_def terminal_kinds_def)
  next
    case (RunInterrupted c)
    then show ?thesis using assms r
      by (intro terminal [of r "''interrupted''" "''interrupted''" c]) (simp_all add: reduce_run_with_quiet_def terminal_kinds_def)
  next
    case (RunCancelled c)
    then show ?thesis using assms r
      by (intro terminal [of r "''cancelled''" "''cancelled''" c]) (simp_all add: reduce_run_with_quiet_def terminal_kinds_def)
  qed (use assms r in \<open>simp_all add: reduce_run_with_quiet_def\<close>)
qed

lemma terminal_transition_run: "rt_run (terminal_transition r e status oc c) = fst (apply_terminal r e status oc c)"
  by (simp add: terminal_transition_def split: prod.splits)

lemma reduce_inv:
  assumes "reduce_run_with_quiet current e quiet_ms = Inr t" "run_state_inv current"
  shows "run_inv (rt_run t)"
  using assms(1)
proof (cases rule: reduce_cases)
  case (terminal r status oc c)
  then show ?thesis
    using apply_terminal_inv [OF merge_identity_inv [OF terminal(1) assms(2)]]
    by (simp add: terminal_transition_run)
qed (simp_all add: apply_run_started_inv apply_run_settling_inv apply_activity_inv merge_identity_inv [OF _ assms(2)])

lemma finalize_Some:
  "finalize_due_run r now = Some r' \<longleftrightarrow>
     ru_status r = ''settling'' \<and> (\<exists>d. ru_settle_not_before r = Some d \<and> d \<le> now) \<and> r' = inferred_completion r"
  by (auto simp: finalize_due_run_def split: option.splits)

lemma inferred_completion_inv: "run_inv (inferred_completion r)"
  by (simp add: run_inv_def inferred_completion_def range_confidence)

lemma finalize_inv: "finalize_due_run r now = Some r' \<Longrightarrow> run_inv r'"
  by (auto simp: finalize_Some inferred_completion_inv)

lemma run_step_inv: "run_step a b \<Longrightarrow> run_state_inv a \<Longrightarrow> run_state_inv b"
  by (cases rule: run_step.cases) (auto dest: reduce_inv finalize_inv)

interpretation run_system: invariant_system run_step run_state_inv
  by unfold_locales (rule run_step_inv)

text \<open>
  C31: Every stored run is well formed: whatever events arrive in whatever order and whenever the
  finalizer runs, exactly the time of its current status is set, an open run is provisional with
  unknown outcome, and only an authoritative completion counts as success.
\<close>

theorem run_invariant:
  assumes "run_step\<^sup>*\<^sup>* None (Some r)"
  shows "run_inv r"
  using run_system.steps_inv [OF assms] by simp

section \<open>Lemmas: ends are final\<close>

lemma merge_identity_end:
  assumes "merge_run_identity (Some r) e = Inr r'"
  shows "run_end r' = run_end r" "is_absorbing_terminal r' = is_absorbing_terminal r" "run_rank r' = run_rank r"
    "ru_status r' = ru_status r" "ru_settle_not_before r' = ru_settle_not_before r"
proof -
  obtain a b c d where r': "r' = r\<lparr>ru_conversation_key := a, ru_parent_run_key := b, ru_agent_id := c, ru_agent_role := d\<rparr>"
    using assms by (rule merge_identity_fields)
  then show "run_end r' = run_end r" "is_absorbing_terminal r' = is_absorbing_terminal r" "run_rank r' = run_rank r"
    "ru_status r' = ru_status r" "ru_settle_not_before r' = ru_settle_not_before r"
    by (simp_all add: run_end_def is_absorbing_terminal_def can_reopen_inferred_def run_rank_def terminal_at_def)
qed

lemma ended_run_facts:
  assumes "(status, oc) \<in> terminal_kinds" "status = ''completed'' \<longrightarrow> c = Authoritative"
  shows "is_absorbing_terminal (ended_run r e status oc c)" "run_rank (ended_run r e status oc c) = confidence_rank c"
  using assms
  by (auto simp: terminal_kinds_def ended_run_def is_absorbing_terminal_def is_terminal_status_def
      can_reopen_inferred_def run_rank_def stored_rank)







section \<open>Lemmas: replays\<close>

lemma merge_correlation_again:
  "merge_correlation f stored incoming = Inr v \<Longrightarrow> merge_correlation f v incoming = Inr v"
  by (cases stored; cases incoming; cases v) (auto split: if_splits)

lemma merge_again:
  assumes "merge_run_identity current e = Inr r" "same_identity_keys r r'"
  shows "merge_run_identity (Some r') e = Inr r'"
proof -
  have none: "merge_correlation f v v = Inr v" for f v by (cases v) simp_all
  obtain k where k: "co_run_key (ev_correlation e) = Some k"
    using assms(1) by (auto simp: merge_run_identity_def and_then_eq_Inr)
  have keys: "ru_agent_kind r = sd_agent_kind (ev_source e)" "ru_instance_id r = sd_instance_id (ev_source e)"
    "merge_correlation ''conversation_key'' (ru_conversation_key r) (co_conversation_key (ev_correlation e))
       = Inr (ru_conversation_key r)"
    "merge_correlation ''parent_run_key'' (ru_parent_run_key r) (co_parent_run_key (ev_correlation e))
       = Inr (ru_parent_run_key r)"
    "merge_correlation ''agent_id'' (ru_agent_id r) (non_blank (co_agent_id (ev_correlation e))) = Inr (ru_agent_id r)"
    "merge_correlation ''agent_role'' (ru_agent_role r) (non_blank (co_agent_role (ev_correlation e)))
       = Inr (ru_agent_role r)"
    using assms(1) merge_correlation_again
    by (cases current; auto simp: merge_run_identity_def and_then_eq_Inr new_run_def none split: if_splits)+
  show ?thesis
    using keys assms(2) by (simp add: merge_run_identity_def k same_identity_keys_def)
qed

lemma label_start_simps [simp]:
  "is_absorbing_terminal (r\<lparr>ru_agent_label := l\<rparr>) = is_absorbing_terminal r"
  "is_absorbing_terminal (r\<lparr>ru_started_at := t\<rparr>) = is_absorbing_terminal r"
  "terminal_at (r\<lparr>ru_agent_label := l\<rparr>) = terminal_at r" "terminal_at (r\<lparr>ru_started_at := t\<rparr>) = terminal_at r"
  by (simp_all add: is_absorbing_terminal_def can_reopen_inferred_def terminal_at_def)

lemma opt_min_again [simp]: "opt_min (Some (opt_min v t)) t = opt_min v t" "opt_min (Some t) t = t"
  by (simp_all add: opt_min_def split: option.splits)

lemma reopened_not_absorbing:
  "\<not> is_absorbing_terminal ((reopen_running r)\<lparr>ru_agent_label := l, ru_started_at := t, ru_last_event_at := k\<rparr>)"
  "\<not> is_absorbing_terminal ((reopen_running r)\<lparr>ru_last_event_at := k\<rparr>)"
  by (simp_all add: is_absorbing_terminal_def is_terminal_status_def reopen_running_def)

lemma reopen_again:
  "reopen_running ((reopen_running r)\<lparr>ru_agent_label := l, ru_started_at := t, ru_last_event_at := k\<rparr>)
   = (reopen_running r)\<lparr>ru_agent_label := l, ru_started_at := t, ru_last_event_at := k\<rparr>"
  "reopen_running ((reopen_running r)\<lparr>ru_last_event_at := k\<rparr>) = (reopen_running r)\<lparr>ru_last_event_at := k\<rparr>"
  by (simp_all add: reopen_running_def)

lemma started_again: "apply_run_started (apply_run_started r e s) e s = apply_run_started r e s"
  by (cases "is_absorbing_terminal r")
    (simp_all add: apply_run_started_def Let_def reopened_not_absorbing reopen_again)

lemma activity_again: "apply_activity (apply_activity r e) e = apply_activity r e"
  by (simp add: apply_activity_def reopened_not_absorbing reopen_again)

lemma settling_again: "apply_run_settling (apply_run_settling r e q) e q = apply_run_settling r e q"
  by (cases "is_absorbing_terminal r"; cases "ru_status r = ''settling''")
    (auto simp: apply_run_settling_def Let_def is_absorbing_terminal_def is_terminal_status_def opt_min_def split: option.splits)

lemma terminal_again:
  assumes "(status, oc) \<in> terminal_kinds"
  shows "apply_terminal (fst (apply_terminal r e status oc c)) e status oc c = (fst (apply_terminal r e status oc c), False)"
proof (cases rule: apply_terminal_cases [of r e status oc c])
  case kept
  then show ?thesis by simp
next
  case ended
  note f = ended_run_facts [OF assms ended(2), of r e]
  then show ?thesis
    unfolding ended(1) fst_conv by (simp add: apply_terminal_def is_absorbing_terminal_def run_rank_def)
qed

lemma apply_identity:
  "same_identity_keys r (apply_run_started r e s)" "same_identity_keys r (apply_activity r e)"
  "same_identity_keys r (apply_run_settling r e q)" "same_identity_keys r (fst (apply_terminal r e st oc c))"
  by (simp_all add: same_identity_keys_def apply_run_started_def apply_activity_def apply_run_settling_def apply_terminal_def
      ended_run_def reopen_running_def Let_def)

text \<open>
  C32: Replaying an event changes nothing: reducing the event again on the run it produced
  succeeds, gives the same run and applies no terminal state.
\<close>

theorem replayed_event_changes_nothing:
  assumes "reduce_run_with_quiet current e quiet_ms = Inr t"
  shows "\<exists>t'. reduce_run_with_quiet (Some (rt_run t)) e quiet_ms = Inr t'
    \<and> rt_run t' = rt_run t \<and> \<not> rt_terminal_applied t'"
  using assms
proof (cases rule: reduce_cases)
  case (started r s)
  then show ?thesis using merge_again [OF started(1) apply_identity(1)] started_again
    by (simp add: reduce_run_with_quiet_def)
next
  case (settling r s)
  then show ?thesis using merge_again [OF settling(1) apply_identity(3)] settling_again
    by (simp add: reduce_run_with_quiet_def)
next
  case (activity r s)
  then show ?thesis using merge_again [OF activity(1) apply_identity(2)] activity_again
    by (simp add: reduce_run_with_quiet_def)
next
  case (terminal r status oc c)
  have "rt_run t = fst (apply_terminal r e status oc c)" by (simp add: terminal(5) terminal_transition_run)
  then show ?thesis
    using terminal(4) [OF merge_again [OF terminal(1) apply_identity(4)]] terminal_again [OF terminal(2), of r e c]
    by (simp add: terminal_transition_def)
qed

section \<open>Lemmas: the quiet window\<close>

lemma settling_step:
  assumes "run_step (Some r) (Some r')" "ru_status r = ''settling''" "ru_status r' = ''settling''"
    "ru_settle_not_before r = Some d"
  shows "\<exists>d'. ru_settle_not_before r' = Some d' \<and> d \<le> d'"
  using assms(1)
proof (cases rule: run_step.cases)
  case (event e quiet_ms t)
  from event(2) show ?thesis
  proof (cases rule: reduce_cases)
    case (started m s)
    then show ?thesis using event(1) assms(3) merge_identity_end(4) [OF started(1)] assms(2)
      by (simp add: apply_run_started_def is_absorbing_terminal_def is_terminal_status_def reopen_running_def)
  next
    case (settling m s)
    note m = merge_identity_end [OF settling(1)]
    show ?thesis using m(4,5) assms(2,4) settling(3) event(1)
      by (simp add: apply_run_settling_def Let_def is_absorbing_terminal_def is_terminal_status_def)
  next
    case (activity m s)
    then show ?thesis using event(1) assms(3) merge_identity_end(4) [OF activity(1)] assms(2)
      by (simp add: apply_activity_def is_absorbing_terminal_def is_terminal_status_def reopen_running_def)
  next
    case (terminal m status oc c)
    note m = merge_identity_end [OF terminal(1)]
    have run: "r' = fst (apply_terminal m e status oc c)" using event(1) by (simp add: terminal(5) terminal_transition_run)
    show ?thesis
    proof (cases rule: apply_terminal_cases [of m e status oc c])
      case kept
      then show ?thesis using run m(5) assms(4) by simp
    next
      case ended
      then show ?thesis using run assms(3) terminal(2) by (auto simp: ended_run_def terminal_kinds_def)
    qed
  qed
next
  case (finalized now)
  then show ?thesis using assms(3) by (simp add: finalize_Some inferred_completion_def)
qed

text \<open>Steps during which the run stays in the settling state.\<close>

lemma settling_steps:
  assumes "(\<lambda>a b. run_step (Some a) (Some b) \<and> ru_status b = ''settling'')\<^sup>*\<^sup>* r r'" "ru_status r = ''settling''"
    "ru_settle_not_before r = Some d"
  shows "ru_status r' = ''settling'' \<and> (\<exists>d'. ru_settle_not_before r' = Some d' \<and> d \<le> d')"
  using assms
proof (induction rule: rtranclp_induct)
  case (step y z)
  then obtain d' where "ru_settle_not_before y = Some d'" "d \<le> d'" "ru_status y = ''settling''" by auto
  then show ?case using settling_step [of y z d'] step.hyps(2) by fastforce
qed simp

text \<open>
  C13: A completion is inferred only after the quiet window: while a run stays settling, the
  finalizer completes it no earlier than the quiet time after any stop that was observed, and
  the completion claims no success.
\<close>

theorem completion_waits_for_quiet:
  assumes "reduce_run_with_quiet current e quiet_ms = Inr t" "ev_payload e = RunSettling s"
    "ru_status (rt_run t) = ''settling''"
    "(\<lambda>a b. run_step (Some a) (Some b) \<and> ru_status b = ''settling'')\<^sup>*\<^sup>* (rt_run t) r"
    "finalize_due_run r now = Some r'"
  shows "i64_saturating_add (ev_observed_at e) quiet_ms \<le> now \<and> ru_completion_confidence r' = ''inferred''
    \<and> ru_outcome r' = ''unknown''"
proof -
  obtain m where "merge_run_identity current e = Inr m" "rt_run t = apply_run_settling m e quiet_ms"
    using assms(1,2) by (auto simp: reduce_run_with_quiet_def and_then_eq_Inr)
  then obtain d where "ru_settle_not_before (rt_run t) = Some d" "i64_saturating_add (ev_observed_at e) quiet_ms \<le> d"
    using assms(3) by (auto simp: apply_run_settling_def Let_def is_absorbing_terminal_def is_terminal_status_def split: if_splits option.splits)
  then show ?thesis
    using settling_steps [OF assms(4,3)] assms(5) by (auto simp: finalize_Some inferred_completion_def)
qed

section \<open>Lemmas: decoded events\<close>

lemma decoded_run_key:
  assumes "decode_json probe parse sha bytes = Inr e" "requires_run_key (payload_kind (ev_payload e))"
  obtains k where "co_run_key (ev_correlation e) = Some k"
  using assms
  by (auto simp: decode_json_def and_then_eq_Inr envelope_validate_def split: if_splits sum.splits)

text \<open>
  C33: Every decoded event of a kind that concerns a run can be projected: it starts a run under
  its own key, and a stored run refuses it only because it belongs to another agent instance or
  contradicts a stored correlation.
\<close>

theorem decoded_events_project:
  assumes "decode_json probe parse sha bytes = Inr e" "requires_run_key (payload_kind (ev_payload e))"
  shows "(\<exists>t. reduce_run_with_quiet None e quiet_ms = Inr t \<and> Some (ru_run_key (rt_run t)) = co_run_key (ev_correlation e))
    \<and> (\<forall>r. (\<exists>t. reduce_run_with_quiet (Some r) e quiet_ms = Inr t)
           \<or> reduce_run_with_quiet (Some r) e quiet_ms = Inl IdentityConflict
           \<or> (\<exists>f. reduce_run_with_quiet (Some r) e quiet_ms = Inl (CorrelationConflict f)))"
proof -
  obtain k where k: "co_run_key (ev_correlation e) = Some k" using assms by (rule decoded_run_key)
  have ok: "\<exists>t. reduce_run_with_quiet cur e quiet_ms = Inr t \<and> ru_run_key (rt_run t) = ru_run_key m"
    if "merge_run_identity cur e = Inr m" for cur m
    using that assms(2)
    by (cases "ev_payload e")
      (auto simp: reduce_run_with_quiet_def requires_run_key_def terminal_transition_run apply_terminal_def ended_run_def
        apply_run_started_def apply_run_settling_def apply_activity_def reopen_running_def Let_def)
  have new: "merge_run_identity None e = Inr (new_run k e)" by (simp add: merge_run_identity_def k)
  have conflict: "x = IdentityConflict \<or> (\<exists>f. x = CorrelationConflict f)"
    if "merge_run_identity (Some r) e = Inl x" for r x
  proof -
    have "\<exists>f. y = CorrelationConflict f" if "merge_correlation f a b = Inl y" for f a b y
      using that by (cases a; cases b) (auto split: if_splits)
    then show ?thesis using that by (auto simp: merge_run_identity_def k and_then_eq_Inl split: if_splits)
  qed
  have "(\<exists>t. reduce_run_with_quiet (Some r) e quiet_ms = Inr t)
      \<or> reduce_run_with_quiet (Some r) e quiet_ms = Inl IdentityConflict
      \<or> (\<exists>f. reduce_run_with_quiet (Some r) e quiet_ms = Inl (CorrelationConflict f))" for r
  proof (cases "merge_run_identity (Some r) e")
    case (Inl x)
    then have "reduce_run_with_quiet (Some r) e quiet_ms = Inl x" by (simp add: reduce_run_with_quiet_def)
    then show ?thesis using conflict [OF Inl] by auto
  next
    case (Inr m)
    then show ?thesis using ok [OF Inr] by blast
  qed
  then show ?thesis using ok [OF new] k by (auto simp: new_run_def)
qed




lemma demo_settling_step:
  "reduce_run_with_quiet None demo_stop 1000 = Inr \<lparr>rt_run = demo_settling, rt_terminal_applied = False,
     rt_reopened_inferred_completion = False, rt_replaced_inferred_completion = False\<rparr>"
  by (simp add: reduce_run_with_quiet_def merge_run_identity_def demo_stop_def demo_event_def apply_run_settling_def
      demo_settling_def new_run_def is_absorbing_terminal_def is_terminal_status_def Let_def i64_saturating_add_def
      i64_saturating_def i64_bounds)

theorem run_invariant_witness: "run_inv (inferred_completion demo_settling)"
proof -
  have "run_step None (Some demo_settling)" using run_step.event [OF demo_settling_step] by simp
  moreover have "run_step (Some demo_settling) (Some (inferred_completion demo_settling))"
    by (rule run_step.finalized [of _ 2000]) (simp add: finalize_Some demo_settling_def)
  ultimately show ?thesis by (intro run_invariant) (meson r_into_rtranclp rtranclp.rtrancl_into_rtrancl)
qed


theorem replayed_event_changes_nothing_witness:
  "\<exists>t'. reduce_run_with_quiet (Some demo_settling) demo_stop 1000 = Inr t' \<and> rt_run t' = demo_settling"
  using replayed_event_changes_nothing [OF demo_settling_step] by auto

theorem completion_waits_for_quiet_witness:
  "finalize_due_run demo_settling 1105 = Some (inferred_completion demo_settling) \<and> i64_saturating_add 105 1000 \<le> 1105"
proof -
  have f: "finalize_due_run demo_settling 1105 = Some (inferred_completion demo_settling)"
    by (simp add: finalize_Some demo_settling_def)
  show ?thesis
    using completion_waits_for_quiet [OF demo_settling_step, of "\<lparr>se_reason = AgentStopHook, se_codex_usage = None\<rparr>" demo_settling 1105] f
    by (simp add: demo_stop_def demo_event_def demo_settling_def)
qed

theorem decoded_events_project_witness:
  "\<exists>t. reduce_run_with_quiet None demo_stop 1000 = Inr t \<and> ru_run_key (rt_run t) = ''r''"
proof -
  have p: "printable ''codex''" "printable ''events''" "printable ''jsonl''" "printable ''default''" "printable ''e1''"
    "printable ''c''" "printable ''r''"
    by (simp_all add: printable_def byte_of_def)
  have key: "validate_event_key n w = Inr ()" "validate_source_component n w = Inr ()"
    if "printable w" "length w \<le> 128" for n w
    using that printable_text [OF that(1)]
    by (auto simp: validate_source_component_def validate_event_key_def validate_bounded_text_def
        max_source_component_chars_def max_key_chars_def list_ex_iff)
  have "decode_json (\<lambda>_. Some 4) (\<lambda>_. Some demo_stop) id ''x'' = Inr demo_stop"
    using p by (simp add: decode_json_def agent_event_schema_version_def envelope_validate_def demo_stop_def demo_event_def
        demo_source_def source_validate_def correlation_validate_def key)
  then show ?thesis
    using decoded_events_project [of "\<lambda>_. Some 4" "\<lambda>_. Some demo_stop" id "''x''" demo_stop 1000]
    by (auto simp: demo_stop_def demo_event_def requires_run_key_def)
qed


end
