(* ===== verification/Dispatch_Hold.thy ===== *)
theory Dispatch_Hold
  imports Relay_Prelude
begin

text \<open>
  The user's hold on notification delivery (\<open>apps/desktop/src-tauri/src/notification/hold.rs\<close>): the
  stored hold document with its optimistic revision, the in-memory gate that serialises a hold with
  the start of HTTP requests, and the send permits. Every operation runs under the mutex of the
  gate, so an execution is a sequence of whole operations. The table \<open>app_metadata\<close> is a map from
  its keys to its values and \<open>Db::with_transaction\<close> of \<open>db.rs\<close> keeps its change counter. The faults
  of the store, the clock and the polled request are arguments; the JSON library is the pair of
  functions \<open>hold_json\<close>.
\<close>

section \<open>Data\<close>

definition hold_metadata_key :: string where
  "hold_metadata_key = ''notification_user_hold_v1''"

definition hold_15_minutes_ms :: i64 where "hold_15_minutes_ms = 15 * 60 * 1000"
definition hold_60_minutes_ms :: i64 where "hold_60_minutes_ms = 60 * 60 * 1000"
definition hold_max_safe_integer :: u64 where "hold_max_safe_integer = 9007199254740991"

datatype hold_duration = Minutes15 | Minutes60

fun hold_milliseconds :: "hold_duration \<Rightarrow> i64" where
  "hold_milliseconds Minutes15 = hold_15_minutes_ms"
| "hold_milliseconds Minutes60 = hold_60_minutes_ms"

datatype user_hold_state = HoldActive | HoldInactive | HoldUncertain

record user_hold_status =
  hs_revision :: u64
  hs_started_at :: "i64 option"
  hs_until :: "i64 option"
  hs_requested_duration :: "i64 option"
  hs_state :: user_hold_state

record hold_receipt =
  hr_status :: string
  hr_state :: user_hold_status

record hold_document =
  hd_revision :: u64
  hd_started_at :: "i64 option"
  hd_until :: "i64 option"
  hd_requested_duration :: "i64 option"

datatype loaded_document = LoadedValid hold_document | LoadedInvalid

datatype hold_error =
    InvalidHoldTime | HoldRevisionExhausted | HoldDocumentInvalid | NotificationHoldActive
  | NotificationHoldUncertain | NotificationHoldUnavailable | HoldStoreError

record hold_gate =
  hg_generation :: u64
  hg_release_generation :: u64
  hg_held :: bool
  hg_in_flight :: u32

definition default_gate :: hold_gate where
  "default_gate = \<lparr>hg_generation = 0, hg_release_generation = 0, hg_held = False, hg_in_flight = 0\<rparr>"

record send_permit =
  sp_generation :: u64

datatype http_start_error = StartHeld | StartCancelled

text \<open>The store: the rows of \<open>app_metadata\<close>, SQLite's change count and the revision of \<open>Db\<close>.\<close>

record hold_store =
  st_metadata :: "string \<Rightarrow> string option"
  st_total_changes :: nat
  st_revision :: u64

text \<open>The process: the store and the gate with the poison flag of its mutex.\<close>

record hold_world =
  hw_store :: hold_store
  hw_gate :: hold_gate
  hw_poisoned :: bool

record hold_json =
  hj_to_string :: "hold_document \<Rightarrow> string option"
  hj_from_str :: "string \<Rightarrow> hold_document option"

text \<open>What the store does during one call: it opens, it reads (the n-th query), it writes, it commits.\<close>

record hold_faults =
  hf_begin :: bool
  hf_read :: "nat \<Rightarrow> bool"
  hf_write :: bool
  hf_commit :: bool

section \<open>The store\<close>

definition with_transaction ::
  "hold_faults \<Rightarrow> (hold_store \<Rightarrow> (hold_store, hold_error, 'a) effect) \<Rightarrow> hold_store
     \<Rightarrow> (hold_store, hold_error, 'a) effect" where
  "with_transaction fl operation st =
     (if \<not> hf_begin fl then (st, Inl HoldStoreError)
      else case operation st of
        (st', Inl e) \<Rightarrow> (st'\<lparr>st_metadata := st_metadata st\<rparr>, Inl e)
      | (st', Inr v) \<Rightarrow>
          if \<not> hf_commit fl then (st'\<lparr>st_metadata := st_metadata st\<rparr>, Inl HoldStoreError)
          else (if st_total_changes st' \<noteq> st_total_changes st
                then st'\<lparr>st_revision := st_revision st' + 1\<rparr> else st', Inr v))"

text \<open>\<open>substr(value, 1, n)\<close> on TEXT: the first n characters, up to a NUL.\<close>

definition sql_substr :: "nat \<Rightarrow> string \<Rightarrow> string" where
  "sql_substr n s = utf8_encode (take n (takeWhile (\<lambda>c. c \<noteq> 0) (utf8_decode s)))"

definition valid_document :: "hold_document \<Rightarrow> bool" where
  "valid_document d =
     (if hd_revision d > hold_max_safe_integer then False
      else case (hd_started_at d, hd_until d, hd_requested_duration d) of
        (None, None, None) \<Rightarrow> True
      | (Some started_at, Some until, Some duration) \<Rightarrow>
          started_at \<ge> 0
          \<and> (duration = hold_15_minutes_ms \<or> duration = hold_60_minutes_ms)
          \<and> i64_checked_add started_at duration = Some until
      | _ \<Rightarrow> False)"

definition parse_document :: "hold_json \<Rightarrow> string \<Rightarrow> loaded_document" where
  "parse_document j raw =
     (if length raw > 256 then LoadedInvalid
      else case hj_from_str j raw of
        Some document \<Rightarrow> if valid_document document then LoadedValid document else LoadedInvalid
      | None \<Rightarrow> LoadedInvalid)"

definition stored_document :: "hold_json \<Rightarrow> hold_store \<Rightarrow> loaded_document option" where
  "stored_document j st =
     map_option (\<lambda>value. parse_document j (sql_substr 257 value)) (st_metadata st hold_metadata_key)"

definition load_document_tx ::
  "hold_json \<Rightarrow> hold_faults \<Rightarrow> nat \<Rightarrow> hold_store \<Rightarrow> hold_error + loaded_document option" where
  "load_document_tx j fl n st =
     (if hf_read fl n then Inr (stored_document j st) else Inl HoldStoreError)"

definition status_from_document :: "hold_document \<Rightarrow> i64 \<Rightarrow> user_hold_status" where
  "status_from_document d now =
     \<lparr>hs_revision = hd_revision d, hs_started_at = hd_started_at d, hs_until = hd_until d,
      hs_requested_duration = hd_requested_duration d,
      hs_state =
        (case (hd_started_at d, hd_until d) of
           (Some started_at, Some until) \<Rightarrow>
             if now < started_at then HoldUncertain
             else if now < until then HoldActive else HoldInactive
         | _ \<Rightarrow> HoldInactive)\<rparr>"

fun status_from_loaded :: "loaded_document option \<Rightarrow> i64 \<Rightarrow> user_hold_status" where
  "status_from_loaded (Some (LoadedValid d)) now = status_from_document d now"
| "status_from_loaded (Some LoadedInvalid) now =
     \<lparr>hs_revision = 0, hs_started_at = None, hs_until = None, hs_requested_duration = None,
      hs_state = HoldUncertain\<rparr>"
| "status_from_loaded None now =
     \<lparr>hs_revision = 0, hs_started_at = None, hs_until = None, hs_requested_duration = None,
      hs_state = HoldInactive\<rparr>"

definition load_status ::
  "hold_json \<Rightarrow> hold_faults \<Rightarrow> i64 \<Rightarrow> hold_store \<Rightarrow> hold_error + user_hold_status" where
  "load_status j fl now st =
     (if hf_read fl 0 then Inr (status_from_loaded (stored_document j st) now)
      else Inl HoldStoreError)"

definition valid_now :: "i64 \<Rightarrow> hold_error + unit" where
  "valid_now now = (if now < 0 then Inl InvalidHoldTime else Inr ())"

definition next_revision :: "u64 \<Rightarrow> hold_error + u64" where
  "next_revision revision =
     ok_or HoldRevisionExhausted
       (case u_checked_add revision 1 of
          Some value \<Rightarrow> if value \<le> hold_max_safe_integer then Some value else None
        | None \<Rightarrow> None)"

definition store_tx ::
  "hold_json \<Rightarrow> hold_faults \<Rightarrow> hold_document \<Rightarrow> hold_store \<Rightarrow> (hold_store, hold_error, unit) effect" where
  "store_tx j fl d st =
     (case hj_to_string j d of
        None \<Rightarrow> (st, Inl HoldDocumentInvalid)
      | Some encoded \<Rightarrow>
          if \<not> hf_write fl then (st, Inl HoldStoreError)
          else (st\<lparr>st_metadata := (st_metadata st)(hold_metadata_key \<mapsto> encoded),
                   st_total_changes := st_total_changes st + 1\<rparr>, Inr ()))"

section \<open>The gate\<close>

definition sync_gate_state :: "bool \<Rightarrow> hold_gate \<Rightarrow> hold_gate" where
  "sync_gate_state held g =
     (if hg_held g \<noteq> held then
        g\<lparr>hg_held := held, hg_generation := hg_generation g + 1,
          hg_release_generation := (if \<not> held then hg_release_generation g + 1
                                    else hg_release_generation g)\<rparr>
      else g)"

definition release_generation :: "hold_world \<Rightarrow> u64" where
  "release_generation w = (if hw_poisoned w then 0 else hg_release_generation (hw_gate w))"

definition guard_drop :: "hold_world \<Rightarrow> hold_world" where
  "guard_drop w =
     (if hw_poisoned w then w
      else w\<lparr>hw_gate := (hw_gate w)\<lparr>hg_in_flight := u_saturating_sub (hg_in_flight (hw_gate w)) 1\<rparr>\<rparr>)"

text \<open>
  The gates of the process: the registry keeps a weak reference per database, which upgrades while
  the gate is allocated.
\<close>

record gate_table =
  gt_gates :: "nat \<Rightarrow> hold_gate option"
  gt_registry :: "nat \<Rightarrow> nat option"

definition gate_for_db :: "nat \<Rightarrow> nat \<Rightarrow> gate_table \<Rightarrow> gate_table \<times> nat" where
  "gate_for_db key fresh t =
     (case Option.bind (gt_registry t key) (\<lambda>g. map_option (\<lambda>_. g) (gt_gates t g)) of
        Some g \<Rightarrow> (t, g)
      | None \<Rightarrow>
          let retained = (\<lambda>k. Option.bind (gt_registry t k) (\<lambda>g. map_option (\<lambda>_. g) (gt_gates t g)))
          in (\<lparr>gt_gates = (gt_gates t)(fresh \<mapsto> default_gate),
               gt_registry = retained(key \<mapsto> fresh)\<rparr>, fresh))"

section \<open>The controller\<close>

definition status_at ::
  "hold_json \<Rightarrow> hold_faults \<Rightarrow> i64 \<Rightarrow> hold_world \<Rightarrow> hold_error + user_hold_status" where
  "status_at j fl now w =
     (if \<not> hf_begin fl then Inl HoldStoreError else load_status j fl now (hw_store w))"

definition require_not_held ::
  "hold_json \<Rightarrow> hold_faults \<Rightarrow> i64 \<Rightarrow> hold_world \<Rightarrow> hold_error + unit" where
  "require_not_held j fl now w =
     and_then (status_at j fl now w) (\<lambda>status.
       case hs_state status of
         HoldInactive \<Rightarrow> Inr ()
       | HoldActive \<Rightarrow> Inl NotificationHoldActive
       | HoldUncertain \<Rightarrow> Inl NotificationHoldUncertain)"

definition permits_send_tx ::
  "hold_json \<Rightarrow> hold_faults \<Rightarrow> i64 \<Rightarrow> hold_store \<Rightarrow> (hold_store, hold_error, bool) effect" where
  "permits_send_tx j fl now st =
     (st, and_then (valid_now now) (\<lambda>_.
          and_then (load_document_tx j fl 0 st) (\<lambda>loaded.
            case loaded of
              None \<Rightarrow> Inr True
            | Some (LoadedValid document) \<Rightarrow>
                (case hs_state (status_from_document document now) of
                   HoldInactive \<Rightarrow> Inr True
                 | HoldActive \<Rightarrow> Inr False
                 | HoldUncertain \<Rightarrow> Inr False)
            | Some LoadedInvalid \<Rightarrow> Inr False)))"

definition acquire_send_permit ::
  "hold_json \<Rightarrow> hold_faults \<Rightarrow> i64 \<Rightarrow> hold_world \<Rightarrow> (hold_world, hold_error, send_permit option) effect" where
  "acquire_send_permit j fl now w =
     (if hw_poisoned w then (w, Inl NotificationHoldUnavailable)
      else case with_transaction fl (permits_send_tx j fl now) (hw_store w) of
        (st, Inl e) \<Rightarrow> (w\<lparr>hw_store := st\<rparr>, Inl e)
      | (st, Inr allowed) \<Rightarrow>
          let g = sync_gate_state (\<not> allowed) (hw_gate w)
          in (w\<lparr>hw_store := st, hw_gate := g\<rparr>,
              Inr (if allowed then Some \<lparr>sp_generation = hg_generation g\<rparr> else None)))"

definition hold_transaction ::
  "hold_json \<Rightarrow> hold_faults \<Rightarrow> u64 \<Rightarrow> hold_duration \<Rightarrow> i64 \<Rightarrow> hold_store
     \<Rightarrow> (hold_store, hold_error, hold_receipt) effect" where
  "hold_transaction j fl expected_revision duration now st =
     st_then (st, load_document_tx j fl 0 st) (\<lambda>st current.
       let (revision, valid) =
             (case current of
                Some (LoadedValid document) \<Rightarrow> (hd_revision document, True)
              | Some LoadedInvalid \<Rightarrow> (0, False)
              | None \<Rightarrow> (0, True))
       in if \<not> valid \<or> revision \<noteq> expected_revision then
            st_then (st, load_document_tx j fl 1 st) (\<lambda>st loaded.
              (st, Inr \<lparr>hr_status = ''conflict'', hr_state = status_from_loaded loaded now\<rparr>))
          else
            st_then (st, next_revision revision) (\<lambda>st revision.
              let requested_duration = hold_milliseconds duration
              in st_then (st, ok_or InvalidHoldTime (i64_checked_add now requested_duration)) (\<lambda>st until.
                let document =
                      \<lparr>hd_revision = revision, hd_started_at = Some now, hd_until = Some until,
                       hd_requested_duration = Some requested_duration\<rparr>
                in st_then (store_tx j fl document st) (\<lambda>st _.
                     (st, Inr \<lparr>hr_status = ''applied'',
                               hr_state = status_from_document document now\<rparr>)))))"

definition hold ::
  "hold_json \<Rightarrow> hold_faults \<Rightarrow> u64 \<Rightarrow> hold_duration \<Rightarrow> i64 \<Rightarrow> hold_world
     \<Rightarrow> (hold_world, hold_error, hold_receipt) effect" where
  "hold j fl expected_revision duration now w =
     st_then (w, valid_now now) (\<lambda>w _.
       if hw_poisoned w then (w, Inl NotificationHoldUnavailable)
       else case with_transaction fl (hold_transaction j fl expected_revision duration now) (hw_store w) of
         (st, Inl e) \<Rightarrow> (w\<lparr>hw_store := st\<rparr>, Inl e)
       | (st, Inr receipt) \<Rightarrow>
           (if hr_status receipt = ''applied''
            then w\<lparr>hw_store := st, hw_gate := sync_gate_state True (hw_gate w)\<rparr>
            else w\<lparr>hw_store := st\<rparr>, Inr receipt))"

definition resume_transaction ::
  "hold_json \<Rightarrow> hold_faults \<Rightarrow> u64 \<Rightarrow> i64 \<Rightarrow> hold_store \<Rightarrow> (hold_store, hold_error, hold_receipt) effect" where
  "resume_transaction j fl expected_revision now st =
     st_then (st, load_document_tx j fl 0 st) (\<lambda>st current.
       let revision = (case current of Some (LoadedValid document) \<Rightarrow> hd_revision document | _ \<Rightarrow> 0)
       in if revision \<noteq> expected_revision then
            (st, Inr \<lparr>hr_status = ''conflict'', hr_state = status_from_loaded current now\<rparr>)
          else
            st_then (st, next_revision revision) (\<lambda>st revision.
              let document =
                    \<lparr>hd_revision = revision, hd_started_at = None, hd_until = None,
                     hd_requested_duration = None\<rparr>
              in st_then (store_tx j fl document st) (\<lambda>st _.
                   (st, Inr \<lparr>hr_status = ''applied'',
                             hr_state = status_from_document document now\<rparr>))))"

definition resume ::
  "hold_json \<Rightarrow> hold_faults \<Rightarrow> u64 \<Rightarrow> i64 \<Rightarrow> hold_world \<Rightarrow> (hold_world, hold_error, hold_receipt) effect" where
  "resume j fl expected_revision now w =
     st_then (w, valid_now now) (\<lambda>w _.
       if hw_poisoned w then (w, Inl NotificationHoldUnavailable)
       else case with_transaction fl (resume_transaction j fl expected_revision now) (hw_store w) of
         (st, Inl e) \<Rightarrow> (w\<lparr>hw_store := st\<rparr>, Inl e)
       | (st, Inr receipt) \<Rightarrow>
           (if hr_status receipt = ''applied''
            then w\<lparr>hw_store := st, hw_gate := sync_gate_state False (hw_gate w)\<rparr>
            else w\<lparr>hw_store := st\<rparr>, Inr receipt))"

section \<open>Starting a request\<close>

datatype 'a polled = PollReady 'a | PollPending | PollPanic
datatype 'a started = StartDone "http_start_error + 'a" | StartPending | StartPanicked

text \<open>
  One poll of the future of \<open>start_http\<close>. The flag says whether the request has started, that is
  whether the accounting guard is held. The first poll of the request runs under the gate, so a
  panic in it poisons the mutex; a later poll runs outside.
\<close>

definition poll_started :: "'a polled \<Rightarrow> hold_world \<Rightarrow> hold_world \<times> bool \<times> 'a started" where
  "poll_started poll w =
     (case poll of
        PollReady v \<Rightarrow> (guard_drop w, False, StartDone (Inr v))
      | PollPending \<Rightarrow> (w, True, StartPending)
      | PollPanic \<Rightarrow> (w, True, StartPanicked))"

definition start_http ::
  "hold_json \<Rightarrow> hold_faults \<Rightarrow> i64 option \<Rightarrow> bool \<Rightarrow> 'a polled \<Rightarrow> send_permit \<Rightarrow> bool \<Rightarrow> hold_world
     \<Rightarrow> hold_world \<times> bool \<times> 'a started" where
  "start_http j fl clock cancelled poll permit started w =
     (if started then poll_started poll w
      else if hw_poisoned w then (w, False, StartDone (Inl StartHeld))
      else if hg_held (hw_gate w) \<or> hg_generation (hw_gate w) \<noteq> sp_generation permit
      then (w, False, StartDone (Inl StartHeld))
      else
        let now = (case clock of None \<Rightarrow> 0 | Some t \<Rightarrow> t);
            (st, r) = with_transaction fl (permits_send_tx j fl now) (hw_store w);
            allowed = (case r of Inl _ \<Rightarrow> False | Inr b \<Rightarrow> b);
            w1 = w\<lparr>hw_store := st\<rparr>
        in if \<not> allowed
           then (w1\<lparr>hw_gate := sync_gate_state True (hw_gate w1)\<rparr>, False, StartDone (Inl StartHeld))
           else if cancelled then (w1, False, StartDone (Inl StartCancelled))
           else
             let w2 = w1\<lparr>hw_gate := (hw_gate w1)\<lparr>hg_in_flight := u_saturating_add (hg_in_flight (hw_gate w1)) 1\<rparr>\<rparr>
             in poll_started poll (case poll of PollPanic \<Rightarrow> w2\<lparr>hw_poisoned := True\<rparr> | _ \<Rightarrow> w2))"

section \<open>Executions\<close>

inductive hold_step :: "hold_json \<Rightarrow> hold_world \<Rightarrow> hold_world \<Rightarrow> bool" for j where
  step_acquire: "hold_step j w (fst (acquire_send_permit j fl now w))"
| step_hold: "hold_step j w (fst (hold j fl revision duration now w))"
| step_resume: "hold_step j w (fst (resume j fl revision now w))"
| step_start: "hold_step j w (fst (start_http j fl clock cancelled (poll :: unit polled) permit started w))"
| step_guard: "hold_step j w (guard_drop w)"

text \<open>The documented behaviour of the JSON library on the documents the code writes.\<close>

definition hold_json_ok :: "hold_json \<Rightarrow> bool" where
  "hold_json_ok j \<longleftrightarrow>
     (\<forall>d. valid_document d \<longrightarrow>
        (\<forall>s. hj_to_string j d = Some s \<longrightarrow>
             printable s \<and> length s \<le> 256 \<and> hj_from_str j s = Some d))"

text \<open>Every change of the flag counts as a generation, so the parity of the generation is the flag.\<close>

definition gate_inv :: "hold_gate \<Rightarrow> bool" where
  "gate_inv g \<longleftrightarrow>
     (hg_held g \<longleftrightarrow> odd (unat (hg_generation g)))
     \<and> unat (hg_generation g) div 2 = (unat (hg_release_generation g)) mod 2 ^ 63"

fun stored_revision :: "loaded_document option \<Rightarrow> u64" where
  "stored_revision (Some (LoadedValid d)) = hd_revision d"
| "stored_revision (Some LoadedInvalid) = 0"
| "stored_revision None = 0"

text \<open>Only an applied hold or resume replaces the document, with the next revision.\<close>

definition document_step :: "loaded_document option \<Rightarrow> loaded_document option \<Rightarrow> bool" where
  "document_step a b \<longleftrightarrow>
     b = a \<or> (\<exists>d. b = Some (LoadedValid d) \<and> next_revision (stored_revision a) = Inr (hd_revision d))"

definition gate_synced :: "hold_gate \<Rightarrow> hold_gate \<Rightarrow> bool" where
  "gate_synced g g' \<longleftrightarrow>
     hg_generation g' = hg_generation (sync_gate_state (hg_held g') g)
     \<and> hg_release_generation g' = hg_release_generation (sync_gate_state (hg_held g') g)"

text \<open>A document that does not allow sending at the current time stops every start and every permit.\<close>

definition blocked_at :: "loaded_document option \<Rightarrow> i64 \<Rightarrow> bool" where
  "blocked_at loaded now \<longleftrightarrow> now < 0 \<or> hs_state (status_from_loaded loaded now) \<noteq> HoldInactive"

section \<open>Demonstration data\<close>

fun demo_pack :: "string \<Rightarrow> string" where
  "demo_pack [] = []"
| "demo_pack (b # bs) = char_of (65 + byte_of b div 16) # char_of (65 + byte_of b mod 16) # demo_pack bs"

fun demo_unpack :: "string \<Rightarrow> string" where
  "demo_unpack (a # b # s) = char_of ((byte_of a - 65) * 16 + (byte_of b - 65)) # demo_unpack s"
| "demo_unpack s = []"

definition demo_bytes :: "hold_document \<Rightarrow> string" where
  "demo_bytes d =
     be_bytes 8 (unat (hd_revision d))
     @ (case (hd_started_at d, hd_until d, hd_requested_duration d) of
          (Some s, Some u, Some m) \<Rightarrow> be_bytes 8 (nat s) @ be_bytes 8 (nat u) @ be_bytes 8 (nat m)
        | _ \<Rightarrow> [])"

definition demo_read :: "string \<Rightarrow> hold_document option" where
  "demo_read bs =
     (let field = (\<lambda>k. int (be_value (take 8 (drop (8 * k) bs))))
      in if length bs = 8 then
           Some \<lparr>hd_revision = of_nat (be_value (take 8 bs)), hd_started_at = None, hd_until = None,
                 hd_requested_duration = None\<rparr>
         else if length bs = 32 then
           Some \<lparr>hd_revision = of_nat (be_value (take 8 bs)), hd_started_at = Some (field 1),
                 hd_until = Some (field 2), hd_requested_duration = Some (field 3)\<rparr>
         else None)"

definition demo_json :: hold_json where
  "demo_json = \<lparr>hj_to_string = (\<lambda>d. Some (demo_pack (demo_bytes d))),
                hj_from_str = (\<lambda>s. demo_read (demo_unpack s))\<rparr>"

definition demo_faults :: hold_faults where
  "demo_faults = \<lparr>hf_begin = True, hf_read = (\<lambda>_. True), hf_write = True, hf_commit = True\<rparr>"

definition demo_world :: hold_world where
  "demo_world = \<lparr>hw_store = \<lparr>st_metadata = (\<lambda>_. None), st_total_changes = 0, st_revision = 0\<rparr>,
                 hw_gate = default_gate, hw_poisoned = False\<rparr>"

definition demo_document :: hold_document where
  "demo_document = \<lparr>hd_revision = 1, hd_started_at = Some 1000, hd_until = Some 901000,
                    hd_requested_duration = Some 900000\<rparr>"

definition demo_held :: hold_world where
  "demo_held = \<lparr>hw_store = \<lparr>st_metadata = [hold_metadata_key \<mapsto> demo_pack (demo_bytes demo_document)],
                             st_total_changes = 1, st_revision = 1\<rparr>,
                hw_gate = default_gate\<lparr>hg_held := True, hg_generation := 1\<rparr>, hw_poisoned = False\<rparr>"

definition demo_receipt :: hold_receipt where
  "demo_receipt = \<lparr>hr_status = ''applied'', hr_state = status_from_document demo_document 1000\<rparr>"

section \<open>Lemmas\<close>

lemma sync_gate_held [simp]: "hg_held (sync_gate_state b g) = b"
  by (simp add: sync_gate_state_def)

lemma sync_gate_in_flight [simp]: "hg_in_flight (sync_gate_state b g) = hg_in_flight g"
  by (simp add: sync_gate_state_def)

lemma unat_succ: "unat (x + 1 :: 'a::len word) = (if unat x + 1 = 2 ^ LENGTH('a) then 0 else unat x + 1)"
proof -
  have "unat (x + 1) = (unat x + 1) mod 2 ^ LENGTH('a)" by (simp add: unat_word_ariths)
  moreover have "unat x < 2 ^ LENGTH('a)" by (rule unsigned_less)
  ultimately show ?thesis by (cases "unat x + 1 = 2 ^ LENGTH('a)") simp_all
qed

lemma release_count:
  fixes n r k P :: nat
  assumes "n = 2 * k + 1" "r mod P = k" "r < 2 * P" "0 < P"
  shows "(if n + 1 = 2 * P then 0 else n + 1) div 2 = (if r + 1 = 2 * P then 0 else r + 1) mod P"
proof -
  obtain q where q: "r = P * q + k" "k < P"
    using assms by (metis mod_less_divisor mult_div_mod_eq)
  with assms have "q < 2" by (metis add_lessD1 mult.commute mult_less_cancel2)
  then have "r + 1 = (if q = 0 then k + 1 else P + (k + 1))"
    using q by (simp add: less_2_cases_iff) auto
  moreover have "(P + (k + 1)) mod P = (k + 1) mod P" by (rule mod_add_self1)
  ultimately show ?thesis
    using q assms(1) by (cases "k + 1 = P"; cases "q = 0") simp_all
qed

lemma gate_inv_default: "gate_inv default_gate"
  by (simp add: gate_inv_def default_gate_def)

lemma gate_inv_sync:
  assumes "gate_inv g"
  shows "gate_inv (sync_gate_state b g)"
proof (cases "hg_held g = b")
  case True
  with assms show ?thesis by (simp add: sync_gate_state_def)
next
  case False
  define n r where "n = unat (hg_generation g)" and "r = unat (hg_release_generation g)"
  have "unat x < 2 ^ LENGTH(64)" for x :: u64 by (rule unsigned_less)
  then have bounds: "n < 2 ^ 64" "r < 2 ^ 64" by (simp_all add: n_def r_def)
  have inv: "hg_held g \<longleftrightarrow> odd n" "n div 2 = r mod 2 ^ 63"
    using assms by (simp_all add: gate_inv_def n_def r_def)
  have n': "unat (hg_generation g + 1) = (if n + 1 = 2 ^ 64 then 0 else n + 1)"
    and r': "unat (hg_release_generation g + 1) = (if r + 1 = 2 ^ 64 then 0 else r + 1)"
    by (simp_all add: unat_succ n_def r_def)
  show ?thesis
  proof (cases b)
    case True
    with False inv have "even n" by simp
    then have "odd (n + 1)" "(n + 1) div 2 = n div 2" by simp_all
    moreover from this have "n + 1 \<noteq> 2 ^ 64" by (metis even_numeral even_power zero_less_numeral)
    ultimately show ?thesis using False True inv
      by (simp add: gate_inv_def sync_gate_state_def n' flip: r_def)
  next
    case b: False
    with False inv have "odd n" by simp
    then obtain k where k: "n = 2 * k + 1" by (rule oddE)
    with inv have rk: "r mod 2 ^ 63 = k" by simp
    have "(if n + 1 = 2 ^ 64 then 0 else n + 1) div 2 = (if r + 1 = 2 ^ 64 then 0 else r + 1) mod 2 ^ 63"
      using release_count [OF k rk] bounds by simp
    moreover have "even (if n + 1 = 2 ^ 64 then 0 else n + 1)" using k by simp
    ultimately show ?thesis using False b
      by (simp add: gate_inv_def sync_gate_state_def n' r')
  qed
qed

lemma gate_for_db_shared:
  assumes "gate_for_db key fresh t = (t', g)"
  shows "gate_for_db key fresh' t' = (t', g)"
proof (cases "Option.bind (gt_registry t key) (\<lambda>g. map_option (\<lambda>_. g) (gt_gates t g))")
  case None
  with assms show ?thesis by (auto simp: gate_for_db_def Let_def)
next
  case (Some g')
  with assms show ?thesis by (simp add: gate_for_db_def)
qed

lemma hold_transaction_result:
  assumes "hold_transaction j fl e d now st = (st', Inr r)"
  obtains (conflict) "st' = st" "hr_status r = ''conflict''"
    | (applied) u v doc where "stored_document j st \<noteq> Some LoadedInvalid" "stored_revision (stored_document j st) = e"
        "next_revision e = Inr v" "i64_checked_add now (hold_milliseconds d) = Some u"
        "doc = \<lparr>hd_revision = v, hd_started_at = Some now, hd_until = Some u,
                hd_requested_duration = Some (hold_milliseconds d)\<rparr>"
        "store_tx j fl doc st = (st', Inr ())"
        "r = \<lparr>hr_status = ''applied'', hr_state = status_from_document doc now\<rparr>"
proof -
  have *: "load_document_tx j fl n st = Inr x \<Longrightarrow> x = stored_document j st" for n x
    by (simp add: load_document_tx_def split: if_splits)
  show thesis
  proof (cases "load_document_tx j fl 0 st")
    case (Inl e)
    with assms show thesis by (simp add: hold_transaction_def)
  next
    case (Inr x)
    then have x: "x = stored_document j st" by (rule *)
    define valid where "valid \<longleftrightarrow> stored_document j st \<noteq> Some LoadedInvalid"
    have rv: "(case x of Some (LoadedValid document) \<Rightarrow> (hd_revision document, True)
              | Some LoadedInvalid \<Rightarrow> (0, False) | None \<Rightarrow> (0, True)) = (stored_revision x, valid)"
      by (auto simp: x valid_def split: option.splits loaded_document.splits)
    note tx = assms [unfolded hold_transaction_def Inr st_then_simps rv Let_def prod.case]
    show thesis
    proof (cases "valid \<and> stored_revision x = e")
      case False
      then have "\<not> valid \<or> stored_revision x \<noteq> e" by blast
      with tx have "st' = st \<and> hr_status r = ''conflict''"
        by (cases "load_document_tx j fl 1 st") auto
      then show thesis by (intro conflict) simp_all
    next
      case True
      with tx show thesis
        by (auto simp: x valid_def store_tx_def st_then_eq_Inr split: option.splits if_splits sum.splits
              intro!: applied)
    qed
  qed
qed

lemma resume_transaction_result:
  assumes "resume_transaction j fl e now st = (st', Inr r)"
  obtains (conflict) "st' = st" "hr_status r = ''conflict''"
    | (applied) v doc where "stored_revision (stored_document j st) = e" "next_revision e = Inr v"
        "doc = \<lparr>hd_revision = v, hd_started_at = None, hd_until = None, hd_requested_duration = None\<rparr>"
        "store_tx j fl doc st = (st', Inr ())"
        "r = \<lparr>hr_status = ''applied'', hr_state = status_from_document doc now\<rparr>"
proof (cases "load_document_tx j fl 0 st")
  case (Inl e)
  with assms show thesis by (simp add: resume_transaction_def)
next
  case (Inr x)
  then have x: "x = stored_document j st"
    by (simp add: load_document_tx_def split: if_splits)
  have rv: "(case x of Some (LoadedValid document) \<Rightarrow> hd_revision document | _ \<Rightarrow> 0) = stored_revision x"
    by (auto split: option.splits loaded_document.splits)
  note tx = assms [unfolded resume_transaction_def Inr st_then_simps rv Let_def]
  show thesis
  proof (cases "stored_revision x = e")
    case False
    with tx show thesis by (intro conflict) auto
  next
    case True
    with tx show thesis
      by (auto simp: x store_tx_def st_then_eq_Inr split: option.splits if_splits sum.splits
            intro!: applied)
  qed
qed

lemma with_transaction_Inr:
  assumes "with_transaction fl f st = (st', Inr v)"
  obtains s where "f st = (s, Inr v)" "st_metadata st' = st_metadata s"
  using assms by (auto simp: with_transaction_def split: if_splits prod.splits sum.splits)

lemma with_transaction_Inl:
  "with_transaction fl f st = (st', Inl e) \<Longrightarrow> st_metadata st' = st_metadata st"
  by (auto simp: with_transaction_def split: if_splits prod.splits sum.splits)

lemma stored_document_cong: "st_metadata s = st_metadata t \<Longrightarrow> stored_document j s = stored_document j t"
  by (simp add: stored_document_def)

lemma permits_send_tx_store [simp]: "fst (permits_send_tx j fl now st) = st"
  by (simp add: permits_send_tx_def)

lemma permits_metadata:
  "with_transaction fl (permits_send_tx j fl now) st = (st', r) \<Longrightarrow> st_metadata st' = st_metadata st"
  by (cases r) (auto simp: permits_send_tx_def elim!: with_transaction_Inr dest: with_transaction_Inl)

text \<open>A document the code writes is read back as it was written.\<close>

lemma sql_substr_id:
  assumes "printable s" "length s \<le> n"
  shows "sql_substr n s = s"
proof -
  have a: "list_all (\<lambda>c. byte_of c < 128) s" and nz: "\<forall>c \<in> set s. byte_of c \<noteq> 0"
    using assms(1) by (auto simp: printable_def list_all_iff)
  have "takeWhile (\<lambda>c. c \<noteq> 0) (utf8_decode s) = utf8_decode s"
    using nz by (auto simp: utf8_decode_ascii [OF a] takeWhile_eq_all_conv)
  moreover have "take n (utf8_decode s) = utf8_decode s"
    using assms(2) by (simp add: utf8_decode_ascii [OF a])
  ultimately show ?thesis
    using utf8_valid_ascii [OF a] unfolding sql_substr_def utf8_valid_def by (simp only:)
qed

lemma store_tx_stored:
  assumes "store_tx j fl d st = (st', Inr ())" "hold_json_ok j" "valid_document d"
  shows "stored_document j st' = Some (LoadedValid d)"
proof -
  from assms(1) obtain s where s: "hj_to_string j d = Some s"
    and m: "st_metadata st' = (st_metadata st)(hold_metadata_key \<mapsto> s)"
    by (auto simp: store_tx_def split: option.splits if_splits)
  have "printable s" "length s \<le> 256" "hj_from_str j s = Some d"
    using assms(2,3) s unfolding hold_json_ok_def by blast+
  then show ?thesis
    using assms(3) by (simp add: stored_document_def m parse_document_def sql_substr_id)
qed

lemma next_revision_Inr:
  assumes "next_revision v = Inr v'"
  shows "unat v' = unat v + 1" "v' \<le> hold_max_safe_integer"
  using assms by (auto simp: next_revision_def split: option.splits if_splits dest!: u_checked_add_unat)

lemma hold_millis_cases: "hold_milliseconds d = hold_15_minutes_ms \<or> hold_milliseconds d = hold_60_minutes_ms"
  by (cases d) simp_all

lemma hold_applied:
  assumes "hold j fl e d now w = (w', Inr r)" "hr_status r = ''applied''" "hold_json_ok j"
  obtains v u doc where "stored_document j (hw_store w) \<noteq> Some LoadedInvalid"
    "stored_revision (stored_document j (hw_store w)) = e" "next_revision e = Inr v"
    "0 \<le> now" "i64_checked_add now (hold_milliseconds d) = Some u"
    "doc = \<lparr>hd_revision = v, hd_started_at = Some now, hd_until = Some u,
            hd_requested_duration = Some (hold_milliseconds d)\<rparr>"
    "stored_document j (hw_store w') = Some (LoadedValid doc)"
    "hr_state r = status_from_document doc now"
    "hw_gate w' = sync_gate_state True (hw_gate w)"
proof -
  have now: "0 \<le> now" using assms(1) by (simp add: hold_def valid_now_def split: if_splits)
  obtain st where tx: "with_transaction fl (hold_transaction j fl e d now) (hw_store w) = (st, Inr r)"
    and w': "hw_store w' = st" "hw_gate w' = sync_gate_state True (hw_gate w)"
    using assms(1,2) now
    by (auto simp: hold_def valid_now_def split: if_splits prod.splits sum.splits)
  from tx obtain s where s: "hold_transaction j fl e d now (hw_store w) = (s, Inr r)"
    and m: "st_metadata st = st_metadata s" by (rule with_transaction_Inr)
  from s show thesis
  proof (cases rule: hold_transaction_result)
    case conflict
    with assms(2) show thesis by simp
  next
    case (applied u v doc)
    have "valid_document doc"
      using applied(3,4) now hold_millis_cases [of d] next_revision_Inr(2) [OF applied(3)]
      by (simp add: applied(5) valid_document_def not_less)
    with applied(6) assms(3) have "stored_document j s = Some (LoadedValid doc)"
      by (intro store_tx_stored)
    then have "stored_document j (hw_store w') = Some (LoadedValid doc)"
      using stored_document_cong [OF m] w' by simp
    with applied now w'(2) show thesis by (intro that) simp_all
  qed
qed

lemma resume_applied:
  assumes "resume j fl e now w = (w', Inr r)" "hr_status r = ''applied''" "hold_json_ok j"
  obtains v doc where "stored_revision (stored_document j (hw_store w)) = e" "next_revision e = Inr v"
    "doc = \<lparr>hd_revision = v, hd_started_at = None, hd_until = None, hd_requested_duration = None\<rparr>"
    "stored_document j (hw_store w') = Some (LoadedValid doc)"
    "hr_state r = status_from_document doc now"
    "hw_gate w' = sync_gate_state False (hw_gate w)"
proof -
  obtain st where tx: "with_transaction fl (resume_transaction j fl e now) (hw_store w) = (st, Inr r)"
    and w': "hw_store w' = st" "hw_gate w' = sync_gate_state False (hw_gate w)"
    using assms(1,2)
    by (auto simp: resume_def st_then_eq_Inr split: if_splits prod.splits sum.splits)
  from tx obtain s where s: "resume_transaction j fl e now (hw_store w) = (s, Inr r)"
    and m: "st_metadata st = st_metadata s" by (rule with_transaction_Inr)
  from s show thesis
  proof (cases rule: resume_transaction_result)
    case conflict
    with assms(2) show thesis by simp
  next
    case (applied v doc)
    have "valid_document doc"
      using next_revision_Inr(2) [OF applied(2)] by (simp add: applied(3) valid_document_def not_less)
    with applied(4) assms(3) have "stored_document j s = Some (LoadedValid doc)"
      by (intro store_tx_stored)
    then have "stored_document j (hw_store w') = Some (LoadedValid doc)"
      using stored_document_cong [OF m] w' by simp
    with applied w'(2) show thesis by (intro that) simp_all
  qed
qed

text \<open>What an operation can do to the document and to the gate.\<close>

lemma hold_document_kept:
  assumes "hold j fl e d now w = (w', r)" "\<And>x. r = Inr x \<Longrightarrow> hr_status x \<noteq> ''applied''"
  shows "st_metadata (hw_store w') = st_metadata (hw_store w) \<and> hw_gate w' = hw_gate w"
proof -
  have keep: "st_metadata st = st_metadata (hw_store w)"
    if "with_transaction fl (hold_transaction j fl e d now) (hw_store w) = (st, Inr x)"
      "hr_status x \<noteq> ''applied''" for st x
  proof -
    from that(1) obtain s where "hold_transaction j fl e d now (hw_store w) = (s, Inr x)"
      "st_metadata st = st_metadata s" by (rule with_transaction_Inr)
    from this(1) this(2) that(2) show ?thesis by (cases rule: hold_transaction_result) simp_all
  qed
  show ?thesis
    using assms
    by (auto simp: hold_def valid_now_def split: if_splits prod.splits sum.splits
          dest: with_transaction_Inl keep)
qed

lemma resume_document_kept:
  assumes "resume j fl e now w = (w', r)" "\<And>x. r = Inr x \<Longrightarrow> hr_status x \<noteq> ''applied''"
  shows "st_metadata (hw_store w') = st_metadata (hw_store w) \<and> hw_gate w' = hw_gate w"
proof -
  have keep: "st_metadata st = st_metadata (hw_store w)"
    if "with_transaction fl (resume_transaction j fl e now) (hw_store w) = (st, Inr x)"
      "hr_status x \<noteq> ''applied''" for st x
  proof -
    from that(1) obtain s where "resume_transaction j fl e now (hw_store w) = (s, Inr x)"
      "st_metadata st = st_metadata s" by (rule with_transaction_Inr)
    from this(1) this(2) that(2) show ?thesis by (cases rule: resume_transaction_result) simp_all
  qed
  show ?thesis
    using assms
    by (auto simp: resume_def valid_now_def split: if_splits prod.splits sum.splits
          dest: with_transaction_Inl keep)
qed

lemma acquire_metadata: "st_metadata (hw_store (fst (acquire_send_permit j fl now w))) = st_metadata (hw_store w)"
proof (cases "with_transaction fl (permits_send_tx j fl now) (hw_store w)")
  case (Pair st r)
  then show ?thesis
    using permits_metadata [OF Pair] by (cases r) (simp_all add: acquire_send_permit_def Let_def)
qed

lemma guard_drop_metadata [simp]: "hw_store (guard_drop w) = hw_store w"
  by (simp add: guard_drop_def)

lemma poll_started_store: "hw_store (fst (poll_started poll w)) = hw_store w"
  by (cases poll) (simp_all add: poll_started_def)

lemma start_http_metadata:
  "st_metadata (hw_store (fst (start_http j fl clock cancelled poll permit started w)))
     = st_metadata (hw_store w)"
proof -
  obtain st r where tx:
    "with_transaction fl (permits_send_tx j fl (case clock of None \<Rightarrow> 0 | Some t \<Rightarrow> t)) (hw_store w) = (st, r)"
    by fastforce
  show ?thesis
    using permits_metadata [OF tx]
    by (simp add: start_http_def tx Let_def poll_started_store split: polled.split)
qed

lemma document_step_same:
  "st_metadata (hw_store w') = st_metadata (hw_store w)
     \<Longrightarrow> document_step (stored_document j (hw_store w)) (stored_document j (hw_store w'))"
  unfolding document_step_def by (intro disjI1 stored_document_cong)

lemma hold_document_step:
  assumes "hold j fl e d now w = (w', r)" "hold_json_ok j"
  shows "document_step (stored_document j (hw_store w)) (stored_document j (hw_store w'))"
proof (cases "\<exists>x. r = Inr x \<and> hr_status x = ''applied''")
  case True
  then obtain x where x: "hold j fl e d now w = (w', Inr x)" "hr_status x = ''applied''"
    using assms(1) by blast
  obtain v u doc where "stored_revision (stored_document j (hw_store w)) = e" "next_revision e = Inr v"
    "hd_revision doc = v" "stored_document j (hw_store w') = Some (LoadedValid doc)"
    by (rule hold_applied [OF x assms(2)]) (metis hold_document.select_convs(1))
  then show ?thesis unfolding document_step_def by blast
next
  case False
  then have "st_metadata (hw_store w') = st_metadata (hw_store w)"
    using hold_document_kept [OF assms(1)] by blast
  then show ?thesis by (rule document_step_same)
qed

lemma resume_document_step:
  assumes "resume j fl e now w = (w', r)" "hold_json_ok j"
  shows "document_step (stored_document j (hw_store w)) (stored_document j (hw_store w'))"
proof (cases "\<exists>x. r = Inr x \<and> hr_status x = ''applied''")
  case True
  then obtain x where x: "resume j fl e now w = (w', Inr x)" "hr_status x = ''applied''"
    using assms(1) by blast
  obtain v doc where "stored_revision (stored_document j (hw_store w)) = e" "next_revision e = Inr v"
    "hd_revision doc = v" "stored_document j (hw_store w') = Some (LoadedValid doc)"
    by (rule resume_applied [OF x assms(2)]) (metis hold_document.select_convs(1))
  then show ?thesis unfolding document_step_def by blast
next
  case False
  then have "st_metadata (hw_store w') = st_metadata (hw_store w)"
    using resume_document_kept [OF assms(1)] by blast
  then show ?thesis by (rule document_step_same)
qed

lemma hold_step_document:
  assumes "hold_step j w w'" "hold_json_ok j"
  shows "document_step (stored_document j (hw_store w)) (stored_document j (hw_store w'))"
  using assms(1)
proof cases
  case (step_acquire fl now)
  show ?thesis unfolding step_acquire by (rule document_step_same) (rule acquire_metadata)
next
  case (step_start fl clock cancelled poll permit started)
  show ?thesis unfolding step_start by (rule document_step_same) (rule start_http_metadata)
next
  case step_guard
  show ?thesis unfolding step_guard by (rule document_step_same) simp
next
  case (step_hold fl e d now)
  then show ?thesis using hold_document_step [OF _ assms(2)] by (metis prod.collapse)
next
  case (step_resume fl e now)
  then show ?thesis using resume_document_step [OF _ assms(2)] by (metis prod.collapse)
qed

lemma hold_steps_revision:
  assumes "(hold_step j)\<^sup>*\<^sup>* w w'" "hold_json_ok j"
  shows "stored_revision (stored_document j (hw_store w)) \<le> stored_revision (stored_document j (hw_store w'))"
    and "stored_revision (stored_document j (hw_store w')) = stored_revision (stored_document j (hw_store w))
           \<Longrightarrow> stored_document j (hw_store w') = stored_document j (hw_store w)"
proof -
  let ?doc = "\<lambda>w. stored_document j (hw_store w)"
  from assms(1) have "?doc w' = ?doc w \<or> stored_revision (?doc w) < stored_revision (?doc w')"
  proof (induction rule: rtranclp_induct)
    case (step u v)
    have "?doc v = ?doc u \<or> stored_revision (?doc u) < stored_revision (?doc v)"
      using hold_step_document [OF step(2) assms(2)]
      by (auto simp: document_step_def word_less_nat_alt dest!: next_revision_Inr(1))
    with step.IH show ?case by auto
  qed simp
  then show "stored_revision (?doc w) \<le> stored_revision (?doc w')"
    "stored_revision (?doc w') = stored_revision (?doc w) \<Longrightarrow> ?doc w' = ?doc w" by auto
qed

text \<open>The flag and the counters of the gate change only by \<open>sync_gate_state\<close>.\<close>

lemma gate_synced_intros:
  "gate_synced g g" "gate_synced g (sync_gate_state b g)" "gate_synced g (g\<lparr>hg_in_flight := n\<rparr>)"
  by (simp_all add: gate_synced_def sync_gate_state_def)

lemma gate_synced_poll:
  assumes "gate_synced g (hw_gate w)"
  shows "gate_synced g (hw_gate (guard_drop w))" "gate_synced g (hw_gate (fst (poll_started p w)))"
  using assms by (cases p; simp add: gate_synced_def guard_drop_def poll_started_def)+

lemma gate_synced_tx:
  fixes tx :: "hold_store \<times> (hold_error + hold_receipt)"
  assumes "hw_gate w1 = hw_gate w"
  shows "gate_synced (hw_gate w) (hw_gate (fst (case tx of
      (st, Inl e) \<Rightarrow> (w1\<lparr>hw_store := st\<rparr>, Inl e)
    | (st, Inr receipt) \<Rightarrow>
        (if hr_status receipt = ''applied''
         then w1\<lparr>hw_store := st, hw_gate := sync_gate_state b (hw_gate w1)\<rparr>
         else w1\<lparr>hw_store := st\<rparr>, Inr receipt))))"
  using assms gate_synced_intros(1,2) by (cases tx; cases "snd tx") auto

lemma hold_step_gate:
  assumes "hold_step j w w'"
  shows "gate_synced (hw_gate w) (hw_gate w')"
  using assms
proof cases
  case (step_acquire fl now)
  then show ?thesis
    using gate_synced_intros(1,2)
    by (cases "with_transaction fl (permits_send_tx j fl now) (hw_store w)";
        cases "snd (with_transaction fl (permits_send_tx j fl now) (hw_store w))")
      (simp_all add: acquire_send_permit_def Let_def)
next
  case (step_hold fl e d now)
  then show ?thesis
    by (cases "now < 0"; cases "hw_poisoned w")
      (simp_all add: hold_def valid_now_def gate_synced_intros(1) gate_synced_tx)
next
  case (step_resume fl e now)
  then show ?thesis
    by (cases "now < 0"; cases "hw_poisoned w")
      (simp_all add: resume_def valid_now_def gate_synced_intros(1) gate_synced_tx)
next
  case step_guard
  then show ?thesis by (simp add: gate_synced_poll(1) gate_synced_intros(1))
next
  case (step_start fl clock cancelled p permit started)
  obtain st r where tx:
    "with_transaction fl (permits_send_tx j fl (case clock of None \<Rightarrow> 0 | Some t \<Rightarrow> t)) (hw_store w) = (st, r)"
    by fastforce
  show ?thesis
    unfolding step_start
    by (cases p) (simp_all add: start_http_def tx Let_def gate_synced_poll(2) gate_synced_intros)
qed

lemma gate_inv_synced: "gate_synced g g' \<Longrightarrow> gate_inv g \<Longrightarrow> gate_inv g'"
  using gate_inv_sync [of g "hg_held g'"] by (simp add: gate_synced_def gate_inv_def)

interpretation hold_system: invariant_system "hold_step j" "\<lambda>w. gate_inv (hw_gate w)" for j
  by unfold_locales (rule gate_inv_synced [OF hold_step_gate])

lemma hold_steps_generation:
  assumes "(hold_step j ^^ n) w w'"
  shows "\<exists>k \<le> n. hg_generation (hw_gate w') = hg_generation (hw_gate w) + of_nat k"
  using assms
proof (induction n arbitrary: w')
  case (Suc n)
  then obtain u where u: "(hold_step j ^^ n) w u" "hold_step j u w'" by auto
  from Suc.IH [OF u(1)] obtain k where k: "k \<le> n"
    "hg_generation (hw_gate u) = hg_generation (hw_gate w) + of_nat k" by blast
  have "hg_generation (hw_gate w') = hg_generation (hw_gate u)
      \<or> hg_generation (hw_gate w') = hg_generation (hw_gate u) + 1"
    using hold_step_gate [OF u(2)] by (auto simp: gate_synced_def sync_gate_state_def)
  then show ?case
  proof
    assume "hg_generation (hw_gate w') = hg_generation (hw_gate u)"
    with k show ?thesis by (intro exI [of _ k]) simp
  next
    assume "hg_generation (hw_gate w') = hg_generation (hw_gate u) + 1"
    with k show ?thesis by (intro exI [of _ "Suc k"]) simp
  qed
qed simp

lemma permits_blocked:
  assumes "blocked_at (stored_document j st) now"
  shows "snd (with_transaction fl (permits_send_tx j fl now) st) \<noteq> Inr True"
proof
  assume "snd (with_transaction fl (permits_send_tx j fl now) st) = Inr True"
  then obtain st' where tx: "with_transaction fl (permits_send_tx j fl now) st = (st', Inr True)"
    by (cases "with_transaction fl (permits_send_tx j fl now) st") simp
  then obtain s where "permits_send_tx j fl now st = (s, Inr True)" by (rule with_transaction_Inr)
  with assms show False
    by (auto simp: permits_send_tx_def and_then_eq_Inr valid_now_def load_document_tx_def blocked_at_def
        split: if_splits option.splits loaded_document.splits user_hold_state.splits)
qed

lemma start_blocked:
  assumes "blocked_at (stored_document j (hw_store w)) (case clock of None \<Rightarrow> 0 | Some t \<Rightarrow> t)"
  shows "\<exists>w'. start_http j fl clock cancelled poll permit False w = (w', False, StartDone (Inl StartHeld))
           \<and> hg_in_flight (hw_gate w') = hg_in_flight (hw_gate w)"
proof -
  obtain st r where tx:
    "with_transaction fl (permits_send_tx j fl (case clock of None \<Rightarrow> 0 | Some t \<Rightarrow> t)) (hw_store w) = (st, r)"
    by fastforce
  with permits_blocked [OF assms, of fl] have "\<not> (case r of Inl _ \<Rightarrow> False | Inr b \<Rightarrow> b)"
    by (cases r) simp_all
  then show ?thesis by (simp add: start_http_def tx Let_def)
qed

lemma acquire_blocked:
  assumes "blocked_at (stored_document j (hw_store w)) now"
  shows "snd (acquire_send_permit j fl now w) \<noteq> Inr (Some p)"
proof -
  obtain st r where tx: "with_transaction fl (permits_send_tx j fl now) (hw_store w) = (st, r)" by fastforce
  with permits_blocked [OF assms, of fl] show ?thesis
    by (cases r) (simp_all add: acquire_send_permit_def Let_def)
qed

text \<open>
  C3: after a hold is applied, and as long as no later hold or resume replaces its document (its
  revision is still the stored one), whatever operations, store faults and cancellations come in
  between, every request that would start before the end of the hold is refused as held without
  being polled, and no permit is issued. This also covers a clock that is set back or cannot be
  read.
\<close>

theorem hold_blocks_sends:
  assumes "hold_json_ok j" "hold j fl e d now w = (w1, Inr r)" "hr_status r = ''applied''"
    and "(hold_step j)\<^sup>*\<^sup>* w1 w2"
    and "stored_revision (stored_document j (hw_store w2)) = hs_revision (hr_state r)"
    and "(case clock of None \<Rightarrow> 0 | Some t \<Rightarrow> t) < now + hold_milliseconds d"
    and "t < now + hold_milliseconds d"
  shows "\<exists>w3. start_http j fl' clock cancelled poll permit False w2 = (w3, False, StartDone (Inl StartHeld))
           \<and> hg_in_flight (hw_gate w3) = hg_in_flight (hw_gate w2)
           \<and> snd (acquire_send_permit j fl'' t w2) \<noteq> Inr (Some p)"
proof -
  obtain v u doc where a: "i64_checked_add now (hold_milliseconds d) = Some u"
    "doc = \<lparr>hd_revision = v, hd_started_at = Some now, hd_until = Some u,
            hd_requested_duration = Some (hold_milliseconds d)\<rparr>"
    "stored_document j (hw_store w1) = Some (LoadedValid doc)"
    "hr_state r = status_from_document doc now"
    by (rule hold_applied [OF assms(2,3,1)])
  have u: "u = now + hold_milliseconds d"
    using a(1) by (simp add: i64_checked_add_def split: if_splits)
  have "stored_revision (stored_document j (hw_store w2)) = stored_revision (stored_document j (hw_store w1))"
    unfolding assms(5) by (simp add: a(2,3,4) status_from_document_def)
  then have doc: "stored_document j (hw_store w2) = Some (LoadedValid doc)"
    using hold_steps_revision(2) [OF assms(4,1)] a(3) by simp
  have blocked: "blocked_at (stored_document j (hw_store w2)) c" if "c < now + hold_milliseconds d" for c
    using that by (simp add: blocked_at_def doc a(2) u status_from_document_def)
  show ?thesis
    using start_blocked [OF blocked [OF assms(6)]] acquire_blocked [OF blocked [OF assms(7)]] by blast
qed

lemma acquire_granted:
  assumes "acquire_send_permit j fl now w = (w', Inr (Some p))"
  shows "hg_held (hw_gate w') = False" "sp_generation p = hg_generation (hw_gate w')"
  using assms
  by (auto simp: acquire_send_permit_def Let_def split: if_splits prod.splits sum.splits)

text \<open>
  C11: a send permit issued before a hold is refused after the hold for ever, also when the hold
  has been resumed or has ended, because every change of the gate counts a generation. The only
  bound is the 64-bit counter: fewer than 2^64 operations after the permit.
\<close>

theorem stale_permits_refused:
  assumes "hold_json_ok j" "(hold_step j)\<^sup>*\<^sup>* w w0" "hw_gate w = default_gate"
    and "acquire_send_permit j fl now w0 = (w1, Inr (Some permit))"
    and "(hold_step j ^^ m) w1 w2"
    and "hold j fl' e d t w2 = (w3, Inr r)" "hr_status r = ''applied''"
    and "(hold_step j ^^ n) w3 w4" "m + 1 + n < 2 ^ 64"
  shows "start_http j fl'' clock cancelled poll permit False w4 = (w4, False, StartDone (Inl StartHeld))"
proof -
  let ?gen = "\<lambda>w. hg_generation (hw_gate w)"
  have inv: "gate_inv (hw_gate w)" using assms(3) by (simp add: gate_inv_default)
  have s1: "hold_step j w0 w1"
    using step_acquire [of j w0 fl now] assms(4) by simp
  have s3: "hold_step j w2 w3"
    using step_hold [of j w2 fl' e d t] assms(6) by simp
  have r1: "(hold_step j)\<^sup>*\<^sup>* w w1" using assms(2) s1 by simp
  have r3: "(hold_step j)\<^sup>*\<^sup>* w w3"
    using r1 relpowp_imp_rtranclp [OF assms(5)] s3 by (meson rtranclp.rtrancl_into_rtrancl rtranclp_trans)
  have inv1: "gate_inv (hw_gate w1)" and inv3: "gate_inv (hw_gate w3)"
    using hold_system.steps_inv [OF r1 inv] hold_system.steps_inv [OF r3 inv] .
  have held3: "hg_held (hw_gate w3)"
    by (rule hold_applied [OF assms(6,7,1)]) simp
  have "even (unat (?gen w1))" "odd (unat (?gen w3))"
    using inv1 inv3 held3 acquire_granted(1) [OF assms(4)] by (simp_all add: gate_inv_def)
  then have ne: "?gen w3 \<noteq> ?gen w1" by auto
  have "(hold_step j ^^ (m + 1)) w1 w3" using assms(5) s3 by auto
  then obtain k where k: "k \<le> m + 1" "?gen w3 = ?gen w1 + of_nat k"
    using hold_steps_generation by blast
  obtain l where l: "l \<le> n" "?gen w4 = ?gen w3 + of_nat l"
    using hold_steps_generation [OF assms(8)] by blast
  have "0 < k" using ne k by (cases k) simp_all
  then have "of_nat (k + l) \<noteq> (0 :: u64)"
    using k(1) l(1) assms(9) by (simp only: word_of_nat_eq_0_iff) (auto dest: dvd_imp_le)
  then have "?gen w4 \<noteq> sp_generation permit"
    using k(2) l(2) acquire_granted(2) [OF assms(4)] by (simp add: add.assoc)
  then show ?thesis by (simp add: start_http_def)
qed

text \<open>
  C35: an applied hold is read back exactly as written: the status at any time shows its
  revision, start, end and duration, is uncertain before the start, active until the end and
  inactive from then on, agrees with the receipt at the time of the hold, and decides the check
  in front of a manual test.
\<close>

theorem hold_roundtrip:
  assumes "hold_json_ok j" "hold j fl e d now w = (w', Inr r)" "hr_status r = ''applied''"
    and "hf_begin fl'" "hf_read fl' 0"
  shows "status_at j fl' now w' = Inr (hr_state r)
       \<and> status_at j fl' t w' =
           Inr \<lparr>hs_revision = e + 1, hs_started_at = Some now,
                hs_until = Some (now + hold_milliseconds d),
                hs_requested_duration = Some (hold_milliseconds d),
                hs_state = (if t < now then HoldUncertain
                            else if t < now + hold_milliseconds d then HoldActive
                            else HoldInactive)\<rparr>
       \<and> require_not_held j fl' t w' =
           (if t < now then Inl NotificationHoldUncertain
            else if t < now + hold_milliseconds d then Inl NotificationHoldActive
            else Inr ())"
proof -
  obtain v u doc where a: "next_revision e = Inr v" "i64_checked_add now (hold_milliseconds d) = Some u"
    "doc = \<lparr>hd_revision = v, hd_started_at = Some now, hd_until = Some u,
            hd_requested_duration = Some (hold_milliseconds d)\<rparr>"
    "stored_document j (hw_store w') = Some (LoadedValid doc)"
    "hr_state r = status_from_document doc now"
    by (rule hold_applied [OF assms(2,3,1)])
  have u: "u = now + hold_milliseconds d"
    using a(2) by (simp add: i64_checked_add_def split: if_splits)
  have v: "v = e + 1"
    using a(1) by (auto simp: next_revision_def u_checked_add_def split: option.splits if_splits)
  have status: "status_at j fl' t w' = Inr (status_from_document doc t)" for t
    using assms(4,5) a(4) by (simp add: status_at_def load_status_def)
  show ?thesis
    unfolding require_not_held_def status and_then_simps a(5)
    by (simp add: a(3) u v status_from_document_def)
qed

text \<open>An applied change spends its revision: repeating it, or any change based on it, is a conflict.\<close>

lemma hold_expected:
  assumes "hold j fl e d now w = (w', Inr r)" "stored_revision (stored_document j (hw_store w)) \<noteq> e"
  shows "hr_status r = ''conflict''"
proof -
  obtain s where "hold_transaction j fl e d now (hw_store w) = (s, Inr r)"
    using assms(1) by (auto simp: hold_def st_then_eq_Inr elim!: with_transaction_Inr
        split: if_splits prod.splits sum.splits)
  with assms(2) show ?thesis by (elim hold_transaction_result) simp_all
qed

lemma resume_expected:
  assumes "resume j fl e now w = (w', Inr r)" "stored_revision (stored_document j (hw_store w)) \<noteq> e"
  shows "hr_status r = ''conflict''"
proof -
  obtain s where "resume_transaction j fl e now (hw_store w) = (s, Inr r)"
    using assms(1) by (auto simp: resume_def st_then_eq_Inr elim!: with_transaction_Inr
        split: if_splits prod.splits sum.splits)
  with assms(2) show ?thesis by (elim resume_transaction_result) simp_all
qed

text \<open>
  C36: an applied hold or resume spends the revision it was based on: every later hold or resume
  that expects this revision is answered with a conflict and leaves the document as it is.
\<close>

theorem revision_is_spent:
  assumes "hold_json_ok j"
    and "(\<exists>d. hold j fl e d now w = (w1, Inr r)) \<or> resume j fl e now w = (w1, Inr r)"
    and "hr_status r = ''applied''" "(hold_step j)\<^sup>*\<^sup>* w1 w2"
  shows "(hold j fl' e d' t w2 = (w3, Inr r') \<or> resume j fl' e t w2 = (w3, Inr r')) \<longrightarrow>
           hr_status r' = ''conflict'' \<and> stored_document j (hw_store w3) = stored_document j (hw_store w2)"
proof -
  have "\<exists>v. next_revision e = Inr v \<and> stored_revision (stored_document j (hw_store w1)) = v"
    using assms(2)
  proof
    assume "\<exists>d. hold j fl e d now w = (w1, Inr r)"
    then obtain d where "hold j fl e d now w = (w1, Inr r)" ..
    then show ?thesis by (rule hold_applied [OF _ assms(3,1)]) (metis hold_document.select_convs(1) stored_revision.simps(1))
  next
    assume "resume j fl e now w = (w1, Inr r)"
    then show ?thesis by (rule resume_applied [OF _ assms(3,1)]) (metis hold_document.select_convs(1) stored_revision.simps(1))
  qed
  then have "e < stored_revision (stored_document j (hw_store w1))"
    by (auto simp: word_less_nat_alt dest!: next_revision_Inr(1))
  then have spent: "stored_revision (stored_document j (hw_store w2)) \<noteq> e"
    using hold_steps_revision(1) [OF assms(4,1)] by auto
  show ?thesis
  proof (intro impI, elim disjE)
    assume h: "hold j fl' e d' t w2 = (w3, Inr r')"
    then have "hr_status r' = ''conflict''" using spent by (rule hold_expected)
    moreover from this have "st_metadata (hw_store w3) = st_metadata (hw_store w2)"
      using hold_document_kept [OF h] by simp
    ultimately show "hr_status r' = ''conflict'' \<and> stored_document j (hw_store w3) = stored_document j (hw_store w2)"
      by (blast intro: stored_document_cong)
  next
    assume h: "resume j fl' e t w2 = (w3, Inr r')"
    then have "hr_status r' = ''conflict''" using spent by (rule resume_expected)
    moreover from this have "st_metadata (hw_store w3) = st_metadata (hw_store w2)"
      using resume_document_kept [OF h] by simp
    ultimately show "hr_status r' = ''conflict'' \<and> stored_document j (hw_store w3) = stored_document j (hw_store w2)"
      by (blast intro: stored_document_cong)
  qed
qed

lemma demo_unpack_pack: "demo_unpack (demo_pack bs) = bs"
proof (induction bs)
  case (Cons b bs)
  have "byte_of b div 16 < 16" using byte_of_lt [of b] by (simp add: less_mult_imp_div_less)
  then have "char_of ((65 + byte_of b div 16 - 65) * 16 + (65 + byte_of b mod 16 - 65)) = b"
    by (simp add: mult.commute)
  moreover have "65 + byte_of b div 16 < 256" "65 + byte_of b mod 16 < 256"
    using \<open>byte_of b div 16 < 16\<close> by simp_all
  ultimately show ?case using Cons.IH by simp
qed simp

lemma demo_pack_text: "list_all (\<lambda>c. 32 < byte_of c \<and> byte_of c < 127) (demo_pack bs)"
  "length (demo_pack bs) = 2 * length bs"
proof (induction bs)
  case (Cons b bs)
  have "byte_of b div 16 < 16" using byte_of_lt [of b] by (simp add: less_mult_imp_div_less)
  moreover have "byte_of b mod 16 < 16" by simp
  ultimately have "65 + byte_of b div 16 < 127" "65 + byte_of b mod 16 < 127" by linarith+
  with Cons show "list_all (\<lambda>c. 32 < byte_of c \<and> byte_of c < 127) (demo_pack (b # bs))"
    "length (demo_pack (b # bs)) = 2 * length (b # bs)" by simp_all
qed simp_all

lemma demo_be: "n < 2 ^ 64 \<Longrightarrow> be_value (be_bytes 8 n) = n"
  by (simp add: be_value_be_bytes)

lemma demo_read_bytes:
  assumes "valid_document d"
  shows "demo_read (demo_bytes d) = Some d" "length (demo_bytes d) \<le> 32" "demo_bytes d \<noteq> []"
proof -
  have "unat x < 2 ^ LENGTH(64)" for x :: u64 by (rule unsigned_less)
  then have rv: "be_value (be_bytes 8 (unat x)) = unat x" for x :: u64 by (intro demo_be) simp
  consider (free) "hd_started_at d = None" "hd_until d = None" "hd_requested_duration d = None"
    | (held) s u m where "hd_started_at d = Some s" "hd_until d = Some u" "hd_requested_duration d = Some m"
        "0 \<le> s" "m = 900000 \<or> m = 3600000" "u = s + m" "in_i64 u"
    using assms
    by (auto simp: valid_document_def hold_15_minutes_ms_def hold_60_minutes_ms_def i64_checked_add_def
        split: if_splits option.splits)
  then have "demo_read (demo_bytes d) = Some d \<and> length (demo_bytes d) \<le> 32"
  proof cases
    case free
    then show ?thesis by (cases d) (simp add: demo_bytes_def demo_read_def rv Let_def)
  next
    case held
    have lt: "nat s < 2 ^ 64" "nat u < 2 ^ 64" "nat m < 2 ^ 64"
      using held by (auto simp: in_i64_def i64_max_def)
    have "0 \<le> u" "0 \<le> m" using held by auto
    with held lt show ?thesis
      by (cases d) (simp add: demo_bytes_def demo_read_def rv Let_def demo_be)
  qed
  then show "demo_read (demo_bytes d) = Some d" "length (demo_bytes d) \<le> 32" by simp_all
  then show "demo_bytes d \<noteq> []" by (auto simp: demo_read_def)
qed

lemma demo_text:
  assumes "valid_document d"
  shows "printable (demo_pack (demo_bytes d))" "length (demo_pack (demo_bytes d)) \<le> 256"
proof -
  have "length (demo_pack (demo_bytes d)) \<noteq> 0"
    using demo_read_bytes(3) [OF assms] by (simp only: demo_pack_text(2)) simp
  then show "printable (demo_pack (demo_bytes d))"
    using demo_pack_text(1) [of "demo_bytes d"] unfolding printable_def length_0_conv by blast
  show "length (demo_pack (demo_bytes d)) \<le> 256"
    using demo_read_bytes(2) [OF assms] by (simp only: demo_pack_text(2))
qed

lemma demo_json_ok: "hold_json_ok demo_json"
  using demo_text demo_read_bytes(1) by (simp add: hold_json_ok_def demo_json_def demo_unpack_pack)

lemma demo_hold: "hold demo_json demo_faults 0 Minutes15 1000 demo_world = (demo_held, Inr demo_receipt)"
  by (simp add: hold_def valid_now_def with_transaction_def hold_transaction_def load_document_tx_def
      stored_document_def next_revision_def u_checked_add_def hold_max_safe_integer_def hold_15_minutes_ms_def
      i64_checked_add_def i64_simps store_tx_def demo_faults_def demo_world_def demo_held_def
      demo_receipt_def demo_json_def demo_document_def sync_gate_state_def default_gate_def Let_def)

lemma demo_stored: "stored_document demo_json (hw_store demo_held) = Some (LoadedValid demo_document)"
  by (rule hold_applied [OF demo_hold _ demo_json_ok])
    (simp_all add: demo_receipt_def demo_document_def status_from_document_def)

lemma demo_acquire:
  "acquire_send_permit demo_json demo_faults 500 demo_world = (demo_world, Inr (Some \<lparr>sp_generation = 0\<rparr>))"
  by (simp add: acquire_send_permit_def with_transaction_def permits_send_tx_def valid_now_def
      load_document_tx_def stored_document_def demo_faults_def demo_world_def default_gate_def
      sync_gate_state_def)

theorem hold_blocks_sends_witness:
  "hold demo_json demo_faults 0 Minutes15 1000 demo_world = (demo_held, Inr demo_receipt)
   \<and> (\<exists>w3. start_http demo_json demo_faults (Some 900999) False (PollReady ()) \<lparr>sp_generation = 1\<rparr> False demo_held
           = (w3, False, StartDone (Inl StartHeld))
         \<and> hg_in_flight (hw_gate w3) = hg_in_flight (hw_gate demo_held)
         \<and> snd (acquire_send_permit demo_json demo_faults 900999 demo_held) \<noteq> Inr (Some \<lparr>sp_generation = 1\<rparr>))"
  by (intro conjI demo_hold hold_blocks_sends [OF demo_json_ok demo_hold])
    (simp_all add: demo_receipt_def demo_stored demo_document_def status_from_document_def
      hold_15_minutes_ms_def)

theorem stale_permits_refused_witness:
  "acquire_send_permit demo_json demo_faults 500 demo_world = (demo_world, Inr (Some \<lparr>sp_generation = 0\<rparr>))
   \<and> hold demo_json demo_faults 0 Minutes15 1000 demo_world = (demo_held, Inr demo_receipt)
   \<and> start_http demo_json demo_faults (Some 2000000) False (PollReady ()) \<lparr>sp_generation = 0\<rparr> False demo_held
       = (demo_held, False, StartDone (Inl StartHeld))"
  by (intro conjI demo_hold demo_acquire
      stale_permits_refused [OF demo_json_ok rtranclp.rtrancl_refl _ demo_acquire _ demo_hold, of 0 0])
    (simp_all add: demo_receipt_def demo_world_def)

theorem hold_roundtrip_witness:
  "hold demo_json demo_faults 0 Minutes15 1000 demo_world = (demo_held, Inr demo_receipt)
   \<and> status_at demo_json demo_faults 1000 demo_held = Inr (hr_state demo_receipt)
   \<and> require_not_held demo_json demo_faults 901000 demo_held = Inr ()"
  using hold_roundtrip [OF demo_json_ok demo_hold, of demo_faults 901000] demo_hold
  by (simp add: demo_receipt_def demo_faults_def hold_15_minutes_ms_def)

theorem revision_is_spent_witness:
  "hold demo_json demo_faults 0 Minutes15 1000 demo_world = (demo_held, Inr demo_receipt)
   \<and> (\<exists>r. hold demo_json demo_faults 0 Minutes60 2000 demo_held = (demo_held, Inr r) \<and> hr_status r = ''conflict'')"
proof -
  have "hold demo_json demo_faults 0 Minutes60 2000 demo_held
      = (demo_held, Inr \<lparr>hr_status = ''conflict'', hr_state = status_from_document demo_document 2000\<rparr>)"
    by (simp add: hold_def valid_now_def with_transaction_def hold_transaction_def load_document_tx_def
        demo_stored demo_faults_def) (simp add: demo_held_def demo_document_def)
  moreover have "(\<exists>d. hold demo_json demo_faults 0 d 1000 demo_world = (demo_held, Inr demo_receipt))
      \<or> resume demo_json demo_faults 0 1000 demo_world = (demo_held, Inr demo_receipt)"
    using demo_hold by blast
  moreover have "hr_status demo_receipt = ''applied''" by (simp add: demo_receipt_def)
  ultimately show ?thesis
    using revision_is_spent [OF demo_json_ok _ _ rtranclp.rtrancl_refl] demo_hold by blast
qed

end
