(* ===== verification/Bundle_Segments.thy ===== *)
theory Bundle_Segments
  imports Outbox_Ingress
begin

text \<open>
  Splitting the body of a bundle into messages (\<open>apps/server/src/outbox/bundles.rs\<close> with the limits and
  checks of \<open>outbox/validation.rs\<close>). Every message carries a header with its number, and the pieces are
  cut at line ends, else at white space, else at characters, and never in front of a combining mark or
  next to a zero-width joiner. Positions are byte offsets into the text.
\<close>

section \<open>The bundle and its validation\<close>

definition max_bundle_body_bytes :: nat where "max_bundle_body_bytes = 256 * 1024"
definition max_bundle_segments :: nat where "max_bundle_segments = 128"
definition max_rendered_segment_bytes :: nat where "max_rendered_segment_bytes = 3500"

record notification_bundle =
  nb_schema_version :: i64
  nb_bundle_id :: string
  nb_dedupe_key :: string
  nb_kind :: string
  nb_content_mode :: string
  nb_source :: string
  nb_correlation_key :: string
  nb_result_revision :: u64
  nb_title :: string
  nb_body :: string
  nb_source_hash :: string
  nb_created_at :: i64
  nb_expires_at :: i64

definition validate_bundle :: "(string \<Rightarrow> string) \<Rightarrow> notification_bundle \<Rightarrow> i64 \<Rightarrow> outbox_error + unit" where
  "validate_bundle sha256 b accepted_at =
     ensure Validation
       (nb_schema_version b = 1
        \<and> byte_length_between (nb_bundle_id b) 1 128
        \<and> byte_length_between (nb_dedupe_key b) 1 256
        \<and> nb_kind b = ''run_completed''
        \<and> nb_content_mode b = ''full_final''
        \<and> nb_source b = ''codex_stop''
        \<and> byte_length_between (nb_correlation_key b) 1 128
        \<and> nb_result_revision b > 0
        \<and> char_length_between (nb_title b) 1 128
        \<and> nb_body b \<noteq> []
        \<and> length (nb_body b) \<le> max_bundle_body_bytes
        \<and> nb_source_hash b = hex_encode (sha256 (nb_body b))
        \<and> length (nb_source_hash b) = 64
        \<and> list_all lower_hex (nb_source_hash b)
        \<and> 0 \<le> nb_created_at b
        \<and> nb_created_at b < nb_expires_at b
        \<and> accepted_at < nb_expires_at b
        \<and> i64_sub (nb_expires_at b) accepted_at \<le> max_ttl_ms)"

section \<open>Characters of a text\<close>

definition utf8_len :: "nat \<Rightarrow> nat" where
  "utf8_len n = (if n < 128 then 1 else if n < 2048 then 2 else if n < 65536 then 3 else 4)"

definition continuation_byte :: "char \<Rightarrow> bool" where
  "continuation_byte b \<longleftrightarrow> 128 \<le> byte_of b \<and> byte_of b < 192"

definition is_char_boundary :: "string \<Rightarrow> nat \<Rightarrow> bool" where
  "is_char_boundary s i \<longleftrightarrow>
     i = 0 \<or> i = length s \<or> (i < length s \<and> \<not> continuation_byte (s ! i))"

text \<open>The characters with the offsets of their ends.\<close>

fun char_ends :: "nat \<Rightarrow> nat list \<Rightarrow> (nat \<times> nat) list" where
  "char_ends off [] = []"
| "char_ends off (c # cs) = (off + utf8_len c, c) # char_ends (off + utf8_len c) cs"

definition is_combining_or_variation :: "nat \<Rightarrow> bool" where
  "is_combining_or_variation c \<longleftrightarrow>
     (0x0300 \<le> c \<and> c \<le> 0x036f) \<or> (0x1ab0 \<le> c \<and> c \<le> 0x1aff) \<or> (0x1dc0 \<le> c \<and> c \<le> 0x1dff)
     \<or> (0x20d0 \<le> c \<and> c \<le> 0x20ff) \<or> (0xfe00 \<le> c \<and> c \<le> 0xfe0f) \<or> (0xfe20 \<le> c \<and> c \<le> 0xfe2f)
     \<or> (0xe0100 \<le> c \<and> c \<le> 0xe01ef)"

definition unsafe_grapheme_boundary :: "string \<Rightarrow> nat \<Rightarrow> bool" where
  "unsafe_grapheme_boundary body boundary =
     (let before = first_row (rev (utf8_decode (take boundary body)));
          after = first_row (utf8_decode (drop boundary body))
      in before = Some 0x200d \<or> after = Some 0x200d \<or> is_some_and is_combining_or_variation after)"

section \<open>Headers\<close>

fun nat_decimal :: "nat \<Rightarrow> string" where
  "nat_decimal n =
     (if n < 10 then [char_of (48 + n)] else nat_decimal (n div 10) @ [char_of (48 + n mod 10)])"

declare nat_decimal.simps [simp del]

definition rendered_header :: "nat \<Rightarrow> nat \<Rightarrow> string \<Rightarrow> string" where
  "rendered_header index segments title =
     ''['' @ nat_decimal index @ ''/'' @ nat_decimal segments @ ''] '' @ title @ [char_of (10 :: nat), char_of (10 :: nat)]"

section \<open>Cutting\<close>

fun char_floor :: "string \<Rightarrow> nat \<Rightarrow> nat \<Rightarrow> nat" where
  "char_floor body start 0 = 0"
| "char_floor body start (Suc e) =
     (if Suc e > start \<and> \<not> is_char_boundary body (Suc e) then char_floor body start e else Suc e)"

definition rfind_newline :: "string \<Rightarrow> nat option" where
  "rfind_newline w = find (\<lambda>i. byte_of (w ! i) = 10) (rev [0..<length w])"

definition break_offset :: "string \<Rightarrow> nat \<Rightarrow> nat option" where
  "break_offset w minimum =
     (case Option.bind (rfind_newline w) (\<lambda>offset. if offset + 1 \<ge> minimum then Some (offset + 1) else None) of
        Some offset \<Rightarrow> Some offset
      | None \<Rightarrow>
          find (\<lambda>offset. offset \<ge> minimum)
            (rev (map fst (filter (\<lambda>(offset, c). is_whitespace c) (char_ends 0 (utf8_decode w))))))"

definition previous_char :: "string \<Rightarrow> nat \<Rightarrow> nat \<Rightarrow> nat" where
  "previous_char body start e =
     (case rev (utf8_decode (take e body)) of [] \<Rightarrow> start | c # _ \<Rightarrow> e - utf8_len c)"

function grapheme_floor :: "string \<Rightarrow> nat \<Rightarrow> nat \<Rightarrow> nat" where
  "grapheme_floor body start e =
     (if e > start \<and> unsafe_grapheme_boundary body e
      then grapheme_floor body start (previous_char body start e) else e)"
  by pat_completeness auto
termination
  by (relation "measure (\<lambda>(body, start, e). e)")
    (auto simp: previous_char_def utf8_len_def split: list.split)

declare grapheme_floor.simps [simp del]

definition segment_end :: "string \<Rightarrow> nat \<Rightarrow> nat \<Rightarrow> nat option" where
  "segment_end body content_budget start =
     (let e = char_floor body start (min (start + content_budget) (length body))
      in if e = start then None
         else if e < length body then
           let window = take (e - start) (drop start body);
               e = (case break_offset window (content_budget div 2) of Some offset \<Rightarrow> start + offset | None \<Rightarrow> e);
               e = grapheme_floor body start e
           in if e = start then None else Some e
         else Some e)"

text \<open>The loop that collects the ranges; the number counts how many more are allowed.\<close>

primrec segment_loop :: "string \<Rightarrow> nat \<Rightarrow> nat \<Rightarrow> nat \<Rightarrow> outbox_error + (nat \<times> nat) list" where
  "segment_loop body content_budget 0 start =
     (if start < length body then Inl Validation else Inr [])"
| "segment_loop body content_budget (Suc left) start =
     (if start < length body then
        (case segment_end body content_budget start of
           None \<Rightarrow> Inl Validation
         | Some e \<Rightarrow>
             and_then (segment_loop body content_budget left e) (\<lambda>ranges. Inr ((start, e) # ranges)))
      else Inr [])"

definition segment_ranges :: "string \<Rightarrow> string \<Rightarrow> outbox_error + (nat \<times> nat) list" where
  "segment_ranges title body =
     (let worst_header = rendered_header max_bundle_segments max_bundle_segments title
      in if max_rendered_segment_bytes \<le> length worst_header then Inl Validation
         else
           and_then (segment_loop body (max_rendered_segment_bytes - length worst_header) max_bundle_segments 0)
             (\<lambda>ranges.
                if list_ex (\<lambda>(index, start, e).
                     length (rendered_header (index + 1) (length ranges) title) + e - start
                       > max_rendered_segment_bytes) (enumerate 0 ranges)
                then Inl Validation else Inr ranges))"

section \<open>Notions of the proofs\<close>

text \<open>The offset of a character, the bytes of a range, characters that never forbid a cut, an example.\<close>

definition at_char :: "nat list \<Rightarrow> nat \<Rightarrow> bool" where
  "at_char cs i \<longleftrightarrow> (\<exists>xs ys. cs = xs @ ys \<and> i = length (utf8_encode xs))"

abbreviation scalars :: "nat list \<Rightarrow> bool" where
  "scalars \<equiv> list_all scalar_value"

definition text_slice :: "string \<Rightarrow> nat \<times> nat \<Rightarrow> string" where
  "text_slice body r = take (snd r - fst r) (drop (fst r) body)"

definition plain_char :: "nat \<Rightarrow> bool" where
  "plain_char c \<longleftrightarrow> c \<noteq> 0x200d \<and> \<not> is_combining_or_variation c"

definition two_lines :: string where
  "two_lines = ''first'' @ [char_of (10 :: nat)] @ ''second''"

section \<open>Characters and their bytes\<close>


lemma utf8_encode_append [simp]: "utf8_encode (xs @ ys) = utf8_encode xs @ utf8_encode ys"
  by (simp add: utf8_encode_def)

lemma utf8_encode_Nil [simp]: "utf8_encode [] = []"
  by (simp add: utf8_encode_def)

lemma utf8_encode_Cons: "utf8_encode (c # cs) = utf8_encode1 c @ utf8_encode cs"
  by (simp add: utf8_encode_def)

lemma length_utf8_encode1 [simp]: "length (utf8_encode1 c) = utf8_len c"
  by (simp add: utf8_encode1.simps utf8_len_def)

lemma utf8_len_pos [simp]: "0 < utf8_len c"
  by (simp add: utf8_len_def)

lemma scalars_decode [simp]: "scalars cs \<Longrightarrow> utf8_decode (utf8_encode cs) = cs"
  by (rule utf8_decode_encode) (auto simp: list_all_iff scalar_value_def)

lemma scalars_valid: "scalars cs \<Longrightarrow> utf8_valid (utf8_encode cs)"
  by (simp add: utf8_valid_def)

text \<open>The first byte of a character is not a continuation byte, and the others are.\<close>

lemma encode1_first:
  assumes "scalar_value c"
  shows "\<exists>b bs. utf8_encode1 c = b # bs \<and> \<not> continuation_byte b \<and> list_all continuation_byte bs
     \<and> (byte_of b < 128 \<longleftrightarrow> utf8_len c = 1)"
proof -
  have c: "c < 1114112" using assms by (auto simp: scalar_value_def)
  have d: "c div 262144 < 5" "c < 65536 \<Longrightarrow> c div 4096 < 16" "c < 2048 \<Longrightarrow> c div 64 < 32"
    using c by (auto simp: less_mult_imp_div_less)
  have m: "continuation_byte (char_of (128 + q mod 64))" for q :: nat
    by (simp add: continuation_byte_def mod_less)
  have l: "\<not> continuation_byte (char_of (192 + q))" "\<not> byte_of (char_of (192 + q)) < 128" if "q < 64" for q :: nat
    using that by (simp_all add: continuation_byte_def mod_less)
  consider "c < 128" | "128 \<le> c" "c < 2048" | "2048 \<le> c" "c < 65536" | "65536 \<le> c" by linarith
  then show ?thesis
  proof cases
    case 1
    then show ?thesis by (simp add: utf8_encode1.simps utf8_len_def continuation_byte_def)
  next
    case 2
    then show ?thesis using d(3) l [of "c div 64"] m [of c]
      by (simp add: utf8_encode1.simps utf8_len_def)
  next
    case 3
    then show ?thesis using d(2) l [of "32 + c div 4096"] m [of c] m [of "c div 64"]
      by (simp add: utf8_encode1.simps utf8_len_def)
  next
    case 4
    then show ?thesis using d(1) l [of "48 + c div 262144"] m [of c] m [of "c div 64"] m [of "c div 4096"]
      by (simp add: utf8_encode1.simps utf8_len_def)
  qed
qed

lemma encode1_bytes:
  assumes "scalar_value c" "i < utf8_len c" "0 < i"
  shows "continuation_byte (utf8_encode1 c ! i)"
proof -
  obtain b bs where b: "utf8_encode1 c = b # bs" "list_all continuation_byte bs"
    using encode1_first [OF assms(1)] by blast
  moreover have "length (utf8_encode1 c) = utf8_len c" by simp
  ultimately show ?thesis using assms(2,3)
    by (cases i) (auto simp: list_all_length simp del: length_utf8_encode1)
qed

lemma boundary_at_char:
  assumes "scalars cs" "is_char_boundary (utf8_encode cs) i"
  shows "at_char cs i"
  using assms
proof (induction cs arbitrary: i)
  case Nil
  then show ?case by (auto simp: is_char_boundary_def at_char_def)
next
  case (Cons c cs)
  have c: "scalar_value c" "scalars cs" using Cons.prems(1) by simp_all
  show ?case
  proof (cases "i < utf8_len c")
    case True
    have "i = 0"
    proof (rule ccontr)
      assume "i \<noteq> 0"
      then have "continuation_byte (utf8_encode (c # cs) ! i)"
        using encode1_bytes [OF c(1) True] True \<open>i \<noteq> 0\<close> by (simp add: utf8_encode_Cons nth_append)
      then show False using Cons.prems(2) True \<open>i \<noteq> 0\<close>
        by (auto simp: is_char_boundary_def utf8_encode_Cons)
    qed
    then show ?thesis unfolding at_char_def by (metis append_Nil list.size(3) utf8_encode_Nil)
  next
    case False
    then have "is_char_boundary (utf8_encode cs) (i - utf8_len c)"
      using Cons.prems(2) utf8_len_pos [of c] by (auto simp: is_char_boundary_def utf8_encode_Cons nth_append simp del: utf8_len_pos)
    then have "at_char cs (i - utf8_len c)" using Cons.IH c by blast
    then obtain xs ys where "cs = xs @ ys" "i - utf8_len c = length (utf8_encode xs)"
      unfolding at_char_def by blast
    then have "c # cs = (c # xs) @ ys" "i = length (utf8_encode (c # xs))"
      using False by (simp_all add: utf8_encode_Cons)
    then show ?thesis unfolding at_char_def by blast
  qed
qed

lemma at_char_zero: "at_char cs 0"
  unfolding at_char_def by (rule exI [of _ "[]"]) simp

lemma at_char_end: "at_char cs (length (utf8_encode cs))"
  unfolding at_char_def by blast

lemma utf8_encode_empty: "utf8_encode ms = [] \<Longrightarrow> ms = []"
proof (cases ms)
  case (Cons c cs)
  assume "utf8_encode ms = []"
  then have "utf8_len c = 0" using Cons length_utf8_encode1 [of c] by (simp add: utf8_encode_Cons)
  then show ?thesis using utf8_len_pos [of c] by simp
qed simp

text \<open>Between two character positions stand whole characters.\<close>

lemma at_char_between:
  assumes "at_char cs i" "at_char cs j" "i \<le> j"
  obtains xs ms ys where "cs = xs @ ms @ ys" "i = length (utf8_encode xs)" "j = i + length (utf8_encode ms)"
proof -
  obtain xs xs' where x: "cs = xs @ xs'" "i = length (utf8_encode xs)"
    using assms(1) unfolding at_char_def by blast
  obtain zs ys where z: "cs = zs @ ys" "j = length (utf8_encode zs)"
    using assms(2) unfolding at_char_def by blast
  have "xs @ xs' = zs @ ys" using x z by simp
  then have "(\<exists>ms. xs = zs @ ms \<and> ms @ xs' = ys) \<or> (\<exists>ms. zs = xs @ ms \<and> xs' = ms @ ys)"
    by (simp only: append_eq_append_conv2) metis
  then consider ms where "zs = xs @ ms" "xs' = ms @ ys" | ms where "xs = zs @ ms" "ys = ms @ xs'"
    by metis
  then show ?thesis
  proof cases
    case 1
    then show ?thesis using that [of xs ms ys] x z by simp
  next
    case 2
    then have "utf8_encode ms = []" using x z assms(3) by simp
    then have "ms = []" by (rule utf8_encode_empty)
    then show ?thesis using that [of xs "[]" ys] 2 x z by simp
  qed
qed

lemma at_char_newline:
  assumes "scalars cs" "i < length (utf8_encode cs)" "byte_of (utf8_encode cs ! i) < 128"
  shows "at_char cs (Suc i)"
proof -
  have "is_char_boundary (utf8_encode cs) i"
    using assms(2,3) by (simp add: is_char_boundary_def continuation_byte_def)
  then obtain xs ys where x: "cs = xs @ ys" "i = length (utf8_encode xs)"
    using boundary_at_char [OF assms(1)] unfolding at_char_def by blast
  then obtain c zs where ys: "ys = c # zs" using assms(2) by (cases ys) auto
  then have b: "byte_of (utf8_encode1 c ! 0) < 128"
    using assms(3) x by (simp add: utf8_encode_Cons nth_append)
  have sc: "scalar_value c" using assms(1) x ys by simp
  have "utf8_len c = 1" using encode1_first [OF sc] b by auto
  then have "cs = (xs @ [c]) @ zs" "Suc i = length (utf8_encode (xs @ [c]))"
    using x ys by (simp_all add: utf8_encode_Cons)
  then show ?thesis unfolding at_char_def by blast
qed

lemma char_ends_at:
  assumes "e \<in> fst ` set (char_ends off cs)"
  shows "\<exists>xs ys. cs = xs @ ys \<and> e = off + length (utf8_encode xs)"
  using assms
proof (induction cs arbitrary: off)
  case (Cons c cs)
  then consider "e = off + utf8_len c" | "e \<in> fst ` set (char_ends (off + utf8_len c) cs)" by auto
  then show ?case
  proof cases
    case 1
    then show ?thesis by (intro exI [of _ "[c]"] exI [of _ cs]) (simp add: utf8_encode_Cons)
  next
    case 2
    then obtain xs ys where "cs = xs @ ys" "e = off + utf8_len c + length (utf8_encode xs)"
      using Cons.IH by blast
    then show ?thesis by (intro exI [of _ "c # xs"] exI [of _ ys]) (simp add: utf8_encode_Cons)
  qed
qed simp


lemma at_char_le: "at_char cs i \<Longrightarrow> i \<le> length (utf8_encode cs)"
  by (auto simp: at_char_def)

lemma at_char_shift:
  assumes "at_char ws i" "cs = xs @ ws @ ys"
  shows "at_char cs (length (utf8_encode xs) + i)"
proof -
  obtain us vs where "ws = us @ vs" "i = length (utf8_encode us)" using assms(1) unfolding at_char_def by blast
  then have "cs = (xs @ us) @ (vs @ ys)" "length (utf8_encode xs) + i = length (utf8_encode (xs @ us))"
    using assms(2) by simp_all
  then show ?thesis unfolding at_char_def by blast
qed

lemma char_floor_bounds:
  assumes "start \<le> e"
  shows "start \<le> char_floor body start e \<and> char_floor body start e \<le> e
    \<and> (char_floor body start e = start \<or> is_char_boundary body (char_floor body start e))"
  using assms
proof (induction e)
  case (Suc e)
  show ?case
  proof (cases "Suc e > start \<and> \<not> is_char_boundary body (Suc e)")
    case True
    then show ?thesis using Suc.IH by auto
  next
    case False
    then show ?thesis using Suc.prems by auto
  qed
qed simp

lemma break_offset_at_char:
  assumes "scalars ws" "break_offset (utf8_encode ws) m = Some i"
  shows "at_char ws i \<and> m \<le> i"
proof (cases "Option.bind (rfind_newline (utf8_encode ws)) (\<lambda>i. if i + 1 \<ge> m then Some (i + 1) else None)")
  case None
  then have "find (\<lambda>i. i \<ge> m) (rev (map fst (filter (\<lambda>(i, c). is_whitespace c) (char_ends 0 ws)))) = Some i"
    using assms by (simp add: break_offset_def)
  then have "i \<in> fst ` set (char_ends 0 ws)" "m \<le> i" by (auto dest!: find_SomeD)
  then show ?thesis using char_ends_at [of i 0 ws] by (auto simp: at_char_def)
next
  case (Some j)
  then have "i = j" using assms(2) by (simp add: break_offset_def)
  then obtain n where n: "rfind_newline (utf8_encode ws) = Some n" "i = Suc n" "m \<le> i"
    using Some by (auto simp: bind_eq_Some_conv split: if_splits)
  then have "n < length (utf8_encode ws)" "byte_of (utf8_encode ws ! n) = 10"
    by (auto simp: rfind_newline_def dest!: find_SomeD)
  then show ?thesis using at_char_newline [OF assms(1), of n] n by simp
qed

lemma previous_char_at_char:
  assumes "scalars cs" "at_char cs start" "at_char cs e" "start < e"
  shows "at_char cs (previous_char (utf8_encode cs) start e)
    \<and> start \<le> previous_char (utf8_encode cs) start e \<and> previous_char (utf8_encode cs) start e < e"
proof -
  obtain xs ms ys where c: "cs = xs @ ms @ ys" "start = length (utf8_encode xs)"
      "e = start + length (utf8_encode ms)"
    using at_char_between [OF assms(2,3)] assms(4) less_imp_le by metis
  then have "ms \<noteq> []" using assms(4) by auto
  then obtain us u where ms: "ms = us @ [u]" by (metis rev_exhaust)
  have t: "take e (utf8_encode cs) = utf8_encode (xs @ ms)" using c by simp
  have "scalars (xs @ ms)" using assms(1) c by simp
  then have "utf8_decode (take e (utf8_encode cs)) = xs @ us @ [u]"
    unfolding t ms by (rule scalars_decode)
  then have p: "previous_char (utf8_encode cs) start e = length (utf8_encode (xs @ us))"
    using c ms by (simp add: previous_char_def utf8_encode_Cons)
  moreover have "cs = (xs @ us) @ (u # ys)" using c ms by simp
  ultimately have "at_char cs (previous_char (utf8_encode cs) start e)" unfolding at_char_def by blast
  moreover have "0 < utf8_len u" by simp
  ultimately show ?thesis using p c ms by (simp add: utf8_encode_Cons del: utf8_len_pos)
qed

lemma grapheme_floor_at_char:
  assumes "scalars cs" "at_char cs start" "at_char cs e" "start \<le> e"
  defines "g \<equiv> grapheme_floor (utf8_encode cs) start e"
  shows "at_char cs g \<and> start \<le> g \<and> g \<le> e \<and> (g = start \<or> \<not> unsafe_grapheme_boundary (utf8_encode cs) g)"
  using assms(3,4) unfolding g_def
proof (induction e rule: less_induct)
  case (less e)
  show ?case
  proof (cases "e > start \<and> unsafe_grapheme_boundary (utf8_encode cs) e")
    case True
    let ?p = "previous_char (utf8_encode cs) start e"
    have p: "at_char cs ?p" "start \<le> ?p" "?p < e"
      using previous_char_at_char [OF assms(1,2) less.prems(1)] True by simp_all
    have "grapheme_floor (utf8_encode cs) start e = grapheme_floor (utf8_encode cs) start ?p"
      using True by (simp add: grapheme_floor.simps [of _ _ e])
    then show ?thesis using less.IH [OF p(3,1,2)] p(3) by simp
  next
    case False
    then have "grapheme_floor (utf8_encode cs) start e = e"
      by (simp only: grapheme_floor.simps [of _ _ e] if_False)
    then show ?thesis using False less.prems by auto
  qed
qed

lemma segment_end_at_char:
  assumes cs: "scalars cs" "at_char cs start" and "start < length (utf8_encode cs)"
    and e: "segment_end (utf8_encode cs) budget start = Some e"
  shows "at_char cs e \<and> start < e \<and> e \<le> start + budget
    \<and> (e = length (utf8_encode cs) \<or> \<not> unsafe_grapheme_boundary (utf8_encode cs) e)"
proof -
  let ?b = "utf8_encode cs"
  define f where "f = char_floor ?b start (min (start + budget) (length ?b))"
  have f: "start \<le> f" "f \<le> length ?b" "f = start \<or> is_char_boundary ?b f" "f \<le> start + budget"
    using char_floor_bounds [of start "min (start + budget) (length ?b)" ?b] assms(3) by (auto simp: f_def)
  have ne: "f \<noteq> start" using e by (auto simp: segment_end_def f_def Let_def)
  then have af: "at_char cs f" using f(3) boundary_at_char [OF cs(1)] by blast
  show ?thesis
  proof (cases "f < length ?b")
    case False
    then have "e = f" using e ne by (simp add: segment_end_def Let_def f_def split: if_splits)
    then show ?thesis using False f ne af by auto
  next
    case True
    define w where "w = take (f - start) (drop start ?b)"
    define h where "h = (case break_offset w (budget div 2) of Some i \<Rightarrow> start + i | None \<Rightarrow> f)"
    have g: "e = grapheme_floor ?b start h" "e \<noteq> start"
      using e ne True unfolding segment_end_def Let_def f_def [symmetric] w_def [symmetric] h_def [symmetric]
      by (auto split: if_splits)
    obtain xs ms ys where c: "cs = xs @ ms @ ys" "start = length (utf8_encode xs)"
        "f = start + length (utf8_encode ms)"
      using at_char_between [OF cs(2) af f(1)] .
    have w: "w = utf8_encode ms" using c by (simp add: w_def)
    have "at_char cs h \<and> start \<le> h \<and> h \<le> f"
    proof (cases "break_offset w (budget div 2)")
      case None
      then show ?thesis using af f(1) by (simp add: h_def)
    next
      case (Some i)
      have "at_char ms i" using break_offset_at_char [of ms] Some w cs(1) c(1) by simp
      then show ?thesis using at_char_shift [of ms i cs xs ys] at_char_le [of ms i] c Some by (simp add: h_def)
    qed
    then show ?thesis using grapheme_floor_at_char [OF cs, of h] g f(4) by auto
  qed
qed

lemma segment_loop_sound:
  assumes cs: "scalars cs"
  shows "segment_loop (utf8_encode cs) budget k start = Inr ranges \<Longrightarrow> at_char cs start \<Longrightarrow>
    length ranges \<le> k
    \<and> concat (map (text_slice (utf8_encode cs)) ranges) = drop start (utf8_encode cs)
    \<and> (\<forall>r\<in>set ranges. fst r < snd r \<and> snd r \<le> fst r + budget \<and> at_char cs (fst r) \<and> at_char cs (snd r)
          \<and> (snd r = length (utf8_encode cs) \<or> \<not> unsafe_grapheme_boundary (utf8_encode cs) (snd r)))"
proof (induction k arbitrary: start ranges)
  case 0
  then show ?case by (auto split: if_splits)
next
  case (Suc k)
  let ?b = "utf8_encode cs"
  show ?case
  proof (cases "start < length ?b")
    case False
    then show ?thesis using Suc.prems by auto
  next
    case True
    then obtain e rest where e: "segment_end ?b budget start = Some e"
        and rest: "segment_loop ?b budget k e = Inr rest" and r: "ranges = (start, e) # rest"
      using Suc.prems(1) by (auto split: option.splits sum.splits simp: and_then_def)
    have ae: "at_char cs e" "start < e" "e \<le> start + budget"
        "e = length ?b \<or> \<not> unsafe_grapheme_boundary ?b e"
      using segment_end_at_char [OF cs Suc.prems(2) True e] by simp_all
    have "text_slice ?b (start, e) @ drop e ?b = drop start ?b"
      using ae(2) append_take_drop_id [of "e - start" "drop start ?b"] by (simp add: text_slice_def)
    then show ?thesis using Suc.IH [OF rest ae(1)] r ae Suc.prems(2) by auto
  qed
qed


lemma utf8_valid_chars: "utf8_valid body \<Longrightarrow> \<exists>cs. scalars cs \<and> body = utf8_encode cs"
  by (metis utf8_valid_def)

text \<open>Headers of segments are no longer than the one the budget is computed with.\<close>

lemma length_nat_decimal: "n < 1000 \<Longrightarrow> length (nat_decimal n) = (if n < 10 then 1 else if n < 100 then 2 else 3)"
  by (simp add: nat_decimal.simps [of n] nat_decimal.simps [of "n div 10"] nat_decimal.simps [of "n div 10 div 10"])
    linarith

lemma rendered_header_worst:
  assumes "i \<le> max_bundle_segments" "n \<le> max_bundle_segments"
  shows "length (rendered_header i n title) \<le> length (rendered_header max_bundle_segments max_bundle_segments title)"
  using assms by (simp add: rendered_header_def length_nat_decimal max_bundle_segments_def)

lemma length_slice: "length (text_slice body r) \<le> snd r - fst r"
  by (simp add: text_slice_def)

lemma between_slice:
  assumes "scalars cs" "at_char cs (fst r)" "at_char cs (snd r)" "fst r < snd r"
  shows "utf8_valid (text_slice (utf8_encode cs) r)"
proof -
  obtain xs ms ys where "cs = xs @ ms @ ys" "fst r = length (utf8_encode xs)"
      "snd r = fst r + length (utf8_encode ms)"
    using at_char_between [OF assms(2,3)] assms(4) less_imp_le by metis
  then have "text_slice (utf8_encode cs) r = utf8_encode ms" "scalars ms"
    using assms(1) by (simp_all add: text_slice_def)
  then show ?thesis by (simp add: scalars_valid)
qed

lemma segment_rangesD:
  assumes "segment_ranges title body = Inr ranges"
  defines "worst \<equiv> length (rendered_header max_bundle_segments max_bundle_segments title)"
  shows "worst < max_rendered_segment_bytes"
    and "segment_loop body (max_rendered_segment_bytes - worst) max_bundle_segments 0 = Inr ranges"
  using assms(1) unfolding worst_def
  by (auto simp: segment_ranges_def Let_def and_then_def split: if_splits sum.splits)

text \<open>
  C39: the pieces of a text are the text: in order they concatenate to it, there are at most 128 of them,
  none is empty, each is well-formed UTF-8 by itself, none ends in front of a combining mark or next to a
  zero-width joiner, and every piece with its header fits into a message.
\<close>

theorem segments_reconstruct_body:
  assumes "utf8_valid body" "segment_ranges title body = Inr ranges"
  shows "concat (map (text_slice body) ranges) = body
    \<and> length ranges \<le> max_bundle_segments
    \<and> (\<forall>r\<in>set ranges. fst r < snd r \<and> snd r \<le> length body \<and> utf8_valid (text_slice body r)
          \<and> (snd r = length body \<or> \<not> unsafe_grapheme_boundary body (snd r)))
    \<and> (\<forall>i<length ranges.
          length (rendered_header (i + 1) (length ranges) title @ text_slice body (ranges ! i))
            \<le> max_rendered_segment_bytes)"
proof -
  obtain cs where cs: "scalars cs" and b: "body = utf8_encode cs" using utf8_valid_chars [OF assms(1)] by blast
  note loop = segment_rangesD [OF assms(2)]
  note sound = segment_loop_sound [OF cs loop(2) [unfolded b] at_char_zero, folded b]
  have "length (rendered_header (i + 1) (length ranges) title @ text_slice body (ranges ! i))
      \<le> max_rendered_segment_bytes" if i: "i < length ranges" for i
  proof -
    have "length (rendered_header (i + 1) (length ranges) title)
        \<le> length (rendered_header max_bundle_segments max_bundle_segments title)"
      using i sound by (intro rendered_header_worst) auto
    moreover have "snd (ranges ! i) \<le> fst (ranges ! i)
        + (max_rendered_segment_bytes - length (rendered_header max_bundle_segments max_bundle_segments title))"
      using i sound nth_mem by blast
    ultimately show ?thesis using loop(1) length_slice [of body "ranges ! i"] by simp
  qed
  moreover have "utf8_valid (text_slice body r)" "snd r \<le> length body" if "r \<in> set ranges" for r
    using sound that between_slice [OF cs] at_char_le [of cs "snd r"] unfolding b by blast+
  ultimately show ?thesis using sound by auto
qed


section \<open>Texts that are accepted\<close>

lemma char_before:
  assumes "p \<le> length (utf8_encode cs)"
  shows "\<exists>q. at_char cs q \<and> q \<le> p \<and> p \<le> q + 3"
  using assms
proof (induction cs arbitrary: p)
  case Nil
  then show ?case using at_char_zero by auto
next
  case (Cons c cs)
  show ?case
  proof (cases "p < utf8_len c")
    case True
    then have "p \<le> 3" by (auto simp: utf8_len_def split: if_splits)
    then show ?thesis using at_char_zero by auto
  next
    case False
    have "p - utf8_len c \<le> length (utf8_encode cs)" using Cons.prems by (simp add: utf8_encode_Cons)
    then obtain q where q: "at_char cs q" "q \<le> p - utf8_len c" "p - utf8_len c \<le> q + 3"
      using Cons.IH by blast
    have "at_char (c # cs) (length (utf8_encode [c]) + q)" by (rule at_char_shift [OF q(1), of _ "[c]" "[]"]) simp
    then show ?thesis using q False by (intro exI [of _ "utf8_len c + q"]) (simp add: utf8_encode_Cons, linarith)
  qed
qed

lemma at_char_boundary:
  assumes "scalars cs" "at_char cs i"
  shows "is_char_boundary (utf8_encode cs) i"
proof -
  obtain xs ys where x: "cs = xs @ ys" "i = length (utf8_encode xs)" using assms(2) unfolding at_char_def by blast
  show ?thesis
  proof (cases ys)
    case Nil
    then show ?thesis using x by (simp add: is_char_boundary_def)
  next
    case (Cons y zs)
    then have "scalar_value y" using assms(1) x by simp
    then obtain b bs where "utf8_encode1 y = b # bs" "\<not> continuation_byte b" using encode1_first by blast
    then show ?thesis using x Cons by (simp add: is_char_boundary_def utf8_encode_Cons)
  qed
qed

lemma char_floor_end: "char_floor body start (length body) = length body"
  by (cases "length body") (simp_all add: is_char_boundary_def)

lemma char_floor_ge:
  assumes "is_char_boundary body q" "q \<le> e"
  shows "q \<le> char_floor body start e"
  using assms
proof (induction e)
  case (Suc e)
  then show ?case by (cases "q = Suc e") auto
qed simp

lemma plain_safe:
  assumes "scalars cs" "list_all plain_char cs" "at_char cs i"
  shows "\<not> unsafe_grapheme_boundary (utf8_encode cs) i"
proof -
  obtain xs ys where x: "cs = xs @ ys" "i = length (utf8_encode xs)" using assms(3) unfolding at_char_def by blast
  then have "utf8_decode (take i (utf8_encode cs)) = xs" "utf8_decode (drop i (utf8_encode cs)) = ys"
    using assms(1) by simp_all
  moreover have "list_all plain_char (rev xs)" "list_all plain_char ys" using assms(2) x by simp_all
  ultimately show ?thesis unfolding unsafe_grapheme_boundary_def
    by (cases "rev xs"; cases ys) (auto simp: plain_char_def)
qed

lemma segment_end_long:
  assumes cs: "scalars cs" "list_all plain_char cs" "at_char cs start"
    and lt: "start < length (utf8_encode cs)" and budget: "6 \<le> budget"
  shows "\<exists>e. segment_end (utf8_encode cs) budget start = Some e
    \<and> (e = length (utf8_encode cs) \<or> start + budget div 2 \<le> e)"
proof -
  let ?b = "utf8_encode cs"
  define f where "f = char_floor ?b start (min (start + budget) (length ?b))"
  have f: "start \<le> f" "f \<le> length ?b" "f = start \<or> is_char_boundary ?b f"
    using char_floor_bounds [of start "min (start + budget) (length ?b)" ?b] lt by (auto simp: f_def)
  have full: "f = length ?b" if "length ?b \<le> start + budget"
    unfolding f_def min_absorb2 [OF that] by (rule char_floor_end)
  have long: "start + budget div 2 \<le> f" if le: "start + budget \<le> length ?b"
  proof -
    obtain q where q: "at_char cs q" "q \<le> start + budget" "start + budget \<le> q + 3"
      using char_before [OF le] by auto
    have "q \<le> f" unfolding f_def min_absorb1 [OF le]
      by (rule char_floor_ge [OF at_char_boundary [OF cs(1) q(1)] q(2)])
    then show ?thesis using q(3) budget by linarith
  qed
  have ne: "f \<noteq> start"
  proof (cases "length ?b \<le> start + budget")
    case True
    then show ?thesis using full lt by simp
  next
    case False
    then have "start + budget div 2 \<le> f" using long by simp
    then show ?thesis using budget by linarith
  qed
  then have af: "at_char cs f" using f(3) boundary_at_char [OF cs(1)] by blast
  show ?thesis
  proof (cases "f < length ?b")
    case False
    then show ?thesis using f ne unfolding segment_end_def Let_def f_def [symmetric] by simp
  next
    case True
    define w where "w = take (f - start) (drop start ?b)"
    define h where "h = (case break_offset w (budget div 2) of Some i \<Rightarrow> start + i | None \<Rightarrow> f)"
    obtain xs ms ys where c: "cs = xs @ ms @ ys" "start = length (utf8_encode xs)"
        "f = start + length (utf8_encode ms)"
      using at_char_between [OF cs(3) af f(1)] .
    have w: "w = utf8_encode ms" using c by (simp add: w_def)
    have h: "at_char cs h \<and> start + budget div 2 \<le> h"
    proof (cases "break_offset w (budget div 2)")
      case None
      have "\<not> length ?b \<le> start + budget" using full True by force
      then have "start + budget div 2 \<le> f" by (intro long) simp
      then show ?thesis using None af by (simp add: h_def)
    next
      case (Some i)
      have "at_char ms i \<and> budget div 2 \<le> i" using break_offset_at_char [of ms] Some w cs(1) c(1) by simp
      then show ?thesis using at_char_shift [of ms i cs xs ys] c Some by (simp add: h_def)
    qed
    then have "\<not> (h > start \<and> unsafe_grapheme_boundary ?b h)" using plain_safe [OF cs(1,2), of h] by blast
    then have "grapheme_floor ?b start h = h" by (simp only: grapheme_floor.simps [of _ _ h] if_False)
    moreover have "h \<noteq> start" using h budget by linarith
    ultimately have "segment_end ?b budget start = Some h"
      using ne True unfolding segment_end_def Let_def f_def [symmetric] w_def [symmetric] h_def [symmetric]
      by simp
    then show ?thesis using h by blast
  qed
qed

lemma segment_loop_complete:
  assumes cs: "scalars cs" "list_all plain_char cs" and budget: "6 \<le> budget"
  shows "at_char cs start \<Longrightarrow> length (utf8_encode cs) \<le> start + k * (budget div 2) \<Longrightarrow>
    \<exists>ranges. segment_loop (utf8_encode cs) budget k start = Inr ranges"
proof (induction k arbitrary: start)
  case (Suc k)
  show ?case
  proof (cases "start < length (utf8_encode cs)")
    case True
    then obtain e where e: "segment_end (utf8_encode cs) budget start = Some e"
        "e = length (utf8_encode cs) \<or> start + budget div 2 \<le> e"
      using segment_end_long [OF cs Suc.prems(1) _ budget] by blast
    have "at_char cs e" using segment_end_at_char [OF cs(1) Suc.prems(1) True e(1)] by simp
    moreover have "length (utf8_encode cs) \<le> e + k * (budget div 2)" using e(2) Suc.prems(2) by auto
    ultimately obtain rs where "segment_loop (utf8_encode cs) budget k e = Inr rs" using Suc.IH by blast
    then show ?thesis using True e(1) by (simp add: and_then_def)
  qed simp
qed simp

lemma segment_ranges_loop:
  assumes cs: "scalars cs" and worst: "length (rendered_header max_bundle_segments max_bundle_segments title) < max_rendered_segment_bytes"
    and loop: "segment_loop (utf8_encode cs) (max_rendered_segment_bytes
        - length (rendered_header max_bundle_segments max_bundle_segments title)) max_bundle_segments 0 = Inr ranges"
  shows "segment_ranges title (utf8_encode cs) = Inr ranges"
proof -
  note sound = segment_loop_sound [OF cs loop at_char_zero]
  have "\<not> length (rendered_header (i + 1) (length ranges) title) + snd (ranges ! i) - fst (ranges ! i)
      > max_rendered_segment_bytes" if i: "i < length ranges" for i
  proof -
    have "length (rendered_header (i + 1) (length ranges) title)
        \<le> length (rendered_header max_bundle_segments max_bundle_segments title)"
      using i sound by (intro rendered_header_worst) auto
    moreover have "snd (ranges ! i) \<le> fst (ranges ! i)
        + (max_rendered_segment_bytes - length (rendered_header max_bundle_segments max_bundle_segments title))"
      using i sound nth_mem by blast
    ultimately show ?thesis using worst by simp
  qed
  then have "\<not> list_ex (\<lambda>(index, start, e). length (rendered_header (index + 1) (length ranges) title) + e - start
      > max_rendered_segment_bytes) (enumerate 0 ranges)"
    by (auto simp: list_ex_iff in_set_enumerate_eq) (metis fst_conv snd_conv)
  then show ?thesis using worst loop by (simp add: segment_ranges_def Let_def and_then_def)
qed

lemma length_utf8_encode_le: "length (utf8_encode cs) \<le> 4 * length cs"
proof (induction cs)
  case (Cons c cs)
  have "utf8_len c \<le> 4" by (simp add: utf8_len_def)
  then show ?case using Cons by (simp add: utf8_encode_Cons)
qed simp

text \<open>
  C40: with every title that passes validation a text of up to 190464 bytes without joiners and combining
  marks is split successfully; the checks of the finished ranges never fail.
\<close>

theorem plain_text_is_segmented:
  assumes "utf8_valid title" "char_length_between title 1 128"
    and "utf8_valid body" "list_all plain_char (utf8_decode body)" "length body \<le> 190464"
  shows "\<exists>ranges. segment_ranges title body = Inr ranges"
proof -
  obtain cs where cs: "scalars cs" "body = utf8_encode cs" using utf8_valid_chars [OF assms(3)] by blast
  have "length title \<le> 512"
    using assms(1,2) length_utf8_encode_le [of "utf8_decode title"]
    by (simp add: utf8_valid_def char_length_between_def chars_count_def)
  then have w: "length (rendered_header max_bundle_segments max_bundle_segments title) \<le> 524"
    by (simp add: rendered_header_def length_nat_decimal max_bundle_segments_def)
  define budget where "budget = max_rendered_segment_bytes
     - length (rendered_header max_bundle_segments max_bundle_segments title)"
  have "2976 \<le> budget" using w by (simp add: budget_def max_rendered_segment_bytes_def)
  then have b: "6 \<le> budget" "1488 \<le> budget div 2" by simp_all
  then have "length (utf8_encode cs) \<le> 0 + max_bundle_segments * (budget div 2)"
    using assms(5) cs(2) by (simp add: max_bundle_segments_def)
  then obtain ranges where "segment_loop (utf8_encode cs) budget max_bundle_segments 0 = Inr ranges"
    using segment_loop_complete [OF cs(1) _ b(1) at_char_zero] assms(4) cs by auto
  then have "segment_ranges title body = Inr ranges"
    unfolding cs(2) using w by (intro segment_ranges_loop [OF cs(1)]) (simp_all add: budget_def max_rendered_segment_bytes_def)
  then show ?thesis by blast
qed

text \<open>A text of two lines is one piece.\<close>

lemma segment_loop_short:
  assumes "body \<noteq> []" "length body \<le> budget"
  shows "segment_loop body budget (Suc k) 0 = Inr [(0, length body)]"
  using assms by (cases k) (simp_all add: segment_end_def char_floor_end and_then_def min_def)

lemma segment_ranges_demo: "segment_ranges ''Done'' two_lines = Inr [(0, 12)]"
proof -
  have d: "two_lines \<noteq> []" "length two_lines = 12" by (simp_all add: two_lines_def)
  have w: "length (rendered_header i n ''Done'') = 10 + length (nat_decimal i) + length (nat_decimal n)" for i n
    by (simp add: rendered_header_def)
  have m: "max_bundle_segments = Suc 127" by (simp add: max_bundle_segments_def)
  have "segment_loop two_lines 3484 (Suc 127) 0 = Inr [(0, length two_lines)]"
    using d by (intro segment_loop_short) simp_all
  then show ?thesis
    by (simp add: segment_ranges_def w m length_nat_decimal max_rendered_segment_bytes_def and_then_def d
        del: segment_loop.simps)
qed

theorem segments_reconstruct_body_witness:
  "segment_ranges ''Done'' two_lines = Inr [(0, 12)] \<and> utf8_valid two_lines
   \<and> concat (map (text_slice two_lines) [(0, 12)]) = two_lines"
proof -
  have v: "utf8_valid two_lines" by (rule utf8_valid_ascii) (simp add: two_lines_def byte_of_def)
  show ?thesis using segments_reconstruct_body [OF v segment_ranges_demo] segment_ranges_demo v by simp
qed

theorem plain_text_is_segmented_witness:
  "\<exists>ranges. segment_ranges ''Done'' two_lines = Inr ranges"
proof (rule plain_text_is_segmented)
  have a: "list_all (\<lambda>c. byte_of c < 128) two_lines" "list_all (\<lambda>c. byte_of c < 128) ''Done''"
    by (simp_all add: two_lines_def byte_of_def)
  show "utf8_valid two_lines" "utf8_valid ''Done''" using a by (simp_all only: utf8_valid_ascii)
  show "char_length_between ''Done'' 1 128"
    by (simp add: char_length_between_def chars_count_def utf8_decode_ascii [OF a(2)])
  show "list_all plain_char (utf8_decode two_lines)" unfolding utf8_decode_ascii [OF a(1)]
    by (simp add: two_lines_def plain_char_def is_combining_or_variation_def byte_of_def)
qed (simp add: two_lines_def)

end
