(* ===== verification/Gateway_Protocol.thy ===== *)
theory Gateway_Protocol
  imports Relay_Prelude
begin

text \<open>
  The frames of the gateway web socket, version 5, and their checks
  (\<open>crates/relay-transport-gateway/src/run.rs\<close> and \<open>protocol.rs\<close>). The JSON and UUID libraries are
  parameters of the functions that call them.
\<close>

section \<open>Limits\<close>

definition run_page_size :: u16 where "run_page_size = 10"
definition max_run_tree_depth :: u8 where "max_run_tree_depth = 4"
definition max_run_tree_nodes :: u16 where "max_run_tree_nodes = 100"
definition max_run_conditions :: nat where "max_run_conditions = 16"
definition max_run_attention_count :: u32 where "max_run_attention_count = 10000"
definition min_opaque_handle_bytes :: nat where "min_opaque_handle_bytes = 32"
definition max_opaque_handle_bytes :: nat where "max_opaque_handle_bytes = 128"
definition max_label_chars :: nat where "max_label_chars = 120"
definition max_label_bytes :: nat where "max_label_bytes = max_label_chars * 4"

definition gateway_protocol_version :: u16 where "gateway_protocol_version = 5"
definition max_gateway_frame_bytes :: nat where "max_gateway_frame_bytes = 65536"
definition max_gateway_response_bytes :: nat where "max_gateway_response_bytes = 16384"
definition gateway_heartbeat_seconds :: u16 where "gateway_heartbeat_seconds = 20"
definition gateway_pong_timeout_seconds :: u16 where "gateway_pong_timeout_seconds = 60"
definition max_gateway_outbound_queue :: nat where "max_gateway_outbound_queue = 64"
definition max_gateway_pending_requests :: nat where "max_gateway_pending_requests = 16"
definition max_gateway_request_ttl_ms :: i64 where "max_gateway_request_ttl_ms = 30000"
definition max_client_version_bytes :: nat where "max_client_version_bytes = 64"
definition max_capabilities :: nat where "max_capabilities = 16"
definition max_device_name_chars :: nat where "max_device_name_chars = 80"
definition max_device_name_bytes :: nat where "max_device_name_bytes = 320"
definition max_error_message_chars :: nat where "max_error_message_chars = 256"
definition max_error_message_bytes :: nat where "max_error_message_bytes = 1024"
definition max_catalog_items :: nat where "max_catalog_items = 50"
definition max_intent_id_bytes :: nat where "max_intent_id_bytes = 128"

section \<open>Runs\<close>

datatype remote_run_filter = FilterAll | FilterRecent | FilterFailed

datatype run_query_action =
  QListRuns remote_run_filter u16 "string option"
| QGetRunDetail string
| QGetRunTree string u8 u16

datatype remote_desired_state = RemoteRunning | RemoteStopped

datatype remote_run_phase =
  RemotePending | RemoteProvisioning | RemoteStarting | RemoteActive | RemoteWaitingInput
| RemoteStopping | RemoteFinalizing | RemoteFinished

datatype remote_run_outcome =
  RemoteNone | RemoteSucceeded | RemoteFailed | RemoteCancelled | RemoteInterrupted
| RemoteBlocked | RemoteUnknown

datatype remote_run_condition =
  RcAccepted | RcWorkspaceReady | RcRuntimeReady | RcSessionReady | RcEventStreamReady | RcRunning
| RcWaitingForInput | RcCancellationRequested | RcTerminalObserved | RcVerificationComplete
| RcArtifactsReady | RcCleanupComplete | RcDegraded | RcRetrying | RcBlocked

record remote_run_summary =
  rr_run_handle :: string
  rr_title :: string
  rr_runtime_label :: string
  rr_workspace_label :: string
  rr_desired_state :: remote_desired_state
  rr_phase :: remote_run_phase
  rr_outcome :: remote_run_outcome
  rr_conditions :: "remote_run_condition list"
  rr_attention_count :: u32
  rr_child_count :: u32
  rr_active_child_count :: u32
  rr_started_at :: i64
  rr_updated_at :: i64

record remote_run_page =
  rp_items :: "remote_run_summary list"
  rp_next_cursor :: "string option"

record remote_run_detail =
  rd_summary :: remote_run_summary

datatype remote_run_tree_node =
  RunTreeNode (tn_run_handle: string) (tn_label: string) (tn_desired_state: remote_desired_state)
    (tn_phase: remote_run_phase) (tn_outcome: remote_run_outcome)
    (tn_conditions: "remote_run_condition list") (tn_attention_count: u32) (tn_child_count: u32)
    (tn_active_child_count: u32) (tn_children: "remote_run_tree_node list")

record remote_run_tree =
  rt_root :: remote_run_tree_node

datatype run_query_result =
  RListRuns remote_run_page
| RGetRunDetail remote_run_detail
| RGetRunTree remote_run_tree

definition handle_byte :: "char \<Rightarrow> bool" where
  "handle_byte b \<longleftrightarrow> ascii_alphanumeric b \<or> byte_of b = 95 \<or> byte_of b = 45"

definition validate_opaque_handle :: "string \<Rightarrow> unit + unit" where
  "validate_opaque_handle v =
     (if min_opaque_handle_bytes \<le> length v \<and> length v \<le> max_opaque_handle_bytes \<and> list_all handle_byte v
      then Inr () else Inl ())"

definition validate_timestamp :: "i64 \<Rightarrow> unit + unit" where
  "validate_timestamp v = (if v \<ge> 0 then Inr () else Inl ())"

definition forbidden_char :: "nat \<Rightarrow> bool" where
  "forbidden_char c \<longleftrightarrow> is_control c \<or> c = 0x061c \<or> c = 0x200e \<or> c = 0x200f
     \<or> (0x202a \<le> c \<and> c \<le> 0x202e) \<or> (0x2066 \<le> c \<and> c \<le> 0x2069)"

definition safe_text :: "string \<Rightarrow> nat \<Rightarrow> nat \<Rightarrow> bool" where
  "safe_text v max_chars max_bytes \<longleftrightarrow>
     trim_chars (utf8_decode v) = utf8_decode v
     \<and> 1 \<le> chars_count v \<and> chars_count v \<le> max_chars
     \<and> length v \<le> max_bytes
     \<and> list_all (\<lambda>c. \<not> forbidden_char c) (utf8_decode v)"

definition validate_safe_text :: "string \<Rightarrow> nat \<Rightarrow> nat \<Rightarrow> unit + unit" where
  "validate_safe_text v max_chars max_bytes = (if safe_text v max_chars max_bytes then Inr () else Inl ())"

text \<open>The loop of \<open>valid_conditions\<close>, with the conditions seen so far.\<close>

primrec conditions_unseen :: "remote_run_condition list \<Rightarrow> remote_run_condition list \<Rightarrow> bool" where
  "conditions_unseen seen [] = True"
| "conditions_unseen seen (c # cs) = (if c \<in> set seen then False else conditions_unseen (seen @ [c]) cs)"

definition valid_conditions :: "remote_run_condition list \<Rightarrow> bool" where
  "valid_conditions cs = (if length cs > max_run_conditions then False else conditions_unseen [] cs)"

definition validate_page :: "u16 \<Rightarrow> string option \<Rightarrow> unit + unit" where
  "validate_page page_size cursor =
     (if page_size \<noteq> run_page_size then Inl ()
      else case cursor of Some c \<Rightarrow> validate_opaque_handle c | None \<Rightarrow> Inr ())"

fun validate_run_query_action :: "run_query_action \<Rightarrow> unit + unit" where
  "validate_run_query_action (QListRuns _ page_size cursor) = validate_page page_size cursor"
| "validate_run_query_action (QGetRunDetail run_handle) = validate_opaque_handle run_handle"
| "validate_run_query_action (QGetRunTree run_handle max_depth max_nodes) =
     and_then (validate_opaque_handle run_handle) (\<lambda>_.
       if max_depth \<le> max_run_tree_depth \<and> 1 \<le> max_nodes \<and> max_nodes \<le> max_run_tree_nodes
       then Inr () else Inl ())"

definition validate_summary :: "remote_run_summary \<Rightarrow> unit + unit" where
  "validate_summary s =
     and_then (validate_opaque_handle (rr_run_handle s)) (\<lambda>_.
     and_then (validate_safe_text (rr_title s) max_label_chars max_label_bytes) (\<lambda>_.
     and_then (validate_safe_text (rr_runtime_label s) max_label_chars max_label_bytes) (\<lambda>_.
     and_then (validate_safe_text (rr_workspace_label s) max_label_chars max_label_bytes) (\<lambda>_.
     and_then (validate_timestamp (rr_started_at s)) (\<lambda>_.
     and_then (validate_timestamp (rr_updated_at s)) (\<lambda>_.
     if rr_started_at s > rr_updated_at s
        \<or> rr_active_child_count s > rr_child_count s
        \<or> rr_attention_count s > max_run_attention_count
        \<or> \<not> valid_conditions (rr_conditions s)
     then Inl ()
     else if rr_phase s = RemoteFinished
     then (if rr_outcome s = RemoteNone then Inl () else Inr ())
     else if rr_outcome s \<noteq> RemoteNone then Inl ()
     else Inr ()))))))"

definition validate_run_page :: "remote_run_page \<Rightarrow> unit + unit" where
  "validate_run_page p =
     (if length (rp_items p) > unat run_page_size then Inl ()
      else
        and_then (each_ok validate_summary (rp_items p)) (\<lambda>_.
          case rp_next_cursor p of Some cursor \<Rightarrow> validate_opaque_handle cursor | None \<Rightarrow> Inr ()))"

definition validate_run_detail :: "remote_run_detail \<Rightarrow> unit + unit" where
  "validate_run_detail d = validate_summary (rd_summary d)"

text \<open>The counter of nodes is returned instead of written through a reference.\<close>

fun validate_node :: "remote_run_tree_node \<Rightarrow> u8 \<Rightarrow> u16 \<Rightarrow> unit + u16"
  and validate_children :: "remote_run_tree_node list \<Rightarrow> u8 \<Rightarrow> u16 \<Rightarrow> unit + u16" where
  "validate_node (RunTreeNode run_handle label desired ph oc conds attention child_count active children)
       depth nodes =
     (if depth > max_run_tree_depth then Inl ()
      else
        and_then (ok_or () (u_checked_add nodes 1)) (\<lambda>nodes.
        if nodes > max_run_tree_nodes then Inl ()
        else
          and_then (validate_opaque_handle run_handle) (\<lambda>_.
          and_then (validate_safe_text label max_label_chars max_label_bytes) (\<lambda>_.
          if active > child_count
             \<or> unat child_count < length children
             \<or> attention > max_run_attention_count
             \<or> \<not> valid_conditions conds
          then Inl ()
          else if ph = RemoteFinished
          then (if oc = RemoteNone then Inl ()
                else validate_children children (u_saturating_add depth 1) nodes)
          else if oc \<noteq> RemoteNone then Inl ()
          else validate_children children (u_saturating_add depth 1) nodes))))"
| "validate_children [] depth nodes = Inr nodes"
| "validate_children (child # children) depth nodes =
     and_then (validate_node child depth nodes) (\<lambda>nodes. validate_children children depth nodes)"

definition validate_run_tree :: "remote_run_tree \<Rightarrow> unit + unit" where
  "validate_run_tree t = and_then (validate_node (rt_root t) 0 0) (\<lambda>_. Inr ())"

primrec validate_run_query_result :: "run_query_result \<Rightarrow> unit + unit" where
  "validate_run_query_result (RListRuns p) = validate_run_page p"
| "validate_run_query_result (RGetRunDetail d) = validate_run_detail d"
| "validate_run_query_result (RGetRunTree t) = validate_run_tree t"

section \<open>Frames\<close>

datatype gateway_capability =
  DeviceInfoV5 | RemoteRunsReadV2 | RuntimeCatalogV2 | RunLaunchV2 | RunControlV2 | RunChildrenV2

datatype remote_request_action =
  AGetDeviceInfo
| AListRuns remote_run_filter u16 "string option"
| AGetRunDetail string
| AGetRunTree string u8 u16
| AListRuntimes
| AListWorkspaces
| AListHarnessProfiles string string
| AListTaskPresets string string string
| AStartRun string string string string string
| ACancelRun string string

datatype catalog_query_action =
  KListRuntimes
| KListWorkspaces
| KListHarnessProfiles string string
| KListTaskPresets string string string

datatype control_action =
  XStartRun string string string string string
| XCancelRun string string

primrec action_from_catalog :: "catalog_query_action \<Rightarrow> remote_request_action" where
  "action_from_catalog KListRuntimes = AListRuntimes"
| "action_from_catalog KListWorkspaces = AListWorkspaces"
| "action_from_catalog (KListHarnessProfiles rt ws) = AListHarnessProfiles rt ws"
| "action_from_catalog (KListTaskPresets rt ws hp) = AListTaskPresets rt ws hp"

primrec action_from_control :: "control_action \<Rightarrow> remote_request_action" where
  "action_from_control (XStartRun rt ws hp preset intent) = AStartRun rt ws hp preset intent"
| "action_from_control (XCancelRun run intent) = ACancelRun run intent"

primrec action_from_query :: "run_query_action \<Rightarrow> remote_request_action" where
  "action_from_query (QListRuns f page_size cursor) = AListRuns f page_size cursor"
| "action_from_query (QGetRunDetail run) = AGetRunDetail run"
| "action_from_query (QGetRunTree run max_depth max_nodes) = AGetRunTree run max_depth max_nodes"

primrec wire_name :: "gateway_capability \<Rightarrow> string" where
  "wire_name DeviceInfoV5 = ''device_info_v5''"
| "wire_name RemoteRunsReadV2 = ''remote_runs_read_v2''"
| "wire_name RuntimeCatalogV2 = ''runtime_catalog_v2''"
| "wire_name RunLaunchV2 = ''run_launch_v2''"
| "wire_name RunControlV2 = ''run_control_v2''"
| "wire_name RunChildrenV2 = ''run_children_v2''"

primrec requirements_for :: "remote_request_action \<Rightarrow> gateway_capability list" where
  "requirements_for AGetDeviceInfo = [DeviceInfoV5]"
| "requirements_for (AListRuns _ _ _) = [RemoteRunsReadV2]"
| "requirements_for (AGetRunDetail _) = [RemoteRunsReadV2]"
| "requirements_for (AGetRunTree _ _ _) = [RemoteRunsReadV2]"
| "requirements_for AListRuntimes = [RuntimeCatalogV2]"
| "requirements_for AListWorkspaces = [RuntimeCatalogV2]"
| "requirements_for (AListHarnessProfiles _ _) = [RuntimeCatalogV2]"
| "requirements_for (AListTaskPresets _ _ _) = [RuntimeCatalogV2]"
| "requirements_for (AStartRun _ _ _ _ _) = [RunLaunchV2, RunControlV2]"
| "requirements_for (ACancelRun _ _) = [RunControlV2]"

definition has_all :: "gateway_capability set \<Rightarrow> gateway_capability list \<Rightarrow> bool" where
  "has_all capabilities required = list_all (\<lambda>c. c \<in> capabilities) required"

definition supports_action :: "gateway_capability set \<Rightarrow> remote_request_action \<Rightarrow> bool" where
  "supports_action capabilities action = has_all capabilities (requirements_for action)"

record hello_frame =
  hl_protocol_version :: u16
  hl_client_version :: string
  hl_capabilities :: "gateway_capability list"

record welcome_frame =
  wl_protocol_version :: u16
  wl_connection_id :: string
  wl_generation :: u64
  wl_heartbeat_seconds :: u16
  wl_max_frame_bytes :: nat
  wl_server_time :: i64

record ping_frame =
  pi_ping_id :: string
  pi_generation :: u64
  pi_sent_at :: i64

record pong_frame =
  po_ping_id :: string
  po_generation :: u64
  po_client_time :: i64

record remote_request =
  rq_request_id :: string
  rq_generation :: u64
  rq_issued_at :: i64
  rq_expires_at :: i64
  rq_action :: remote_request_action

record request_ack =
  ra_request_id :: string
  ra_generation :: u64
  ra_accepted :: bool

record device_info_result =
  di_schema_version :: u16
  di_device_name :: string
  di_client_version :: string
  di_capabilities :: "gateway_capability list"

datatype workspace_sensitivity = SensPublic | SensInternalSafe | SensConfidential

record workspace_descriptor =
  wd_workspace_handle :: string
  wd_label :: string
  wd_sensitivity :: workspace_sensitivity
  wd_remote_start_enabled :: bool

datatype runtime_capability_facet =
  FLifecycle | FCancel | FAttention | FSteer | FReconnectLive | FOpenStored | FContinue | FUsage
| FTools | FChildTopology | FArtifacts

record runtime_descriptor =
  ri_runtime_handle :: string
  ri_label :: string
  ri_ready :: bool
  ri_capability_facets :: "runtime_capability_facet list"

record harness_profile_descriptor =
  hp_harness_profile_handle :: string
  hp_label :: string

record task_preset_descriptor =
  tp_preset_handle :: string
  tp_label :: string

type_synonym runtime_catalog_result = "runtime_descriptor list"
type_synonym workspace_catalog_result = "workspace_descriptor list"
type_synonym harness_profile_catalog_result = "harness_profile_descriptor list"
type_synonym task_preset_catalog_result = "task_preset_descriptor list"

record start_run_result =
  sr_accepted :: bool
  sr_run_handle :: string
  sr_desired_state :: remote_desired_state
  sr_phase :: remote_run_phase

record cancel_run_result =
  cr_accepted :: bool
  cr_run_handle :: string
  cr_desired_state :: remote_desired_state
  cr_phase :: remote_run_phase

datatype remote_response_result =
  PGetDeviceInfo device_info_result
| PListRuns remote_run_page
| PGetRunDetail remote_run_detail
| PGetRunTree remote_run_tree
| PListRuntimes runtime_catalog_result
| PListWorkspaces workspace_catalog_result
| PListHarnessProfiles harness_profile_catalog_result
| PListTaskPresets task_preset_catalog_result
| PStartRun start_run_result
| PCancelRun cancel_run_result

datatype catalog_query_result =
  CListRuntimes runtime_catalog_result
| CListWorkspaces workspace_catalog_result
| CListHarnessProfiles harness_profile_catalog_result
| CListTaskPresets task_preset_catalog_result

datatype control_result =
  TStartRun start_run_result
| TCancelRun cancel_run_result

definition catalog_result_try_from :: "remote_response_result \<Rightarrow> unit + catalog_query_result" where
  "catalog_result_try_from r =
     (case r of
        PListRuntimes v \<Rightarrow> Inr (CListRuntimes v)
      | PListWorkspaces v \<Rightarrow> Inr (CListWorkspaces v)
      | PListHarnessProfiles v \<Rightarrow> Inr (CListHarnessProfiles v)
      | PListTaskPresets v \<Rightarrow> Inr (CListTaskPresets v)
      | _ \<Rightarrow> Inl ())"

definition control_result_try_from :: "remote_response_result \<Rightarrow> unit + control_result" where
  "control_result_try_from r =
     (case r of PStartRun v \<Rightarrow> Inr (TStartRun v) | PCancelRun v \<Rightarrow> Inr (TCancelRun v) | _ \<Rightarrow> Inl ())"

definition query_result_try_from :: "remote_response_result \<Rightarrow> unit + run_query_result" where
  "query_result_try_from r =
     (case r of
        PListRuns page \<Rightarrow> Inr (RListRuns page)
      | PGetRunDetail detail \<Rightarrow> Inr (RGetRunDetail detail)
      | PGetRunTree tree \<Rightarrow> Inr (RGetRunTree tree)
      | _ \<Rightarrow> Inl ())"

record remote_response =
  rx_request_id :: string
  rx_generation :: u64
  rx_result :: remote_response_result

datatype remote_error_code =
  EInvalidRequest | ERequestExpired | EUnsupportedAction | EUnsupportedCapability | EUnauthorized
| EConflict | EBusy | EInternal

record remote_error =
  re_request_id :: string
  re_generation :: u64
  re_code :: remote_error_code
  re_message :: string
  re_retryable :: bool

datatype policy_revocation_code = TokenRotated | DeviceRevoked | DeviceDisabled | ScopeChanged

datatype gateway_server_frame =
  Welcome welcome_frame
| Ping ping_frame
| Request remote_request
| Superseded u64
| PolicyRevoked u64 policy_revocation_code

datatype gateway_client_frame =
  Hello hello_frame
| Pong pong_frame
| RequestAck request_ack
| Response remote_response
| ErrorFrame remote_error

datatype gateway_protocol_error = FrameTooLarge | ResponseTooLarge | Malformed | FrameInvalid

section \<open>Checks\<close>

definition check_frame_size :: "string \<Rightarrow> gateway_protocol_error + unit" where
  "check_frame_size bytes = (if length bytes \<le> max_gateway_frame_bytes then Inr () else Inl FrameTooLarge)"

definition check_protocol_version :: "u16 \<Rightarrow> gateway_protocol_error + unit" where
  "check_protocol_version v = (if v = gateway_protocol_version then Inr () else Inl FrameInvalid)"

definition check_uuid :: "uuid_lib \<Rightarrow> string \<Rightarrow> gateway_protocol_error + unit" where
  "check_uuid U v =
     (case ul_parse U v of
        None \<Rightarrow> Inl FrameInvalid
      | Some parsed \<Rightarrow> if parsed \<noteq> 0 \<and> ul_print U parsed = v then Inr () else Inl FrameInvalid)"

definition check_generation :: "u64 \<Rightarrow> gateway_protocol_error + unit" where
  "check_generation g = (if g > 0 then Inr () else Inl FrameInvalid)"

definition check_timestamp :: "i64 \<Rightarrow> gateway_protocol_error + unit" where
  "check_timestamp t = (if t \<ge> 0 then Inr () else Inl FrameInvalid)"

definition ascii_graphic :: "char \<Rightarrow> bool" where
  "ascii_graphic b \<longleftrightarrow> 33 \<le> byte_of b \<and> byte_of b \<le> 126"

definition check_client_version :: "string \<Rightarrow> gateway_protocol_error + unit" where
  "check_client_version v =
     (if v \<noteq> [] \<and> length v \<le> max_client_version_bytes \<and> list_all ascii_graphic v
      then Inr () else Inl FrameInvalid)"

definition check_capabilities :: "gateway_capability list \<Rightarrow> gateway_protocol_error + unit" where
  "check_capabilities vs =
     (if length vs > max_capabilities then Inl FrameInvalid
      else if card (set vs) = length vs then Inr () else Inl FrameInvalid)"

definition check_handle :: "string \<Rightarrow> string \<Rightarrow> gateway_protocol_error + unit" where
  "check_handle v namespace =
     (if take (length namespace + 1) v = namespace @ ''_''
         \<and> 32 \<le> length v \<and> length v \<le> 128 \<and> list_all handle_byte v
      then Inr () else Inl FrameInvalid)"

definition check_intent_id :: "uuid_lib \<Rightarrow> string \<Rightarrow> gateway_protocol_error + unit" where
  "check_intent_id U v =
     (if length v > max_intent_id_bytes \<or> trim_chars (utf8_decode v) \<noteq> utf8_decode v \<or> v = []
      then Inl FrameInvalid
      else if ul_parse U v \<noteq> None then Inr ()
      else check_handle v ''intent'')"

definition check_safe_text :: "string \<Rightarrow> nat \<Rightarrow> nat \<Rightarrow> gateway_protocol_error + unit" where
  "check_safe_text v max_chars max_bytes =
     (if safe_text v max_chars max_bytes then Inr () else Inl FrameInvalid)"

definition check_job_page_namespaces :: "remote_run_page \<Rightarrow> gateway_protocol_error + unit" where
  "check_job_page_namespaces page =
     and_then (each_ok (\<lambda>item. check_handle (rr_run_handle item) ''run'') (rp_items page)) (\<lambda>_.
       case rp_next_cursor page of None \<Rightarrow> Inr () | Some v \<Rightarrow> check_handle v ''cursor'')"

fun check_tree_namespaces :: "remote_run_tree_node \<Rightarrow> gateway_protocol_error + unit"
  and check_forest_namespaces :: "remote_run_tree_node list \<Rightarrow> gateway_protocol_error + unit" where
  "check_tree_namespaces (RunTreeNode run_handle label desired ph oc conds attention child_count active children) =
     and_then (check_handle run_handle ''run'') (\<lambda>_. check_forest_namespaces children)"
| "check_forest_namespaces [] = Inr ()"
| "check_forest_namespaces (child # children) =
     and_then (check_tree_namespaces child) (\<lambda>_. check_forest_namespaces children)"

definition validate_request_action :: "uuid_lib \<Rightarrow> remote_request_action \<Rightarrow> gateway_protocol_error + unit" where
  "validate_request_action U action =
     (case action of
        AGetDeviceInfo \<Rightarrow> Inr ()
      | AListRuns _ page_size cursor \<Rightarrow>
          if page_size \<noteq> 10 then Inl FrameInvalid
          else (case cursor of None \<Rightarrow> Inr () | Some v \<Rightarrow> check_handle v ''cursor'')
      | AGetRunDetail run \<Rightarrow> check_handle run ''run''
      | AGetRunTree run max_depth max_nodes \<Rightarrow>
          and_then (check_handle run ''run'') (\<lambda>_.
            if max_depth \<le> 4 \<and> 1 \<le> max_nodes \<and> max_nodes \<le> 100 then Inr () else Inl FrameInvalid)
      | AListRuntimes \<Rightarrow> Inr ()
      | AListWorkspaces \<Rightarrow> Inr ()
      | AListHarnessProfiles rt ws \<Rightarrow>
          and_then (check_handle rt ''runtime'') (\<lambda>_. check_handle ws ''workspace'')
      | AListTaskPresets rt ws hp \<Rightarrow>
          and_then (check_handle rt ''runtime'') (\<lambda>_.
          and_then (check_handle ws ''workspace'') (\<lambda>_. check_handle hp ''profile''))
      | AStartRun rt ws hp preset intent \<Rightarrow>
          and_then (check_handle rt ''runtime'') (\<lambda>_.
          and_then (check_handle ws ''workspace'') (\<lambda>_.
          and_then (check_handle hp ''profile'') (\<lambda>_.
          and_then (check_handle preset ''preset'') (\<lambda>_. check_intent_id U intent))))
      | ACancelRun run intent \<Rightarrow>
          and_then (check_handle run ''run'') (\<lambda>_. check_intent_id U intent))"

definition check_catalog :: "('a \<Rightarrow> gateway_protocol_error + unit) \<Rightarrow> 'a list \<Rightarrow> gateway_protocol_error + unit" where
  "check_catalog f items = (if length items > max_catalog_items then Inl FrameInvalid else each_ok f items)"

definition validate_response :: "remote_response_result \<Rightarrow> gateway_protocol_error + unit" where
  "validate_response r =
     (case r of
        PGetDeviceInfo d \<Rightarrow>
          if di_schema_version d \<noteq> gateway_protocol_version then Inl FrameInvalid
          else
            and_then (check_safe_text (di_device_name d) max_device_name_chars max_device_name_bytes) (\<lambda>_.
            and_then (check_client_version (di_client_version d)) (\<lambda>_.
            check_capabilities (di_capabilities d)))
      | PListRuns page \<Rightarrow>
          and_then (map_err FrameInvalid (validate_run_query_result (RListRuns page))) (\<lambda>_.
            check_job_page_namespaces page)
      | PGetRunDetail detail \<Rightarrow>
          and_then (map_err FrameInvalid (validate_run_query_result (RGetRunDetail detail))) (\<lambda>_.
            check_handle (rr_run_handle (rd_summary detail)) ''run'')
      | PGetRunTree tree \<Rightarrow>
          and_then (map_err FrameInvalid (validate_run_query_result (RGetRunTree tree))) (\<lambda>_.
            check_tree_namespaces (rt_root tree))
      | PListRuntimes items \<Rightarrow>
          check_catalog (\<lambda>item.
            and_then (check_handle (ri_runtime_handle item) ''runtime'') (\<lambda>_.
            and_then (check_safe_text (ri_label item) 120 480) (\<lambda>_.
              if length (ri_capability_facets item) > 16 then Inl FrameInvalid
              else if card (set (ri_capability_facets item)) \<noteq> length (ri_capability_facets item)
              then Inl FrameInvalid else Inr ()))) items
      | PListWorkspaces items \<Rightarrow>
          check_catalog (\<lambda>item.
            and_then (check_handle (wd_workspace_handle item) ''workspace'') (\<lambda>_.
              check_safe_text (wd_label item) 120 480)) items
      | PListHarnessProfiles items \<Rightarrow>
          check_catalog (\<lambda>item.
            and_then (check_handle (hp_harness_profile_handle item) ''profile'') (\<lambda>_.
              check_safe_text (hp_label item) 120 480)) items
      | PListTaskPresets items \<Rightarrow>
          check_catalog (\<lambda>item.
            and_then (check_handle (tp_preset_handle item) ''preset'') (\<lambda>_.
              check_safe_text (tp_label item) 120 480)) items
      | PStartRun d \<Rightarrow>
          and_then (check_handle (sr_run_handle d) ''run'') (\<lambda>_.
            if sr_accepted d \<and> (sr_desired_state d \<noteq> RemoteRunning \<or> sr_phase d \<noteq> RemotePending)
            then Inl FrameInvalid else Inr ())
      | PCancelRun d \<Rightarrow>
          and_then (check_handle (cr_run_handle d) ''run'') (\<lambda>_.
            if cr_accepted d
               \<and> (cr_desired_state d \<noteq> RemoteStopped
                  \<or> \<not> (cr_phase d = RemoteStopping \<or> cr_phase d = RemoteFinalizing \<or> cr_phase d = RemoteFinished))
            then Inl FrameInvalid else Inr ()))"

definition validate_client_frame :: "uuid_lib \<Rightarrow> gateway_client_frame \<Rightarrow> gateway_protocol_error + unit" where
  "validate_client_frame U fr =
     (case fr of
        Hello f \<Rightarrow>
          and_then (check_protocol_version (hl_protocol_version f)) (\<lambda>_.
          and_then (check_client_version (hl_client_version f)) (\<lambda>_.
          check_capabilities (hl_capabilities f)))
      | Pong f \<Rightarrow>
          and_then (check_uuid U (po_ping_id f)) (\<lambda>_.
          and_then (check_generation (po_generation f)) (\<lambda>_.
          check_timestamp (po_client_time f)))
      | RequestAck f \<Rightarrow>
          and_then (check_uuid U (ra_request_id f)) (\<lambda>_. check_generation (ra_generation f))
      | Response f \<Rightarrow>
          and_then (check_uuid U (rx_request_id f)) (\<lambda>_.
          and_then (check_generation (rx_generation f)) (\<lambda>_.
          validate_response (rx_result f)))
      | ErrorFrame f \<Rightarrow>
          and_then (check_uuid U (re_request_id f)) (\<lambda>_.
          and_then (check_generation (re_generation f)) (\<lambda>_.
          check_safe_text (re_message f) max_error_message_chars max_error_message_bytes)))"

definition validate_server_frame :: "uuid_lib \<Rightarrow> gateway_server_frame \<Rightarrow> gateway_protocol_error + unit" where
  "validate_server_frame U fr =
     (case fr of
        Welcome f \<Rightarrow>
          and_then (check_protocol_version (wl_protocol_version f)) (\<lambda>_.
          and_then (check_uuid U (wl_connection_id f)) (\<lambda>_.
          and_then (check_generation (wl_generation f)) (\<lambda>_.
          if wl_heartbeat_seconds f \<noteq> gateway_heartbeat_seconds
             \<or> wl_max_frame_bytes f \<noteq> max_gateway_frame_bytes
          then Inl FrameInvalid
          else check_timestamp (wl_server_time f))))
      | Ping f \<Rightarrow>
          and_then (check_uuid U (pi_ping_id f)) (\<lambda>_.
          and_then (check_generation (pi_generation f)) (\<lambda>_.
          check_timestamp (pi_sent_at f)))
      | Request f \<Rightarrow>
          and_then (check_uuid U (rq_request_id f)) (\<lambda>_.
          and_then (check_generation (rq_generation f)) (\<lambda>_.
          and_then (check_timestamp (rq_issued_at f)) (\<lambda>_.
          if rq_expires_at f \<le> rq_issued_at f
             \<or> i64_sub (rq_expires_at f) (rq_issued_at f) > max_gateway_request_ttl_ms
          then Inl FrameInvalid
          else validate_request_action U (rq_action f))))
      | Superseded generation \<Rightarrow> check_generation generation
      | PolicyRevoked generation _ \<Rightarrow> check_generation generation)"

section \<open>Encoding and decoding\<close>

record json_lib =
  jl_client_from :: "string \<Rightarrow> gateway_client_frame option"
  jl_client_to :: "gateway_client_frame \<Rightarrow> string option"
  jl_server_from :: "string \<Rightarrow> gateway_server_frame option"
  jl_server_to :: "gateway_server_frame \<Rightarrow> string option"

definition is_response :: "gateway_client_frame \<Rightarrow> bool" where
  "is_response fr = (case fr of Response _ \<Rightarrow> True | _ \<Rightarrow> False)"

definition decode_client_frame ::
    "uuid_lib \<Rightarrow> json_lib \<Rightarrow> string \<Rightarrow> gateway_protocol_error + gateway_client_frame" where
  "decode_client_frame U J text =
     and_then (check_frame_size text) (\<lambda>_.
     and_then (ok_or Malformed (jl_client_from J text)) (\<lambda>fr.
     if is_response fr \<and> length text > max_gateway_response_bytes then Inl ResponseTooLarge
     else and_then (validate_client_frame U fr) (\<lambda>_. Inr fr)))"

definition decode_server_frame ::
    "uuid_lib \<Rightarrow> json_lib \<Rightarrow> string \<Rightarrow> gateway_protocol_error + gateway_server_frame" where
  "decode_server_frame U J text =
     and_then (check_frame_size text) (\<lambda>_.
     and_then (ok_or Malformed (jl_server_from J text)) (\<lambda>fr.
     and_then (validate_server_frame U fr) (\<lambda>_. Inr fr)))"

definition encode_client_frame ::
    "uuid_lib \<Rightarrow> json_lib \<Rightarrow> gateway_client_frame \<Rightarrow> gateway_protocol_error + string" where
  "encode_client_frame U J fr =
     and_then (validate_client_frame U fr) (\<lambda>_.
     and_then (ok_or Malformed (jl_client_to J fr)) (\<lambda>text.
     and_then (check_frame_size text) (\<lambda>_.
     if is_response fr \<and> length text > max_gateway_response_bytes then Inl ResponseTooLarge
     else Inr text)))"

definition encode_server_frame ::
    "uuid_lib \<Rightarrow> json_lib \<Rightarrow> gateway_server_frame \<Rightarrow> gateway_protocol_error + string" where
  "encode_server_frame U J fr =
     and_then (validate_server_frame U fr) (\<lambda>_.
     and_then (ok_or Malformed (jl_server_to J fr)) (\<lambda>text.
     and_then (check_frame_size text) (\<lambda>_. Inr text)))"

section \<open>Notions of the proofs\<close>

text \<open>The reference for trees: the nodes in order, the number of levels below the root.\<close>

fun tree_nodes :: "remote_run_tree_node \<Rightarrow> remote_run_tree_node list"
  and forest_nodes :: "remote_run_tree_node list \<Rightarrow> remote_run_tree_node list" where
  "tree_nodes (RunTreeNode h l d p oc cs a c ac children) =
     RunTreeNode h l d p oc cs a c ac children # forest_nodes children"
| "forest_nodes [] = []"
| "forest_nodes (t # ts) = tree_nodes t @ forest_nodes ts"

fun tree_height :: "remote_run_tree_node \<Rightarrow> nat"
  and forest_height :: "remote_run_tree_node list \<Rightarrow> nat" where
  "tree_height (RunTreeNode h l d p oc cs a c ac children) = forest_height children"
| "forest_height [] = 0"
| "forest_height (t # ts) = max (Suc (tree_height t)) (forest_height ts)"

definition node_ok :: "remote_run_tree_node \<Rightarrow> bool" where
  "node_ok t \<longleftrightarrow>
     min_opaque_handle_bytes \<le> length (tn_run_handle t) \<and> length (tn_run_handle t) \<le> max_opaque_handle_bytes
     \<and> list_all handle_byte (tn_run_handle t)
     \<and> safe_text (tn_label t) max_label_chars max_label_bytes
     \<and> tn_active_child_count t \<le> tn_child_count t
     \<and> length (tn_children t) \<le> unat (tn_child_count t)
     \<and> tn_attention_count t \<le> max_run_attention_count
     \<and> length (tn_conditions t) \<le> max_run_conditions \<and> distinct (tn_conditions t)
     \<and> (tn_phase t = RemoteFinished \<longleftrightarrow> tn_outcome t \<noteq> RemoteNone)"

section \<open>Trees of runs\<close>

lemma conditions_unseen_iff: "conditions_unseen seen cs \<longleftrightarrow> distinct cs \<and> set seen \<inter> set cs = {}"
  by (induction cs arbitrary: seen) auto

lemma valid_conditions_iff: "valid_conditions cs \<longleftrightarrow> length cs \<le> max_run_conditions \<and> distinct cs"
  by (auto simp: valid_conditions_def conditions_unseen_iff)

lemma small_add:
  fixes c :: "'a::len word"
  assumes "unat c + n < 2 ^ LENGTH('a)"
  shows "unat (c + of_nat n) = unat c + n"
proof -
  have n: "unat (of_nat n :: 'a word) = n" using assms by (simp add: unat_of_nat take_bit_nat_eq_self)
  show ?thesis using assms by (simp add: unat_word_ariths(1) n)
qed

lemma depth_step:
  fixes d :: u8
  assumes "d \<le> 4"
  shows "unat (u_saturating_add d 1) = unat d + 1"
proof -
  have "unat d \<le> 4" using assms by (simp add: word_le_nat_alt)
  then show ?thesis using small_add [of d 1] by (simp add: u_saturating_add_def)
qed

lemma count_step:
  fixes c :: u16
  assumes "unat c \<le> 100"
  shows "u_checked_add c 1 = Some (c + 1)" "unat (c + 1) = unat c + 1"
  using assms small_add [of c 1] by (simp_all add: u_checked_add_def)

lemma validate_node_own:
  assumes "d \<le> 4" "unat c \<le> 100"
  shows "validate_node t d c =
    (if c + 1 \<le> 100 \<and> node_ok t then validate_children (tn_children t) (u_saturating_add d 1) (c + 1) else Inl ())"
  using assms
  by (cases t)
    (auto simp: count_step node_ok_def valid_conditions_iff validate_opaque_handle_def validate_safe_text_def
      max_run_tree_depth_def max_run_tree_nodes_def not_less not_le split: if_splits)


lemma validate_tree_exact:
  shows "unat d \<le> 5 \<Longrightarrow> unat c \<le> 100 \<Longrightarrow> validate_node t d c =
      (if unat d + tree_height t \<le> 4 \<and> unat c + length (tree_nodes t) \<le> 100 \<and> list_all node_ok (tree_nodes t)
       then Inr (c + of_nat (length (tree_nodes t))) else Inl ())"
    and "unat d \<le> 5 \<Longrightarrow> unat c \<le> 100 \<Longrightarrow> validate_children ts d c =
      (if unat d + forest_height ts \<le> 5 \<and> unat c + length (forest_nodes ts) \<le> 100
          \<and> list_all node_ok (forest_nodes ts)
       then Inr (c + of_nat (length (forest_nodes ts))) else Inl ())"
proof (induction t and ts arbitrary: d c and d c rule: tree_nodes_forest_nodes.induct)
  case (1 h l ds p oc cs a ch ac children)
  let ?t = "RunTreeNode h l ds p oc cs a ch ac children"
  show ?case
  proof (cases "d \<le> 4")
    case False
    then have "\<not> unat d + tree_height ?t \<le> 4" by (simp add: word_le_nat_alt)
    then show ?thesis using False by (simp add: max_run_tree_depth_def not_le)
  next
    case True
    note d = depth_step [OF True] and c = count_step(2) [OF 1(3)]
    have small: "c + 1 \<le> 100 \<longleftrightarrow> unat c + 1 \<le> 100" using c by (simp add: word_le_nat_alt)
    have du: "unat d \<le> 4" using True by (simp add: word_le_nat_alt)
    show ?thesis
    proof (cases "unat c + 1 \<le> 100 \<and> node_ok ?t")
      case False
      then show ?thesis unfolding validate_node_own [OF True 1(3)] small by auto
    next
      case ok: True
      have "validate_children children (u_saturating_add d 1) (c + 1) =
        (if unat d + 1 + forest_height children \<le> 5 \<and> unat c + 1 + length (forest_nodes children) \<le> 100
            \<and> list_all node_ok (forest_nodes children)
         then Inr (c + 1 + of_nat (length (forest_nodes children))) else Inl ())"
        using 1(1) [of "u_saturating_add d 1" "c + 1"] d c du ok by simp
      then show ?thesis using ok unfolding validate_node_own [OF True 1(3)] small
        by (simp add: add.assoc)
    qed
  qed
next
  case (3 t ts)
  show ?case
  proof (cases "unat d + tree_height t \<le> 4 \<and> unat c + length (tree_nodes t) \<le> 100 \<and> list_all node_ok (tree_nodes t)")
    case True
    then have "unat (c + of_nat (length (tree_nodes t))) = unat c + length (tree_nodes t)" by (intro small_add) simp
    then show ?thesis using 3(1) [OF 3(3,4)] 3(2) [OF 3(3), of "c + of_nat (length (tree_nodes t))"] True
      by (auto simp: and_then_def add.assoc)
  next
    case False
    then have "validate_node t d c = Inl ()" using 3(1) [OF 3(3,4)] by simp
    then show ?thesis using False by (auto simp: and_then_def)
  qed
qed (simp_all add: word_le_nat_alt)

text \<open>
  C0: a reported run tree passes validation exactly when it has at most 100 runs on at most five levels
  and every run in it is well formed; the counters never overflow.
\<close>

theorem run_tree_validation_exact:
  "validate_run_tree t = Inr () \<longleftrightarrow>
     tree_height (rt_root t) \<le> 4 \<and> length (tree_nodes (rt_root t)) \<le> 100
     \<and> list_all node_ok (tree_nodes (rt_root t))"
  unfolding validate_run_tree_def using validate_tree_exact(1) [of 0 0 "rt_root t"]
  by (simp add: and_then_def)

section \<open>Frames travel unchanged\<close>

lemma server_frames_roundtrip:
  assumes "\<And>fr text. jl_server_to J fr = Some text \<Longrightarrow> jl_server_from J text = Some fr"
    and "encode_server_frame U J fr = Inr text"
  shows "decode_server_frame U J text = Inr fr"
  using assms
  by (auto simp: encode_server_frame_def decode_server_frame_def and_then_def ok_or_eq split: sum.splits)

lemma client_frames_roundtrip:
  assumes "\<And>fr text. jl_client_to J fr = Some text \<Longrightarrow> jl_client_from J text = Some fr"
    and "encode_client_frame U J fr = Inr text"
  shows "decode_client_frame U J text = Inr fr"
  using assms
  by (auto simp: encode_client_frame_def decode_client_frame_def and_then_def ok_or_eq
      split: sum.splits if_splits)

text \<open>The checks of an action on the wire imply those of the query interface.\<close>

lemma wire_action_is_valid_query:
  assumes "validate_request_action U (action_from_query a) = Inr ()"
  shows "validate_run_query_action a = Inr ()"
  using assms
  by (cases a)
    (auto simp: validate_request_action_def check_handle_def validate_opaque_handle_def validate_page_def
      and_then_def run_page_size_def max_run_tree_depth_def max_run_tree_nodes_def
      min_opaque_handle_bytes_def max_opaque_handle_bytes_def split: if_splits option.splits)

end
