(* ===== verification/Gateway_Registry.thy ===== *)
theory Gateway_Registry
  imports Gateway_Protocol "HOL-Library.AList"
begin

text \<open>
  The registry of gateway connections (\<open>apps/server/src/gateway/registry.rs\<close>). Its maps are association
  lists. A connection has a channel for commands, a channel for control messages and a cancellation
  token; they are kept by connection identifier. What an operation does after it has released the
  lock of the registry is a second step, so that other tasks may run in between.
\<close>

section \<open>Connections and channels\<close>

definition outbound_queue_capacity :: nat where
  "outbound_queue_capacity = max_gateway_outbound_queue"

definition control_queue_capacity :: nat where "control_queue_capacity = 4"

record connection_snapshot =
  gs_device_id :: uuid
  gs_connection_id :: uuid
  gs_generation :: u64
  gs_connected_at :: i64
  gs_last_pong_at :: i64
  gs_client_version :: string
  gs_capabilities :: "gateway_capability set"

text \<open>A command carries the reply channel of its caller, here a number.\<close>

record gateway_command =
  gc_generation :: u64
  gc_issued_at :: i64
  gc_expires_at :: i64
  gc_deadline :: nat
  gc_action :: remote_request_action
  gc_response :: nat

datatype gateway_control =
  ControlSuperseded u64
| ControlPolicyRevoked u64 policy_revocation_code
| ControlSlowConsumer

record connection_entry =
  en_snapshot :: connection_snapshot
  en_authorization_revision :: string

record registration_authorization =
  au_revision :: string
  au_invalidation_generation :: u64

record channel =
  ch_device_id :: uuid
  ch_commands :: "gateway_command list"
  ch_control :: "gateway_control list"
  ch_cancelled :: bool
  ch_open :: bool

record registry_state =
  rg_active :: "(uuid \<times> connection_entry) list"
  rg_generations :: "(uuid \<times> u64) list"
  rg_invalidation_generations :: "(uuid \<times> u64) list"
  rg_channels :: "(uuid \<times> channel) list"

datatype gateway_registry_error = GenerationExhausted | PolicyInvalidated

datatype gateway_invalidation_reason = ReasonTokenRotated | ReasonDeviceDisabled | ReasonDeviceRevoked

datatype gateway_request_error =
  GInvalidRequest | GOffline | GDisconnected | GPendingLimit | GExpired | GRejected | GUnauthorized
| GAuthorizationUnavailable | GUnsupportedCapability | GSlowConsumer | GProtocolMismatch

primrec policy_code :: "gateway_invalidation_reason \<Rightarrow> policy_revocation_code" where
  "policy_code ReasonTokenRotated = TokenRotated"
| "policy_code ReasonDeviceDisabled = DeviceDisabled"
| "policy_code ReasonDeviceRevoked = DeviceRevoked"

definition empty_registry :: registry_state where
  "empty_registry = \<lparr>rg_active = [], rg_generations = [], rg_invalidation_generations = [], rg_channels = []\<rparr>"

section \<open>Channels\<close>

definition update_channel :: "uuid \<Rightarrow> (channel \<Rightarrow> channel) \<Rightarrow> registry_state \<Rightarrow> registry_state" where
  "update_channel connection f st =
     (case map_of (rg_channels st) connection of
        None \<Rightarrow> st
      | Some ch \<Rightarrow> st\<lparr>rg_channels := AList.update connection (f ch) (rg_channels st)\<rparr>)"

text \<open>\<open>try_send\<close> on a control channel, whose failure every caller ignores, and \<open>cancel\<close>.\<close>

definition try_send_control :: "gateway_control \<Rightarrow> channel \<Rightarrow> channel" where
  "try_send_control message ch =
     (if ch_open ch \<and> length (ch_control ch) < control_queue_capacity
      then ch\<lparr>ch_control := ch_control ch @ [message]\<rparr> else ch)"

definition cancel_channel :: "channel \<Rightarrow> channel" where
  "cancel_channel ch = ch\<lparr>ch_cancelled := True\<rparr>"

section \<open>Registration\<close>

definition counter :: "(uuid \<times> u64) list \<Rightarrow> uuid \<Rightarrow> u64" where
  "counter al k = (case map_of al k of None \<Rightarrow> 0 | Some g \<Rightarrow> g)"

definition invalidation_generation :: "uuid \<Rightarrow> registry_state \<Rightarrow> u64" where
  "invalidation_generation device_id st = counter (rg_invalidation_generations st) device_id"

definition connection :: "uuid \<Rightarrow> registry_state \<Rightarrow> connection_snapshot option" where
  "connection device_id st = map_option en_snapshot (map_of (rg_active st) device_id)"

definition connections :: "registry_state \<Rightarrow> connection_snapshot list" where
  "connections st = sort_key gs_device_id (map (\<lambda>(_, e). en_snapshot e) (rg_active st))"

definition new_channel :: "uuid \<Rightarrow> channel" where
  "new_channel device_id =
     \<lparr>ch_device_id = device_id, ch_commands = [], ch_control = [], ch_cancelled = False, ch_open = True\<rparr>"

definition register_locked ::
    "uuid \<Rightarrow> uuid \<Rightarrow> i64 \<Rightarrow> string \<Rightarrow> gateway_capability set \<Rightarrow> registration_authorization \<Rightarrow> registry_state
       \<Rightarrow> (registry_state, gateway_registry_error, u64 \<times> connection_entry option) effect" where
  "register_locked connection_id device_id connected_at client_version capabilities authorization st =
     (if invalidation_generation device_id st \<noteq> au_invalidation_generation authorization
      then (st, Inl PolicyInvalidated)
      else
        let current = counter (rg_generations st) device_id;
            st = st\<lparr>rg_generations := AList.update device_id current (rg_generations st)\<rparr>
        in (case u_checked_add current 1 of
              None \<Rightarrow> (st, Inl GenerationExhausted)
            | Some generation \<Rightarrow>
                let old = map_of (rg_active st) device_id;
                    snapshot = \<lparr>gs_device_id = device_id, gs_connection_id = connection_id,
                      gs_generation = generation, gs_connected_at = connected_at,
                      gs_last_pong_at = connected_at, gs_client_version = client_version,
                      gs_capabilities = capabilities\<rparr>;
                    entry = \<lparr>en_snapshot = snapshot, en_authorization_revision = au_revision authorization\<rparr>
                in (st\<lparr>rg_generations := AList.update device_id generation (rg_generations st),
                       rg_active := AList.update device_id entry (rg_active st),
                       rg_channels := AList.update connection_id (new_channel device_id) (rg_channels st)\<rparr>,
                    Inr (generation, old))))"

text \<open>What \<open>register\<close> does to the connection it replaced, after the lock.\<close>

definition supersede :: "connection_entry \<Rightarrow> u64 \<Rightarrow> registry_state \<Rightarrow> registry_state" where
  "supersede old generation st =
     update_channel (gs_connection_id (en_snapshot old))
       (cancel_channel \<circ> try_send_control (ControlSuperseded generation)) st"

record gateway_registration =
  gr_connection_id :: uuid
  gr_generation :: u64

definition register ::
    "uuid \<Rightarrow> uuid \<Rightarrow> i64 \<Rightarrow> string \<Rightarrow> gateway_capability set \<Rightarrow> registration_authorization
       \<Rightarrow> (registry_state \<Rightarrow> registry_state) \<Rightarrow> registry_state
       \<Rightarrow> (registry_state, gateway_registry_error, gateway_registration) effect" where
  "register connection_id device_id connected_at client_version capabilities authorization meanwhile st =
     st_then (register_locked connection_id device_id connected_at client_version capabilities authorization st)
       (\<lambda>st (generation, old).
          let st = meanwhile st;
              st = (case old of None \<Rightarrow> st | Some old_entry \<Rightarrow> supersede old_entry generation st)
          in (st, Inr \<lparr>gr_connection_id = connection_id, gr_generation = generation\<rparr>))"

definition is_current :: "uuid \<Rightarrow> uuid \<Rightarrow> u64 \<Rightarrow> registry_state \<Rightarrow> bool" where
  "is_current device_id connection_id generation st =
     is_some_and (\<lambda>e. gs_connection_id (en_snapshot e) = connection_id \<and> gs_generation (en_snapshot e) = generation)
       (map_of (rg_active st) device_id)"

definition cleanup :: "uuid \<Rightarrow> uuid \<Rightarrow> u64 \<Rightarrow> registry_state \<Rightarrow> registry_state \<times> bool" where
  "cleanup device_id connection_id generation st =
     (if is_current device_id connection_id generation st
      then (st\<lparr>rg_active := AList.delete device_id (rg_active st)\<rparr>, True) else (st, False))"

definition mark_pong :: "uuid \<Rightarrow> uuid \<Rightarrow> u64 \<Rightarrow> i64 \<Rightarrow> registry_state \<Rightarrow> registry_state \<times> bool" where
  "mark_pong device_id connection_id generation at st =
     (case map_of (rg_active st) device_id of
        None \<Rightarrow> (st, False)
      | Some e \<Rightarrow>
          if gs_connection_id (en_snapshot e) \<noteq> connection_id \<or> gs_generation (en_snapshot e) \<noteq> generation
          then (st, False)
          else
            (st\<lparr>rg_active := AList.update device_id
                  (e\<lparr>en_snapshot := (en_snapshot e)\<lparr>gs_last_pong_at := max (gs_last_pong_at (en_snapshot e)) at\<rparr>\<rparr>)
                  (rg_active st)\<rparr>, True))"

section \<open>Invalidation\<close>

definition invalidate_locked :: "uuid \<Rightarrow> registry_state \<Rightarrow> registry_state \<times> connection_entry option" where
  "invalidate_locked device_id st =
     (st\<lparr>rg_invalidation_generations :=
           AList.update device_id (u_saturating_add (invalidation_generation device_id st) 1)
             (rg_invalidation_generations st),
         rg_active := AList.delete device_id (rg_active st)\<rparr>,
      map_of (rg_active st) device_id)"

definition revoke_connection :: "connection_entry \<Rightarrow> gateway_invalidation_reason \<Rightarrow> registry_state \<Rightarrow> registry_state" where
  "revoke_connection e reason st =
     update_channel (gs_connection_id (en_snapshot e))
       (cancel_channel \<circ> try_send_control
          (ControlPolicyRevoked (gs_generation (en_snapshot e)) (policy_code reason))) st"

definition invalidate_device ::
    "uuid \<Rightarrow> gateway_invalidation_reason \<Rightarrow> (registry_state \<Rightarrow> registry_state) \<Rightarrow> registry_state
       \<Rightarrow> registry_state \<times> bool" where
  "invalidate_device device_id reason meanwhile st =
     (case invalidate_locked device_id st of
        (st, None) \<Rightarrow> (meanwhile st, False)
      | (st, Some e) \<Rightarrow> (revoke_connection e reason (meanwhile st), True))"

section \<open>Requests\<close>

definition dispatch_locked ::
    "uuid \<Rightarrow> remote_request_action \<Rightarrow> string option \<Rightarrow> i64 \<Rightarrow> nat \<Rightarrow> nat \<Rightarrow> registry_state
       \<Rightarrow> gateway_request_error + uuid \<times> gateway_command" where
  "dispatch_locked device_id action authorization_revision issued_at started response st =
     and_then (ok_or GOffline (map_of (rg_active st) device_id)) (\<lambda>e.
     if is_some_and (\<lambda>revision. revision \<noteq> en_authorization_revision e) authorization_revision
     then Inl GUnauthorized
     else if \<not> supports_action (gs_capabilities (en_snapshot e)) action
     then Inl GUnsupportedCapability
     else Inr (gs_connection_id (en_snapshot e),
            \<lparr>gc_generation = gs_generation (en_snapshot e), gc_issued_at = issued_at,
             gc_expires_at = i64_saturating_add issued_at max_gateway_request_ttl_ms,
             gc_deadline = started + nat max_gateway_request_ttl_ms,
             gc_action = action, gc_response = response\<rparr>))"

definition send_command ::
    "uuid \<Rightarrow> gateway_command \<Rightarrow> registry_state \<Rightarrow> (registry_state, gateway_request_error, unit) effect" where
  "send_command connection_id command st =
     (case map_of (rg_channels st) connection_id of
        None \<Rightarrow> (st, Inl GDisconnected)
      | Some ch \<Rightarrow>
          if \<not> ch_open ch then (st, Inl GDisconnected)
          else if length (ch_commands ch) \<ge> outbound_queue_capacity
          then (update_channel connection_id (cancel_channel \<circ> try_send_control ControlSlowConsumer) st,
                Inl GSlowConsumer)
          else (update_channel connection_id (\<lambda>ch. ch\<lparr>ch_commands := ch_commands ch @ [command]\<rparr>) st, Inr ()))"

text \<open>
  The answer of the session to a command: none before the deadline, a dropped reply channel, or an
  answer.
\<close>

datatype reply = ReplyTimeout | ReplyDropped | Reply "gateway_request_error + remote_response_result"

definition await_reply :: "reply \<Rightarrow> gateway_request_error + remote_response_result" where
  "await_reply r =
     (case r of ReplyTimeout \<Rightarrow> Inl GExpired | ReplyDropped \<Rightarrow> Inl GDisconnected | Reply a \<Rightarrow> a)"

record dispatch_env =
  de_issued_at :: i64
  de_started :: nat
  de_response :: nat
  de_meanwhile :: "registry_state \<Rightarrow> registry_state"
  de_serve :: "registry_state \<Rightarrow> registry_state \<times> reply"

definition dispatch ::
    "dispatch_env \<Rightarrow> uuid \<Rightarrow> remote_request_action \<Rightarrow> string option \<Rightarrow> registry_state
       \<Rightarrow> (registry_state, gateway_request_error, remote_response_result) effect" where
  "dispatch E device_id action authorization_revision st =
     (case dispatch_locked device_id action authorization_revision (de_issued_at E) (de_started E) (de_response E) st of
        Inl e \<Rightarrow> (st, Inl e)
      | Inr (connection_id, command) \<Rightarrow>
          st_then (send_command connection_id command (de_meanwhile E st)) (\<lambda>st _.
            case de_serve E st of (st, r) \<Rightarrow> (st, await_reply r)))"

definition request_device_info ::
    "dispatch_env \<Rightarrow> uuid \<Rightarrow> registry_state \<Rightarrow> (registry_state, gateway_request_error, device_info_result) effect" where
  "request_device_info E device_id st =
     st_then (dispatch E device_id AGetDeviceInfo None st) (\<lambda>st r.
       case r of PGetDeviceInfo d \<Rightarrow> (st, Inr d) | _ \<Rightarrow> (st, Inl GProtocolMismatch))"

end
