(* ===== verification/Device_Auth.thy ===== *)
theory Device_Auth
  imports Relay_Schema
begin

text \<open>
  Devices, their tokens and their scopes (\<open>apps/server/src/auth.rs\<close>) on the tables \<open>devices\<close> and
  \<open>device_scopes\<close>. The hash, the Base64 codec and the UUID text form are parameters; random bytes,
  new identifiers and the clock are arguments of the operations that draw them. Between the first
  read of an authentication and its transaction any other task may change the database.
\<close>

section \<open>Scopes\<close>

datatype auth_scope =
  ScNotifyWrite | ScNotifyReadOwn | ScChannelRead | ScChannelManage | ScGatewayConnect
| ScRunQuery | ScRunControl

definition auth_scope_all :: "auth_scope list" where
  "auth_scope_all =
     [ScNotifyWrite, ScNotifyReadOwn, ScChannelRead, ScChannelManage, ScGatewayConnect, ScRunQuery, ScRunControl]"

primrec auth_scope_as_str :: "auth_scope \<Rightarrow> string" where
  "auth_scope_as_str ScNotifyWrite = ''notify:write''"
| "auth_scope_as_str ScNotifyReadOwn = ''notify:read_own''"
| "auth_scope_as_str ScChannelRead = ''channel:read''"
| "auth_scope_as_str ScChannelManage = ''channel:manage''"
| "auth_scope_as_str ScGatewayConnect = ''gateway:connect''"
| "auth_scope_as_str ScRunQuery = ''job:query''"
| "auth_scope_as_str ScRunControl = ''job:control''"

datatype device_error =
  DevInvalidName | DevInvalidId | DevInvalidScopes | DevNotFound | DevRevoked | DevRandom | DevClock
| DevDatabase

datatype authentication_error = AuthUnauthorized | AuthRevoked | AuthDatabase

definition auth_scope_from_str :: "string \<Rightarrow> device_error + auth_scope" where
  "auth_scope_from_str v =
     (if v = ''notify:write'' then Inr ScNotifyWrite
      else if v = ''notify:read_own'' then Inr ScNotifyReadOwn
      else if v = ''channel:read'' then Inr ScChannelRead
      else if v = ''channel:manage'' then Inr ScChannelManage
      else if v = ''gateway:connect'' then Inr ScGatewayConnect
      else if v = ''job:query'' then Inr ScRunQuery
      else if v = ''job:control'' then Inr ScRunControl
      else Inl DevInvalidScopes)"

text \<open>A \<open>BTreeSet\<close> of scopes is a set; its iteration follows the order of the declaration.\<close>

definition scopes_in_order :: "auth_scope set \<Rightarrow> auth_scope list" where
  "scopes_in_order S = filter (\<lambda>s. s \<in> S) auth_scope_all"

primrec collect_scopes :: "'e \<Rightarrow> string list \<Rightarrow> 'e + auth_scope list" where
  "collect_scopes e [] = Inr []"
| "collect_scopes e (v # vs) =
     and_then (map_err e (auth_scope_from_str v)) (\<lambda>s.
     and_then (collect_scopes e vs) (\<lambda>ss. Inr (s # ss)))"

definition validate_scopes :: "auth_scope list \<Rightarrow> device_error + auth_scope set" where
  "validate_scopes scopes = (if scopes = [] then Inl DevInvalidScopes else Inr (set scopes))"

section \<open>Tokens\<close>

definition token_version :: string where "token_version = ''pdv2''"
definition token_hash_context :: string where "token_hash_context = ''promptdock-relay/device-token/v2''"
definition secret_bytes :: nat where "secret_bytes = 32"
definition secret_text_length :: nat where "secret_text_length = 43"
definition last_seen_interval_ms :: i64 where "last_seen_interval_ms = 60000"
definition gateway_authorization_revision_context :: string where
  "gateway_authorization_revision_context = ''promptdock-relay/gateway-authorization-revision/v1''"

record auth_lib =
  al_uuid :: uuid_lib
  al_b64_encode :: "string \<Rightarrow> string"
  al_b64_decode :: "string \<Rightarrow> string option"
  al_blake3 :: "string \<Rightarrow> string \<Rightarrow> string"

definition plaintext_token :: "auth_lib \<Rightarrow> uuid \<Rightarrow> string \<Rightarrow> string" where
  "plaintext_token L device_id secret =
     token_version @ ''.'' @ ul_print (al_uuid L) device_id @ ''.'' @ al_b64_encode L secret"

definition parse_device_id :: "uuid_lib \<Rightarrow> string \<Rightarrow> unit + uuid" where
  "parse_device_id U v =
     and_then (ok_or () (ul_parse U v)) (\<lambda>device_id.
       if ul_print U device_id \<noteq> v then Inl () else Inr device_id)"

definition parse_token :: "auth_lib \<Rightarrow> string \<Rightarrow> unit + uuid \<times> string" where
  "parse_token L token =
     (case split_on (CHR ''.'') token of
        [version, device, secret] \<Rightarrow>
          if version \<noteq> token_version \<or> length secret \<noteq> secret_text_length \<or> CHR ''='' \<in> set secret
          then Inl ()
          else
            and_then (parse_device_id (al_uuid L) device) (\<lambda>device_id.
            and_then (ok_or () (al_b64_decode L secret)) (\<lambda>decoded.
            if al_b64_encode L decoded \<noteq> secret then Inl ()
            else if length decoded \<noteq> secret_bytes then Inl ()
            else Inr (device_id, decoded)))
      | _ \<Rightarrow> Inl ())"

definition hash_secret :: "auth_lib \<Rightarrow> string \<Rightarrow> string" where
  "hash_secret L secret = al_blake3 L token_hash_context secret"

definition constant_time_hash_matches :: "string \<Rightarrow> string \<Rightarrow> bool" where
  "constant_time_hash_matches stored candidate \<longleftrightarrow> length stored = length candidate \<and> stored = candidate"

record issued_credential =
  ic_token_hash :: string
  ic_token :: string

definition issue_device_credential ::
    "auth_lib \<Rightarrow> uuid \<Rightarrow> string option \<Rightarrow> device_error + issued_credential" where
  "issue_device_credential L device_id random =
     and_then (ok_or DevRandom random) (\<lambda>secret.
       Inr \<lparr>ic_token_hash = hash_secret L secret, ic_token = plaintext_token L device_id secret\<rparr>)"

definition revision_input ::
    "uuid \<Rightarrow> string \<Rightarrow> i64 \<Rightarrow> bool \<Rightarrow> i64 option \<Rightarrow> auth_scope set \<Rightarrow> string" where
  "revision_input device_id hash version enabled revoked_at scopes =
     uuid_bytes device_id @ frame hash @ i64_be_bytes version
     @ [char_of (if enabled then 1 else 0 :: nat)]
     @ (case revoked_at of Some v \<Rightarrow> char_of (1 :: nat) # i64_be_bytes v | None \<Rightarrow> [char_of (0 :: nat)])
     @ be_bytes 8 (length (scopes_in_order scopes))
     @ concat (map frame (map auth_scope_as_str (scopes_in_order scopes)))"

definition gateway_authorization_revision ::
    "auth_lib \<Rightarrow> uuid \<Rightarrow> string \<Rightarrow> i64 \<Rightarrow> bool \<Rightarrow> i64 option \<Rightarrow> auth_scope set \<Rightarrow> string" where
  "gateway_authorization_revision L device_id hash version enabled revoked_at scopes =
     hex_encode (al_blake3 L gateway_authorization_revision_context
       (revision_input device_id hash version enabled revoked_at scopes))"

section \<open>Names\<close>

definition validate_device_name :: "string \<Rightarrow> device_error + string" where
  "validate_device_name name =
     (let trimmed = trim_chars (utf8_decode name)
      in if 1 \<le> length trimmed \<and> length trimmed \<le> 80 then Inr (utf8_encode trimmed) else Inl DevInvalidName)"

definition display_separator :: "nat \<Rightarrow> bool" where
  "display_separator c \<longleftrightarrow> is_control c \<or> is_whitespace c
     \<or> c = 0x061c \<or> c = 0x200e \<or> c = 0x200f
     \<or> (0x202a \<le> c \<and> c \<le> 0x202e) \<or> (0x2066 \<le> c \<and> c \<le> 0x2069)"

text \<open>The loop of \<open>sanitize_device_display_name\<close> with the text so far and the pending space.\<close>

primrec sanitize_chars :: "nat list \<Rightarrow> bool \<Rightarrow> nat list \<Rightarrow> nat list" where
  "sanitize_chars sanitized pending_space [] = sanitized"
| "sanitize_chars sanitized pending_space (c # cs) =
     (if display_separator c then sanitize_chars sanitized (sanitized \<noteq> []) cs
      else sanitize_chars ((if pending_space then sanitized @ [32] else sanitized) @ [c]) False cs)"

definition unnamed_device :: "nat list" where
  "unnamed_device = [0x672A, 0x547D, 0x540D, 0x8BBE, 0x5907]"

definition sanitize_device_display_name :: "string \<Rightarrow> string" where
  "sanitize_device_display_name name =
     (let sanitized = sanitize_chars [] False (trim_chars (utf8_decode name))
      in if sanitized = [] then utf8_encode unnamed_device else utf8_encode sanitized)"

section \<open>Tables\<close>

definition sql_trim :: "nat list \<Rightarrow> nat list" where
  "sql_trim cs = rev (dropWhile (\<lambda>c. c = 32) (rev (dropWhile (\<lambda>c. c = 32) cs)))"

definition device_checks :: "device_row \<Rightarrow> bool" where
  "device_checks d \<longleftrightarrow>
     sql_length (dv_id d) = 36
     \<and> list_all (\<lambda>i. take 1 (drop i (utf8_decode (dv_id d))) = [45]) [8, 13, 18, 23]
     \<and> list_all hex_code_point (filter (\<lambda>c. c \<noteq> 45) (utf8_decode (dv_id d)))
     \<and> 1 \<le> length (takeWhile (\<lambda>c. c \<noteq> 0) (sql_trim (utf8_decode (dv_name d))))
     \<and> length (takeWhile (\<lambda>c. c \<noteq> 0) (sql_trim (utf8_decode (dv_name d)))) \<le> 80
     \<and> length (dv_token_hash d) = 32
     \<and> dv_credential_version d = 2"

definition scope_checks :: "scope_row \<Rightarrow> bool" where
  "scope_checks r \<longleftrightarrow> sc_scope r \<in> auth_scope_as_str ` set auth_scope_all"

definition insert_device :: "device_row \<Rightarrow> relay_db \<Rightarrow> device_error + relay_db" where
  "insert_device d db =
     (if device_checks d \<and> list_all (\<lambda>r. dv_id r \<noteq> dv_id d) (db_devices db)
      then Inr (db\<lparr>db_devices := db_devices db @ [d]\<rparr>) else Inl DevDatabase)"

definition insert_scope :: "scope_row \<Rightarrow> relay_db \<Rightarrow> device_error + relay_db" where
  "insert_scope r db =
     (if scope_checks r \<and> list_ex (\<lambda>d. dv_id d = sc_device_id r) (db_devices db) \<and> r \<notin> set (db_scopes db)
      then Inr (db\<lparr>db_scopes := db_scopes db @ [r]\<rparr>) else Inl DevDatabase)"

primrec insert_scope_list :: "string \<Rightarrow> auth_scope list \<Rightarrow> relay_db \<Rightarrow> device_error + relay_db" where
  "insert_scope_list device [] db = Inr db"
| "insert_scope_list device (s # ss) db =
     and_then (insert_scope \<lparr>sc_device_id = device, sc_scope = auth_scope_as_str s\<rparr> db)
       (\<lambda>db. insert_scope_list device ss db)"

definition insert_scopes :: "string \<Rightarrow> auth_scope set \<Rightarrow> relay_db \<Rightarrow> device_error + relay_db" where
  "insert_scopes device scopes db = insert_scope_list device (scopes_in_order scopes) db"

definition scope_texts :: "string \<Rightarrow> relay_db \<Rightarrow> string list" where
  "scope_texts device db =
     map sc_scope (select_ordered (\<lambda>r. sc_device_id r = device) sc_scope (db_scopes db))"

definition load_scopes :: "string \<Rightarrow> relay_db \<Rightarrow> device_error + auth_scope set" where
  "load_scopes device db =
     and_then (collect_scopes DevDatabase (scope_texts device db)) validate_scopes"

definition device_by_id :: "string \<Rightarrow> relay_db \<Rightarrow> device_row option" where
  "device_by_id device db = find (\<lambda>d. dv_id d = device) (db_devices db)"

text \<open>A transaction that fails leaves the database as it was.\<close>

definition transact :: "relay_db \<Rightarrow> ('e + relay_db \<times> 'a) \<Rightarrow> (relay_db, 'e, 'a) effect" where
  "transact db r = (case r of Inl e \<Rightarrow> (db, Inl e) | Inr (db', v) \<Rightarrow> (db', Inr v))"

section \<open>Device operations\<close>

record created_device =
  cd_id :: uuid
  cd_name :: string
  cd_created_at :: i64
  cd_scopes :: "auth_scope set"
  cd_token :: string

record rotated_device =
  ro_id :: uuid
  ro_rotated_at :: i64
  ro_scopes :: "auth_scope set"
  ro_token :: string

record device_lifecycle_mutation =
  lm_id :: uuid
  lm_completed_at :: i64

definition new_device :: "string \<Rightarrow> string \<Rightarrow> string \<Rightarrow> i64 \<Rightarrow> device_row" where
  "new_device device name hash created_at =
     \<lparr>dv_id = device, dv_name = name, dv_token_hash = hash, dv_enabled = True, dv_credential_version = 2,
      dv_created_at = created_at, dv_last_seen_at = None, dv_revoked_at = None, dv_rotated_at = None\<rparr>"

definition create_device ::
    "auth_lib \<Rightarrow> uuid \<Rightarrow> string option \<Rightarrow> i64 option \<Rightarrow> string \<Rightarrow> auth_scope list \<Rightarrow> relay_db
       \<Rightarrow> (relay_db, device_error, created_device) effect" where
  "create_device L device_id random clock name scopes db =
     transact db
       (and_then (validate_device_name name) (\<lambda>name.
        and_then (validate_scopes scopes) (\<lambda>scopes.
        and_then (issue_device_credential L device_id random) (\<lambda>credential.
        and_then (ok_or DevClock clock) (\<lambda>created_at.
        and_then (insert_device
           (new_device (ul_print (al_uuid L) device_id) name (ic_token_hash credential) created_at) db) (\<lambda>db.
        and_then (insert_scopes (ul_print (al_uuid L) device_id) scopes db) (\<lambda>db.
        Inr (db, \<lparr>cd_id = device_id, cd_name = name, cd_created_at = created_at, cd_scopes = scopes,
                  cd_token = ic_token credential\<rparr>))))))))"

definition rotate_row :: "string \<Rightarrow> i64 \<Rightarrow> device_row \<Rightarrow> device_row" where
  "rotate_row hash rotated_at d =
     d\<lparr>dv_token_hash := hash, dv_credential_version := 2, dv_rotated_at := Some rotated_at\<rparr>"

definition rotatable :: "string \<Rightarrow> device_row \<Rightarrow> bool" where
  "rotatable device d \<longleftrightarrow> dv_id d = device \<and> dv_enabled d \<and> dv_revoked_at d = None"

definition rotate_device ::
    "auth_lib \<Rightarrow> string option \<Rightarrow> i64 option \<Rightarrow> string \<Rightarrow> auth_scope list \<Rightarrow> relay_db
       \<Rightarrow> (relay_db, device_error, rotated_device) effect" where
  "rotate_device L random clock device scopes db =
     transact db
       (and_then (map_err DevInvalidId (parse_device_id (al_uuid L) device)) (\<lambda>device_id.
        and_then (validate_scopes scopes) (\<lambda>scopes.
        and_then (issue_device_credential L device_id random) (\<lambda>credential.
        and_then (ok_or DevClock clock) (\<lambda>rotated_at.
        let device = ul_print (al_uuid L) device_id in
        if count_where (rotatable device) (db_devices db) = 0
        then Inl (if device_by_id device db \<noteq> None then DevRevoked else DevNotFound)
        else
          let db = db\<lparr>db_devices := update_where (rotatable device)
                        (rotate_row (ic_token_hash credential) rotated_at) (db_devices db)\<rparr>;
              db = db\<lparr>db_scopes := delete_where (\<lambda>r. sc_device_id r = device) (db_scopes db)\<rparr>
          in and_then (insert_scopes device scopes db) (\<lambda>db.
             Inr (db, \<lparr>ro_id = device_id, ro_rotated_at = rotated_at, ro_scopes = scopes,
                       ro_token = ic_token credential\<rparr>)))))))"

definition unrevoked :: "string \<Rightarrow> device_row \<Rightarrow> bool" where
  "unrevoked device d \<longleftrightarrow> dv_id d = device \<and> dv_revoked_at d = None"

definition rotate_device_preserving_scopes ::
    "auth_lib \<Rightarrow> string option \<Rightarrow> i64 option \<Rightarrow> string \<Rightarrow> relay_db
       \<Rightarrow> (relay_db, device_error, rotated_device) effect" where
  "rotate_device_preserving_scopes L random clock device db =
     transact db
       (and_then (map_err DevInvalidId (parse_device_id (al_uuid L) device)) (\<lambda>device_id.
        and_then (issue_device_credential L device_id random) (\<lambda>credential.
        and_then (ok_or DevClock clock) (\<lambda>rotated_at.
        let device = ul_print (al_uuid L) device_id in
        if count_where (unrevoked device) (db_devices db) = 0
        then Inl (if device_by_id device db \<noteq> None then DevRevoked else DevNotFound)
        else
          let db = db\<lparr>db_devices := update_where (unrevoked device)
                        (rotate_row (ic_token_hash credential) rotated_at) (db_devices db)\<rparr>
          in and_then (load_scopes device db) (\<lambda>scopes.
             Inr (db, \<lparr>ro_id = device_id, ro_rotated_at = rotated_at, ro_scopes = scopes,
                       ro_token = ic_token credential\<rparr>))))))"

definition revoke_row :: "i64 \<Rightarrow> device_row \<Rightarrow> device_row" where
  "revoke_row revoked_at d =
     d\<lparr>dv_enabled := False,
       dv_revoked_at := (case dv_revoked_at d of Some t \<Rightarrow> Some t | None \<Rightarrow> Some revoked_at)\<rparr>"

definition revoke_device_with_outcome ::
    "uuid_lib \<Rightarrow> i64 option \<Rightarrow> string \<Rightarrow> relay_db \<Rightarrow> (relay_db, device_error, device_lifecycle_mutation) effect" where
  "revoke_device_with_outcome U clock device db =
     transact db
       (and_then (map_err DevInvalidId (parse_device_id U device)) (\<lambda>device_id.
        and_then (ok_or DevClock clock) (\<lambda>revoked_at.
        let device = ul_print U device_id in
        if count_where (\<lambda>d. dv_id d = device) (db_devices db) = 0 then Inl DevNotFound
        else Inr (db\<lparr>db_devices := update_where (\<lambda>d. dv_id d = device) (revoke_row revoked_at) (db_devices db)\<rparr>,
                  \<lparr>lm_id = device_id, lm_completed_at = revoked_at\<rparr>))))"

definition set_device_enabled ::
    "uuid_lib \<Rightarrow> i64 option \<Rightarrow> string \<Rightarrow> bool \<Rightarrow> relay_db
       \<Rightarrow> (relay_db, device_error, device_lifecycle_mutation) effect" where
  "set_device_enabled U clock device enabled db =
     transact db
       (and_then (map_err DevInvalidId (parse_device_id U device)) (\<lambda>device_id.
        and_then (ok_or DevClock clock) (\<lambda>completed_at.
        let device = ul_print U device_id;
            done_at = \<lparr>lm_id = device_id, lm_completed_at = completed_at\<rparr>
        in if count_where (unrevoked device) (db_devices db) = 0
           then (case device_by_id device db of
                   None \<Rightarrow> Inl DevNotFound
                 | Some d \<Rightarrow>
                     (case dv_revoked_at d of
                        Some _ \<Rightarrow> if enabled then Inl DevRevoked else Inr (db, done_at)
                      | None \<Rightarrow> Inl DevDatabase))
           else Inr (db\<lparr>db_devices := update_where (unrevoked device) (\<lambda>d. d\<lparr>dv_enabled := enabled\<rparr>)
                          (db_devices db)\<rparr>, done_at))))"

record device_summary =
  dm_id :: string
  dm_name :: string
  dm_enabled :: bool
  dm_created_at :: i64
  dm_last_seen_at :: "i64 option"
  dm_revoked_at :: "i64 option"
  dm_credential_version :: i64
  dm_rotated_at :: "i64 option"
  dm_scopes :: "auth_scope set"

text \<open>\<open>GROUP_CONCAT\<close> joins with commas, and the program splits at them again.\<close>

fun group_concat :: "string list \<Rightarrow> string" where
  "group_concat [] = []"
| "group_concat [v] = v"
| "group_concat (v # w # vs) = v @ '','' @ group_concat (w # vs)"

definition summarize_device :: "relay_db \<Rightarrow> device_row \<Rightarrow> device_error + device_summary" where
  "summarize_device db d =
     and_then (collect_scopes DevDatabase
        (filter (\<lambda>v. v \<noteq> [])
          (split_on (CHR '','')
            (group_concat (map sc_scope (filter (\<lambda>r. sc_device_id r = dv_id d) (db_scopes db))))))) (\<lambda>scopes.
     Inr \<lparr>dm_id = dv_id d, dm_name = dv_name d, dm_enabled = dv_enabled d, dm_created_at = dv_created_at d,
          dm_last_seen_at = dv_last_seen_at d, dm_revoked_at = dv_revoked_at d,
          dm_credential_version = dv_credential_version d, dm_rotated_at = dv_rotated_at d,
          dm_scopes = set scopes\<rparr>)"

primrec summarize_devices :: "relay_db \<Rightarrow> device_row list \<Rightarrow> device_error + device_summary list" where
  "summarize_devices db [] = Inr []"
| "summarize_devices db (d # ds) =
     and_then (summarize_device db d) (\<lambda>m.
     and_then (summarize_devices db ds) (\<lambda>ms. Inr (m # ms)))"

definition list_devices :: "relay_db \<Rightarrow> device_error + device_summary list" where
  "list_devices db =
     summarize_devices db (sort_key (\<lambda>d. (dv_created_at d, dv_id d)) (db_devices db))"

section \<open>Authentication\<close>

record authenticated_device =
  ad_id :: uuid
  ad_name :: string
  ad_scopes :: "auth_scope set"
  ad_credential_revision :: string

definition fenced_device :: "string \<Rightarrow> string \<Rightarrow> device_row \<Rightarrow> bool" where
  "fenced_device device hash d \<longleftrightarrow>
     dv_id d = device \<and> dv_token_hash d = hash \<and> dv_credential_version d = 2 \<and> dv_enabled d
     \<and> dv_revoked_at d = None"

definition touch_row :: "i64 \<Rightarrow> device_row \<Rightarrow> device_row" where
  "touch_row now d =
     d\<lparr>dv_last_seen_at :=
         (case dv_last_seen_at d of
            None \<Rightarrow> Some now
          | Some t \<Rightarrow> if t \<le> i64_sub now last_seen_interval_ms then Some now else Some t)\<rparr>"

text \<open>The transaction after the first check, on the database as it is by then.\<close>

definition authenticate_fenced ::
    "auth_lib \<Rightarrow> uuid \<Rightarrow> string \<Rightarrow> string \<Rightarrow> i64 \<Rightarrow> relay_db
       \<Rightarrow> (relay_db, authentication_error, authenticated_device) effect" where
  "authenticate_fenced L device_id stored_hash candidate_hash now db =
     transact db
       (let device = ul_print (al_uuid L) device_id in
        if count_where (fenced_device device stored_hash) (db_devices db) \<noteq> 1
        then (case device_by_id device db of
                None \<Rightarrow> Inl AuthUnauthorized
              | Some current \<Rightarrow>
                  if dv_credential_version current = 2
                     \<and> constant_time_hash_matches (dv_token_hash current) candidate_hash
                     \<and> (\<not> dv_enabled current \<or> dv_revoked_at current \<noteq> None)
                  then Inl AuthRevoked else Inl AuthUnauthorized)
        else
          let db = db\<lparr>db_devices :=
                     update_where (fenced_device device stored_hash) (touch_row now) (db_devices db)\<rparr>
          in (case device_by_id device db of
                None \<Rightarrow> Inl AuthDatabase
              | Some snapshot \<Rightarrow>
                  and_then (collect_scopes AuthDatabase (scope_texts device db)) (\<lambda>scopes.
                  Inr (db, \<lparr>ad_id = device_id, ad_name = dv_name snapshot, ad_scopes = set scopes,
                            ad_credential_revision =
                              gateway_authorization_revision L device_id (dv_token_hash snapshot)
                                (dv_credential_version snapshot) (dv_enabled snapshot)
                                (dv_revoked_at snapshot) (set scopes)\<rparr>))))"

definition authenticate ::
    "auth_lib \<Rightarrow> i64 option \<Rightarrow> (relay_db \<Rightarrow> relay_db) \<Rightarrow> string \<Rightarrow> relay_db
       \<Rightarrow> (relay_db, authentication_error, authenticated_device) effect" where
  "authenticate L clock meanwhile token db =
     st_then (db, map_err AuthUnauthorized (parse_token L token)) (\<lambda>db (device_id, secret).
       case device_by_id (ul_print (al_uuid L) device_id) db of
         None \<Rightarrow> (db, Inl AuthUnauthorized)
       | Some row \<Rightarrow>
           if dv_credential_version row \<noteq> 2 then (db, Inl AuthUnauthorized)
           else if \<not> constant_time_hash_matches (dv_token_hash row) (hash_secret L secret)
           then (db, Inl AuthUnauthorized)
           else if \<not> dv_enabled row \<or> dv_revoked_at row \<noteq> None then (db, Inl AuthRevoked)
           else
             (case clock of
                None \<Rightarrow> (db, Inl AuthDatabase)
              | Some now \<Rightarrow>
                  authenticate_fenced L device_id (dv_token_hash row) (hash_secret L secret) now
                    (meanwhile db)))"

section \<open>Authorization of the gateway\<close>

record gateway_authorization_lease =
  ls_device_id :: uuid
  ls_scopes :: "auth_scope set"
  ls_credential_revision :: string

datatype authorization_state =
  GatewayActive gateway_authorization_lease | GatewayRevoked | GatewayDisabled | GatewayMissing

definition gateway_authorization_state ::
    "auth_lib \<Rightarrow> uuid \<Rightarrow> relay_db \<Rightarrow> authentication_error + authorization_state" where
  "gateway_authorization_state L device_id db =
     (case device_by_id (ul_print (al_uuid L) device_id) db of
        None \<Rightarrow> Inr GatewayMissing
      | Some row \<Rightarrow>
          and_then (collect_scopes AuthDatabase (scope_texts (ul_print (al_uuid L) device_id) db)) (\<lambda>scopes.
          if dv_revoked_at row \<noteq> None \<or> dv_credential_version row \<noteq> 2 then Inr GatewayRevoked
          else if \<not> dv_enabled row then Inr GatewayDisabled
          else Inr (GatewayActive
                 \<lparr>ls_device_id = device_id, ls_scopes = set scopes,
                  ls_credential_revision =
                    gateway_authorization_revision L device_id (dv_token_hash row) (dv_credential_version row)
                      (dv_enabled row) (dv_revoked_at row) (set scopes)\<rparr>)))"

definition gateway_authorization_lease_of ::
    "auth_lib \<Rightarrow> uuid \<Rightarrow> relay_db \<Rightarrow> authentication_error + gateway_authorization_lease option" where
  "gateway_authorization_lease_of L device_id db =
     and_then (gateway_authorization_state L device_id db) (\<lambda>state.
       case state of GatewayActive lease \<Rightarrow> Inr (Some lease) | _ \<Rightarrow> Inr None)"

definition is_device_enabled :: "uuid_lib \<Rightarrow> uuid \<Rightarrow> relay_db \<Rightarrow> authentication_error + bool" where
  "is_device_enabled U device_id db =
     (case device_by_id (ul_print U device_id) db of
        None \<Rightarrow> Inr False
      | Some row \<Rightarrow> Inr (dv_enabled row \<and> dv_revoked_at row = None))"

end
