(* ===== verification/Gateway_Session.thy ===== *)
theory Gateway_Session
  imports Gateway_Registry Device_Auth
begin

text \<open>
  Sessions of the gateway and the requests made over them (\<open>apps/server/src/gateway/runtime.rs\<close>). The
  socket, the clocks and the text libraries are an environment; the loop of a session is driven by the
  list of the events its \<open>select!\<close> picks, in any order, with what other tasks do to the registry before
  each of them. Reply channels are numbers; the session keeps
  the log of what it sent on them, a dropped channel included, and of the commands it took.
\<close>

section \<open>Kinds of results\<close>

datatype expected_result_kind =
  KindGetDeviceInfo | KindListRuns | KindGetRunDetail | KindGetRunTree | KindListRuntimes
| KindListWorkspaces | KindListHarnessProfiles | KindListTaskPresets | KindStartRun | KindCancelRun

definition kind_matches :: "expected_result_kind \<Rightarrow> remote_response_result \<Rightarrow> bool" where
  "kind_matches k r \<longleftrightarrow>
     (case (k, r) of
        (KindGetDeviceInfo, PGetDeviceInfo _) \<Rightarrow> True
      | (KindListRuns, PListRuns _) \<Rightarrow> True
      | (KindGetRunDetail, PGetRunDetail _) \<Rightarrow> True
      | (KindGetRunTree, PGetRunTree _) \<Rightarrow> True
      | (KindListRuntimes, PListRuntimes _) \<Rightarrow> True
      | (KindListWorkspaces, PListWorkspaces _) \<Rightarrow> True
      | (KindListHarnessProfiles, PListHarnessProfiles _) \<Rightarrow> True
      | (KindListTaskPresets, PListTaskPresets _) \<Rightarrow> True
      | (KindStartRun, PStartRun _) \<Rightarrow> True
      | (KindCancelRun, PCancelRun _) \<Rightarrow> True
      | _ \<Rightarrow> False)"

primrec kind_of_action :: "remote_request_action \<Rightarrow> expected_result_kind" where
  "kind_of_action AGetDeviceInfo = KindGetDeviceInfo"
| "kind_of_action (AListRuns _ _ _) = KindListRuns"
| "kind_of_action (AGetRunDetail _) = KindGetRunDetail"
| "kind_of_action (AGetRunTree _ _ _) = KindGetRunTree"
| "kind_of_action AListRuntimes = KindListRuntimes"
| "kind_of_action AListWorkspaces = KindListWorkspaces"
| "kind_of_action (AListHarnessProfiles _ _) = KindListHarnessProfiles"
| "kind_of_action (AListTaskPresets _ _ _) = KindListTaskPresets"
| "kind_of_action (AStartRun _ _ _ _ _) = KindStartRun"
| "kind_of_action (ACancelRun _ _) = KindCancelRun"

primrec kind_of_query :: "run_query_action \<Rightarrow> expected_result_kind" where
  "kind_of_query (QListRuns _ _ _) = KindListRuns"
| "kind_of_query (QGetRunDetail _) = KindGetRunDetail"
| "kind_of_query (QGetRunTree _ _ _) = KindGetRunTree"

section \<open>The state of a session\<close>

record pending_request =
  pq_expires_at :: i64
  pq_deadline :: nat
  pq_acknowledged :: bool
  pq_expected :: expected_result_kind
  pq_response :: nat

datatype answer = Answered "gateway_request_error + remote_response_result" | Dropped

record gateway_session =
  se_device_id :: uuid
  se_connection_id :: uuid
  se_generation :: u64
  se_pending :: "(string \<times> pending_request) list"
  se_ping_ids :: "string list"
  se_last_pong :: nat
  se_sent :: "gateway_server_frame list"
  se_answers :: "(nat \<times> answer) list"
  se_taken :: "gateway_command list"

datatype session_stop =
  StopSilent | StopProtocol | StopFrameTooLarge | StopSuperseded
| StopPolicy policy_revocation_code u64
| StopSlowConsumer | StopShutdown

datatype socket_send = SendDone | SendTimeout | SendFailed

record session_env =
  sn_uuid :: uuid_lib
  sn_json :: json_lib
  sn_send :: socket_send
  sn_unix_ms :: i64
  sn_instant :: nat
  sn_new_id :: string
  sn_meanwhile :: "registry_state \<Rightarrow> registry_state"

definition pending_expired :: "session_env \<Rightarrow> pending_request \<Rightarrow> bool" where
  "pending_expired E p \<longleftrightarrow> pq_expires_at p \<le> sn_unix_ms E \<or> pq_deadline p \<le> sn_instant E"

definition answer_request :: "nat \<Rightarrow> answer \<Rightarrow> gateway_session \<Rightarrow> gateway_session" where
  "answer_request response a s = s\<lparr>se_answers := se_answers s @ [(response, a)]\<rparr>"

definition remove_pending :: "string \<Rightarrow> gateway_session \<Rightarrow> gateway_session" where
  "remove_pending request_id s = s\<lparr>se_pending := AList.delete request_id (se_pending s)\<rparr>"

definition send_frame ::
    "session_env \<Rightarrow> gateway_server_frame \<Rightarrow> gateway_session \<Rightarrow> (gateway_session, session_stop, unit) effect" where
  "send_frame E fr s =
     (case encode_server_frame (sn_uuid E) (sn_json E) fr of
        Inl _ \<Rightarrow> (s, Inl StopProtocol)
      | Inr _ \<Rightarrow>
          (case sn_send E of
             SendTimeout \<Rightarrow> (s, Inl StopSlowConsumer)
           | SendFailed \<Rightarrow> (s, Inl StopSilent)
           | SendDone \<Rightarrow> (s\<lparr>se_sent := se_sent s @ [fr]\<rparr>, Inr ())))"

section \<open>Messages of the client\<close>

datatype socket_message = MText string | MBinary | MPing | MPong | MClose

primrec protocol_stop :: "gateway_protocol_error \<Rightarrow> session_stop" where
  "protocol_stop FrameTooLarge = StopFrameTooLarge"
| "protocol_stop ResponseTooLarge = StopFrameTooLarge"
| "protocol_stop Malformed = StopProtocol"
| "protocol_stop FrameInvalid = StopProtocol"

definition handle_pong ::
    "session_env \<Rightarrow> pong_frame \<Rightarrow> gateway_session \<times> registry_state
       \<Rightarrow> (gateway_session \<times> registry_state, session_stop, unit) effect" where
  "handle_pong E pong st =
     (case st of (s, reg) \<Rightarrow>
        if po_generation pong \<noteq> se_generation s \<or> po_ping_id pong \<notin> set (se_ping_ids s)
        then (st, Inl StopProtocol)
        else ((s\<lparr>se_ping_ids := tl (dropWhile (\<lambda>p. p \<noteq> po_ping_id pong) (se_ping_ids s)),
                se_last_pong := sn_instant E\<rparr>,
               fst (mark_pong (se_device_id s) (se_connection_id s) (se_generation s) (sn_unix_ms E) reg)), Inr ()))"

definition handle_ack ::
    "session_env \<Rightarrow> request_ack \<Rightarrow> gateway_session \<Rightarrow> (gateway_session, session_stop, unit) effect" where
  "handle_ack E ack s =
     (if ra_generation ack \<noteq> se_generation s then (s, Inl StopProtocol)
      else case map_of (se_pending s) (ra_request_id ack) of
             None \<Rightarrow> (s, Inl StopProtocol)
           | Some request \<Rightarrow>
               if pending_expired E request
               then (answer_request (pq_response request) (Answered (Inl GExpired))
                       (remove_pending (ra_request_id ack) s), Inl StopProtocol)
               else if \<not> ra_accepted ack
               then (answer_request (pq_response request) (Answered (Inl GRejected))
                       (remove_pending (ra_request_id ack) s), Inr ())
               else (s\<lparr>se_pending := AList.update (ra_request_id ack) (request\<lparr>pq_acknowledged := True\<rparr>)
                         (se_pending s)\<rparr>, Inr ()))"

definition handle_response ::
    "session_env \<Rightarrow> remote_response \<Rightarrow> gateway_session \<Rightarrow> (gateway_session, session_stop, unit) effect" where
  "handle_response E response s =
     (if rx_generation response \<noteq> se_generation s then (s, Inl StopProtocol)
      else case map_of (se_pending s) (rx_request_id response) of
             None \<Rightarrow> (s, Inl StopProtocol)
           | Some request \<Rightarrow>
               let s = remove_pending (rx_request_id response) s
               in if \<not> pq_acknowledged request \<or> pending_expired E request
                  then (answer_request (pq_response request) (Answered (Inl GExpired)) s, Inl StopProtocol)
                  else if \<not> kind_matches (pq_expected request) (rx_result response)
                  then (answer_request (pq_response request) (Answered (Inl GProtocolMismatch)) s, Inl StopProtocol)
                  else (answer_request (pq_response request) (Answered (Inr (rx_result response))) s, Inr ()))"

definition handle_error ::
    "session_env \<Rightarrow> remote_error \<Rightarrow> gateway_session \<Rightarrow> (gateway_session, session_stop, unit) effect" where
  "handle_error E error s =
     (if re_generation error \<noteq> se_generation s then (s, Inl StopProtocol)
      else case map_of (se_pending s) (re_request_id error) of
             None \<Rightarrow> (s, Inl StopProtocol)
           | Some request \<Rightarrow>
               let s = remove_pending (re_request_id error) s
               in if \<not> pq_acknowledged request \<or> pending_expired E request
                  then (answer_request (pq_response request) (Answered (Inl GExpired)) s, Inl StopProtocol)
                  else (answer_request (pq_response request) (Answered (Inl GRejected)) s, Inr ()))"

definition on_session ::
    "(gateway_session, 'e, 'a) effect \<Rightarrow> registry_state \<Rightarrow> (gateway_session \<times> registry_state, 'e, 'a) effect" where
  "on_session r reg = ((fst r, reg), snd r)"

definition handle_client_frame ::
    "session_env \<Rightarrow> gateway_client_frame \<Rightarrow> gateway_session \<times> registry_state
       \<Rightarrow> (gateway_session \<times> registry_state, session_stop, unit) effect" where
  "handle_client_frame E fr st =
     (case fr of
        Hello _ \<Rightarrow> (st, Inl StopProtocol)
      | Pong pong \<Rightarrow> handle_pong E pong st
      | RequestAck ack \<Rightarrow> on_session (handle_ack E ack (fst st)) (snd st)
      | Response response \<Rightarrow> on_session (handle_response E response (fst st)) (snd st)
      | ErrorFrame error \<Rightarrow> on_session (handle_error E error (fst st)) (snd st))"

definition handle_client_message ::
    "session_env \<Rightarrow> socket_message \<Rightarrow> gateway_session \<times> registry_state
       \<Rightarrow> (gateway_session \<times> registry_state, session_stop, unit) effect" where
  "handle_client_message E message st =
     (case message of
        MText text \<Rightarrow>
          (case decode_client_frame (sn_uuid E) (sn_json E) text of
             Inl e \<Rightarrow> (st, Inl (protocol_stop e))
           | Inr fr \<Rightarrow> handle_client_frame E fr st)
      | MBinary \<Rightarrow> (st, Inl StopProtocol)
      | MPing \<Rightarrow>
          (case sn_send E of
             SendTimeout \<Rightarrow> (st, Inl StopSlowConsumer)
           | SendFailed \<Rightarrow> (st, Inl StopSilent)
           | SendDone \<Rightarrow> (st, Inr ()))
      | MPong \<Rightarrow> (st, Inr ())
      | MClose \<Rightarrow> (st, Inl StopSilent))"

section \<open>Commands\<close>

text \<open>An early return by the question mark drops the reply channel.\<close>

definition insert_pending :: "string \<Rightarrow> pending_request \<Rightarrow> gateway_session \<Rightarrow> gateway_session" where
  "insert_pending request_id request s =
     (let s = (case map_of (se_pending s) request_id of
                 None \<Rightarrow> s | Some old \<Rightarrow> answer_request (pq_response old) Dropped s)
      in s\<lparr>se_pending := AList.update request_id request (se_pending s)\<rparr>)"

definition handle_command ::
    "session_env \<Rightarrow> gateway_command \<Rightarrow> gateway_session \<Rightarrow> (gateway_session, session_stop, unit) effect" where
  "handle_command E command s =
     (let s = s\<lparr>se_taken := se_taken s @ [command]\<rparr>
      in if gc_generation command \<noteq> se_generation s
         then (answer_request (gc_response command) (Answered (Inl GDisconnected)) s, Inr ())
         else if gc_expires_at command \<le> sn_unix_ms E \<or> gc_deadline command \<le> sn_instant E
         then (answer_request (gc_response command) (Answered (Inl GExpired)) s, Inr ())
         else if length (se_pending s) \<ge> max_gateway_pending_requests
         then (answer_request (gc_response command) (Answered (Inl GPendingLimit)) s, Inr ())
         else
           let fr = Request \<lparr>rq_request_id = sn_new_id E, rq_generation = se_generation s,
                      rq_issued_at = gc_issued_at command, rq_expires_at = gc_expires_at command,
                      rq_action = gc_action command\<rparr>
           in (case send_frame E fr s of
                 (s, Inl stop) \<Rightarrow> (answer_request (gc_response command) Dropped s, Inl stop)
               | (s, Inr _) \<Rightarrow>
                   (insert_pending (sn_new_id E)
                      \<lparr>pq_expires_at = gc_expires_at command, pq_deadline = gc_deadline command,
                       pq_acknowledged = False, pq_expected = kind_of_action (gc_action command),
                       pq_response = gc_response command\<rparr> s, Inr ())))"

definition expire_pending :: "session_env \<Rightarrow> gateway_session \<Rightarrow> gateway_session" where
  "expire_pending E s =
     s\<lparr>se_pending := filter (\<lambda>(_, p). \<not> pending_expired E p) (se_pending s),
       se_answers := se_answers s
         @ map (\<lambda>(_, p). (pq_response p, Answered (Inl GExpired))) (filter (\<lambda>(_, p). pending_expired E p) (se_pending s))\<rparr>"

definition heartbeat :: "session_env \<Rightarrow> gateway_session \<Rightarrow> (gateway_session, session_stop, unit) effect" where
  "heartbeat E s =
     (if sn_instant E - se_last_pong s \<ge> 1000 * unat gateway_pong_timeout_seconds then (s, Inl StopProtocol)
      else
        let s = s\<lparr>se_ping_ids := drop (length (se_ping_ids s) - 2) (se_ping_ids s) @ [sn_new_id E]\<rparr>
        in (case send_frame E (Ping \<lparr>pi_ping_id = sn_new_id E, pi_generation = se_generation s,
                                   pi_sent_at = sn_unix_ms E\<rparr>) s of
              (s, Inl _) \<Rightarrow> (s, Inl StopSilent)
            | (s, Inr _) \<Rightarrow> (s, Inr ())))"

section \<open>Authorization\<close>

definition authorization_policy ::
    "auth_lib \<Rightarrow> uuid \<Rightarrow> gateway_authorization_lease \<Rightarrow> relay_db \<Rightarrow> policy_revocation_code + unit" where
  "authorization_policy L device_id initial db =
     and_then (map_err DeviceRevoked (gateway_authorization_state L device_id db)) (\<lambda>state.
       case state of
         GatewayActive current \<Rightarrow>
           if ls_credential_revision current = ls_credential_revision initial
              \<and> ScGatewayConnect \<in> ls_scopes current
           then Inr ()
           else if ls_scopes current \<noteq> ls_scopes initial \<or> ScGatewayConnect \<notin> ls_scopes current
           then Inl ScopeChanged
           else Inl TokenRotated
       | GatewayDisabled \<Rightarrow> Inl DeviceDisabled
       | GatewayRevoked \<Rightarrow> Inl DeviceRevoked
       | GatewayMissing \<Rightarrow> Inl DeviceRevoked)"

definition current_authorization ::
    "auth_lib \<Rightarrow> uuid \<Rightarrow> auth_scope \<Rightarrow> string option \<Rightarrow> relay_db
       \<Rightarrow> gateway_request_error + gateway_authorization_lease" where
  "current_authorization L device_id required expected db =
     and_then (map_err GAuthorizationUnavailable (gateway_authorization_state L device_id db)) (\<lambda>state.
       case state of
         GatewayActive lease \<Rightarrow>
           if ScGatewayConnect \<in> ls_scopes lease \<and> required \<in> ls_scopes lease
              \<and> (case expected of None \<Rightarrow> True | Some revision \<Rightarrow> revision = ls_credential_revision lease)
           then Inr lease else Inl GUnauthorized
       | _ \<Rightarrow> Inl GUnauthorized)"

datatype handshake_error =
  HandshakeUnauthorized | HandshakeRevoked | HandshakeDisabled | HandshakeInsufficientScope | HandshakeDatabase

definition initial_lease ::
    "auth_lib \<Rightarrow> authenticated_device \<Rightarrow> relay_db \<Rightarrow> handshake_error + gateway_authorization_lease" where
  "initial_lease L authenticated db =
     and_then (map_err HandshakeDatabase (gateway_authorization_state L (ad_id authenticated) db)) (\<lambda>state.
       case state of
         GatewayActive lease \<Rightarrow>
           if ls_credential_revision lease = ad_credential_revision authenticated
              \<and> ScGatewayConnect \<in> ls_scopes lease
           then Inr lease
           else if ScGatewayConnect \<notin> ls_scopes lease then Inl HandshakeInsufficientScope
           else Inl HandshakeUnauthorized
       | GatewayRevoked \<Rightarrow> Inl HandshakeRevoked
       | GatewayMissing \<Rightarrow> Inl HandshakeRevoked
       | GatewayDisabled \<Rightarrow> Inl HandshakeDisabled)"

record prepared_lease =
  pl_authorization :: gateway_authorization_lease
  pl_invalidation_generation :: u64

text \<open>The counter is read first; the database may change before the lease is read.\<close>

definition prepare_initial_lease ::
    "auth_lib \<Rightarrow> authenticated_device \<Rightarrow> (relay_db \<Rightarrow> relay_db) \<Rightarrow> registry_state \<Rightarrow> relay_db
       \<Rightarrow> handshake_error + prepared_lease" where
  "prepare_initial_lease L authenticated meanwhile reg db =
     (let generation = invalidation_generation (ad_id authenticated) reg
      in and_then (initial_lease L authenticated (meanwhile db)) (\<lambda>authorization.
         Inr \<lparr>pl_authorization = authorization, pl_invalidation_generation = generation\<rparr>))"

section \<open>The loop of a session\<close>

datatype session_event =
  EvControl "gateway_control option"
| EvCancelled bool relay_db
| EvMessage "socket_message option"
| EvReadError
| EvCommand "gateway_command option"
| EvHeartbeat
| EvAuthorization relay_db
| EvPendingScan

definition handle_event ::
    "auth_lib \<Rightarrow> gateway_authorization_lease \<Rightarrow> session_env \<Rightarrow> session_event \<Rightarrow> gateway_session \<times> registry_state
       \<Rightarrow> (gateway_session \<times> registry_state, session_stop, unit) effect" where
  "handle_event L lease E ev st =
     (case ev of
        EvControl (Some (ControlSuperseded generation)) \<Rightarrow>
          ((fst (send_frame E (Superseded generation) (fst st)), snd st), Inl StopSuperseded)
      | EvControl (Some (ControlPolicyRevoked generation code)) \<Rightarrow> (st, Inl (StopPolicy code generation))
      | EvControl (Some ControlSlowConsumer) \<Rightarrow> (st, Inl StopSlowConsumer)
      | EvControl None \<Rightarrow> (st, Inl StopSilent)
      | EvCancelled shutdown db \<Rightarrow>
          (st, Inl (if shutdown then StopShutdown
                    else case authorization_policy L (se_device_id (fst st)) lease db of
                           Inr _ \<Rightarrow> StopSuperseded
                         | Inl code \<Rightarrow> StopPolicy code (se_generation (fst st))))
      | EvMessage (Some message) \<Rightarrow> handle_client_message E message st
      | EvMessage None \<Rightarrow> (st, Inl StopSilent)
      | EvReadError \<Rightarrow> (st, Inl StopFrameTooLarge)
      | EvCommand (Some command) \<Rightarrow> on_session (handle_command E command (fst st)) (snd st)
      | EvCommand None \<Rightarrow> (st, Inl StopSilent)
      | EvHeartbeat \<Rightarrow> on_session (heartbeat E (fst st)) (snd st)
      | EvAuthorization db \<Rightarrow>
          (case authorization_policy L (se_device_id (fst st)) lease db of
             Inr _ \<Rightarrow> (st, Inr ())
           | Inl code \<Rightarrow> (st, Inl (StopPolicy code (se_generation (fst st)))))
      | EvPendingScan \<Rightarrow> ((expire_pending E (fst st), snd st), Inr ()))"

primrec session_events ::
    "auth_lib \<Rightarrow> gateway_authorization_lease \<Rightarrow> (session_env \<times> session_event) list \<Rightarrow> gateway_session \<times> registry_state
       \<Rightarrow> (gateway_session \<times> registry_state, session_stop, unit) effect" where
  "session_events L lease [] st = (st, Inr ())"
| "session_events L lease (x # xs) st =
     st_then (handle_event L lease (fst x) (snd x) (fst st, sn_meanwhile (fst x) (snd st)))
       (\<lambda>st _. session_events L lease xs st)"

text \<open>At the end of the loop the callers of all pending requests are told.\<close>

definition drain_pending :: "gateway_session \<Rightarrow> gateway_session" where
  "drain_pending s =
     s\<lparr>se_pending := [],
       se_answers := se_answers s @ map (\<lambda>(_, p). (pq_response p, Answered (Inl GDisconnected))) (se_pending s)\<rparr>"

definition new_session :: "uuid \<Rightarrow> gateway_registration \<Rightarrow> nat \<Rightarrow> gateway_session" where
  "new_session device_id registration now =
     \<lparr>se_device_id = device_id, se_connection_id = gr_connection_id registration,
      se_generation = gr_generation registration, se_pending = [], se_ping_ids = [], se_last_pong = now,
      se_sent = [], se_answers = [], se_taken = []\<rparr>"

definition session_loop ::
    "auth_lib \<Rightarrow> gateway_authorization_lease \<Rightarrow> (session_env \<times> session_event) list \<Rightarrow> gateway_session \<times> registry_state
       \<Rightarrow> (gateway_session \<times> registry_state) \<times> session_stop option" where
  "session_loop L lease evs st =
     (case session_events L lease evs st of
        ((s, reg), Inl stop) \<Rightarrow> ((drain_pending s, reg), Some stop)
      | ((s, reg), Inr _) \<Rightarrow> ((s, reg), None))"

section \<open>Start and end of a session\<close>

definition receive_hello ::
    "session_env \<Rightarrow> bool \<Rightarrow> bool \<Rightarrow> (socket_message option) option \<Rightarrow> session_stop + hello_frame" where
  "receive_hello E shutdown timeout message =
     (if shutdown then Inl StopShutdown
      else if timeout then Inl StopProtocol
      else case message of
             None \<Rightarrow> Inl StopFrameTooLarge
           | Some None \<Rightarrow> Inl StopSilent
           | Some (Some (MText text)) \<Rightarrow>
               (case decode_client_frame (sn_uuid E) (sn_json E) text of
                  Inr (Hello hello) \<Rightarrow> Inr hello
                | Inl FrameTooLarge \<Rightarrow> Inl StopFrameTooLarge
                | _ \<Rightarrow> Inl StopProtocol)
           | Some (Some MBinary) \<Rightarrow> Inl StopProtocol
           | Some (Some MClose) \<Rightarrow> Inl StopSilent
           | Some (Some MPing) \<Rightarrow> Inl StopProtocol
           | Some (Some MPong) \<Rightarrow> Inl StopProtocol)"

definition registration_stop ::
    "auth_lib \<Rightarrow> uuid \<Rightarrow> gateway_authorization_lease \<Rightarrow> relay_db \<Rightarrow> gateway_registry_error \<Rightarrow> session_stop" where
  "registration_stop L device_id lease db error =
     (case error of
        PolicyInvalidated \<Rightarrow>
          StopPolicy (case authorization_policy L device_id lease db of Inl code \<Rightarrow> code | Inr _ \<Rightarrow> DeviceRevoked) 0
      | GenerationExhausted \<Rightarrow> StopProtocol)"

definition welcome_for :: "session_env \<Rightarrow> gateway_registration \<Rightarrow> i64 \<Rightarrow> gateway_server_frame" where
  "welcome_for E registration connected_at =
     Welcome \<lparr>wl_protocol_version = gateway_protocol_version,
       wl_connection_id = ul_print (sn_uuid E) (gr_connection_id registration),
       wl_generation = gr_generation registration, wl_heartbeat_seconds = gateway_heartbeat_seconds,
       wl_max_frame_bytes = max_gateway_frame_bytes, wl_server_time = connected_at\<rparr>"

datatype outgoing = OutFrame gateway_server_frame | OutClose u16 string

definition close_code :: "session_stop \<Rightarrow> (u16 \<times> string) option" where
  "close_code stop =
     (case stop of
        StopSilent \<Rightarrow> None
      | StopProtocol \<Rightarrow> Some (4002, ''protocol_error'')
      | StopFrameTooLarge \<Rightarrow> Some (4009, ''frame_too_large'')
      | StopSuperseded \<Rightarrow> Some (4001, ''superseded'')
      | StopPolicy _ _ \<Rightarrow> Some (4003, ''policy_revoked'')
      | StopSlowConsumer \<Rightarrow> Some (4008, ''slow_consumer'')
      | StopShutdown \<Rightarrow> Some (1001, ''server_shutdown''))"

definition policy_stop :: "session_stop \<Rightarrow> bool" where
  "policy_stop stop = (case stop of StopPolicy _ _ \<Rightarrow> True | _ \<Rightarrow> False)"

definition policy_frame_out :: "session_env \<Rightarrow> session_stop \<Rightarrow> outgoing list" where
  "policy_frame_out E stop =
     (case stop of
        StopPolicy code generation \<Rightarrow>
          (case encode_server_frame (sn_uuid E) (sn_json E) (PolicyRevoked generation code) of
             Inl _ \<Rightarrow> []
           | Inr _ \<Rightarrow> if sn_send E = SendDone then [OutFrame (PolicyRevoked generation code)] else [])
      | _ \<Rightarrow> [])"

text \<open>What \<open>SessionStop::close\<close> puts on the socket, given whether the server is shutting down.\<close>

definition close_session :: "session_env \<Rightarrow> bool \<Rightarrow> session_stop \<Rightarrow> outgoing list" where
  "close_session E cancelled stop =
     (case close_code stop of
        None \<Rightarrow> []
      | Some (code, reason) \<Rightarrow>
          if policy_stop stop \<and> cancelled then []
          else policy_frame_out E stop
               @ (if (stop = StopShutdown \<or> \<not> cancelled) \<and> sn_send E = SendDone
                  then [OutClose code reason] else []))"

text \<open>
  \<open>run_session\<close> with what its awaits deliver; its result has the frames of the close and the identity
  that \<open>run_tracked\<close> cleans up. A script whose events do not end the loop is an unfinished session, and
  one whose task is aborted.
\<close>

record session_script =
  ss_hello_env :: session_env
  ss_shutdown :: bool
  ss_timeout :: bool
  ss_message :: "(socket_message option) option"
  ss_connected_at :: i64
  ss_connection_id :: uuid
  ss_meanwhile :: "registry_state \<Rightarrow> registry_state"
  ss_registration_db :: relay_db
  ss_welcome_env :: session_env
  ss_now :: nat
  ss_events :: "(session_env \<times> session_event) list"
  ss_close_env :: session_env
  ss_cancelled :: bool
  ss_before_cleanup :: "registry_state \<Rightarrow> registry_state"

record session_outcome =
  so_registry :: registry_state
  so_identity :: "gateway_registration option"
  so_session :: "gateway_session option"
  so_closed :: "outgoing list"

definition run_session ::
    "auth_lib \<Rightarrow> session_script \<Rightarrow> authenticated_device \<Rightarrow> prepared_lease \<Rightarrow> registry_state \<Rightarrow> session_outcome" where
  "run_session L S authenticated lease reg =
     (case receive_hello (ss_hello_env S) (ss_shutdown S) (ss_timeout S) (ss_message S) of
        Inl stop \<Rightarrow>
          \<lparr>so_registry = reg, so_identity = None, so_session = None,
           so_closed = close_session (ss_close_env S) (ss_cancelled S) stop\<rparr>
      | Inr hello \<Rightarrow>
          (case register (ss_connection_id S) (ad_id authenticated) (ss_connected_at S) (hl_client_version hello)
                  (set (hl_capabilities hello))
                  \<lparr>au_revision = ls_credential_revision (pl_authorization lease),
                   au_invalidation_generation = pl_invalidation_generation lease\<rparr> (ss_meanwhile S) reg of
             (reg, Inl error) \<Rightarrow>
               \<lparr>so_registry = reg, so_identity = None, so_session = None,
                so_closed = close_session (ss_close_env S) (ss_cancelled S)
                  (registration_stop L (ad_id authenticated) (pl_authorization lease) (ss_registration_db S) error)\<rparr>
           | (reg, Inr registration) \<Rightarrow>
               (case send_frame (ss_welcome_env S) (welcome_for (ss_welcome_env S) registration (ss_connected_at S))
                       (new_session (ad_id authenticated) registration (ss_now S)) of
                  (s, Inl _) \<Rightarrow>
                    \<lparr>so_registry = reg, so_identity = Some registration, so_session = Some s, so_closed = []\<rparr>
                | (s, Inr _) \<Rightarrow>
                    (case session_loop L (pl_authorization lease) (ss_events S) (s, reg) of
                       ((s, reg), stop) \<Rightarrow>
                         \<lparr>so_registry = reg, so_identity = Some registration, so_session = Some s,
                          so_closed = (case stop of
                            None \<Rightarrow> [] | Some stop \<Rightarrow> close_session (ss_close_env S) (ss_cancelled S) stop)\<rparr>))))"

definition run_tracked ::
    "auth_lib \<Rightarrow> session_script \<Rightarrow> authenticated_device \<Rightarrow> prepared_lease \<Rightarrow> registry_state \<Rightarrow> session_outcome" where
  "run_tracked L S authenticated lease reg =
     (let r = run_session L S authenticated lease reg;
          reg = ss_before_cleanup S (so_registry r)
      in case so_identity r of
           None \<Rightarrow> r\<lparr>so_registry := reg\<rparr>
         | Some identity \<Rightarrow>
             r\<lparr>so_registry :=
                 fst (cleanup (ad_id authenticated) (gr_connection_id identity) (gr_generation identity) reg)\<rparr>)"

section \<open>Requests\<close>

record request_env =
  qe_uuid :: uuid_lib
  qe_dispatch :: dispatch_env
  qe_db_before :: relay_db
  qe_db_after :: relay_db

text \<open>The three entry points check the action, the authorization, the answer and the authorization again.\<close>

definition authorized_request ::
    "auth_lib \<Rightarrow> request_env \<Rightarrow> uuid \<Rightarrow> auth_scope \<Rightarrow> remote_request_action \<Rightarrow> expected_result_kind \<Rightarrow> string option
       \<Rightarrow> (remote_response_result \<Rightarrow> unit + 'a) \<Rightarrow> registry_state
       \<Rightarrow> (registry_state, gateway_request_error, 'a) effect" where
  "authorized_request L Q device_id required remote expected expected_revision convert reg =
     (case current_authorization L device_id required expected_revision (qe_db_before Q) of
        Inl e \<Rightarrow> (reg, Inl e)
      | Inr lease \<Rightarrow>
          st_then (dispatch (qe_dispatch Q) device_id remote (Some (ls_credential_revision lease)) reg) (\<lambda>reg result.
            case current_authorization L device_id required (Some (ls_credential_revision lease)) (qe_db_after Q) of
              Inl e \<Rightarrow> (reg, Inl e)
            | Inr _ \<Rightarrow>
                if \<not> kind_matches expected result then (reg, Inl GProtocolMismatch)
                else (reg, map_err GProtocolMismatch (convert result))))"

definition request_job_with_revision ::
    "auth_lib \<Rightarrow> request_env \<Rightarrow> uuid \<Rightarrow> run_query_action \<Rightarrow> string option \<Rightarrow> registry_state
       \<Rightarrow> (registry_state, gateway_request_error, run_query_result) effect" where
  "request_job_with_revision L Q device_id action expected_revision reg =
     st_then (reg, map_err GInvalidRequest (validate_run_query_action action)) (\<lambda>reg _.
     st_then (reg, map_err GInvalidRequest (validate_request_action (qe_uuid Q) (action_from_query action))) (\<lambda>reg _.
       authorized_request L Q device_id ScRunQuery (action_from_query action) (kind_of_query action)
         expected_revision query_result_try_from reg))"

definition request_catalog_with_revision ::
    "auth_lib \<Rightarrow> request_env \<Rightarrow> uuid \<Rightarrow> catalog_query_action \<Rightarrow> string option \<Rightarrow> registry_state
       \<Rightarrow> (registry_state, gateway_request_error, catalog_query_result) effect" where
  "request_catalog_with_revision L Q device_id action expected_revision reg =
     st_then (reg, map_err GInvalidRequest (validate_request_action (qe_uuid Q) (action_from_catalog action))) (\<lambda>reg _.
       authorized_request L Q device_id ScRunQuery (action_from_catalog action)
         (kind_of_action (action_from_catalog action)) expected_revision catalog_result_try_from reg)"

definition request_control_with_revision ::
    "auth_lib \<Rightarrow> request_env \<Rightarrow> uuid \<Rightarrow> control_action \<Rightarrow> string option \<Rightarrow> registry_state
       \<Rightarrow> (registry_state, gateway_request_error, control_result) effect" where
  "request_control_with_revision L Q device_id action expected_revision reg =
     st_then (reg, map_err GInvalidRequest (validate_request_action (qe_uuid Q) (action_from_control action))) (\<lambda>reg _.
       authorized_request L Q device_id ScRunControl (action_from_control action)
         (kind_of_action (action_from_control action)) expected_revision control_result_try_from reg)"

end
