(* ===== verification/Device_Correct.thy ===== *)
theory Device_Correct
  imports Device_Auth
begin

text \<open>
Properties of the device service: every sequence of its operations keeps the two tables well formed,
  a token that was given out authenticates, a token that was replaced never does again, a revocation is
  final, and an authorization revision determines the credential, the flags and the scopes it was
  computed from.
\<close>

section \<open>Definitions\<close>

text \<open>
  The steps the tables of devices can take: each operation of the service, the transaction of an
  authentication, and every change of other tables. The secrets that are drawn come from a given set.
\<close>

inductive auth_step :: "auth_lib \<Rightarrow> string set \<Rightarrow> relay_db \<Rightarrow> relay_db \<Rightarrow> bool" for L S where
  create: "set_option random \<subseteq> S \<Longrightarrow>
    auth_step L S db (fst (create_device L device_id random clock name scopes db))"
| rotate: "set_option random \<subseteq> S \<Longrightarrow>
    auth_step L S db (fst (rotate_device L random clock device scopes db))"
| rotate_preserving: "set_option random \<subseteq> S \<Longrightarrow>
    auth_step L S db (fst (rotate_device_preserving_scopes L random clock device db))"
| revoke: "auth_step L S db (fst (revoke_device_with_outcome (al_uuid L) clock device db))"
| set_enabled: "auth_step L S db (fst (set_device_enabled (al_uuid L) clock device enabled db))"
| authenticate: "auth_step L S db (fst (authenticate_fenced L device_id stored candidate now db))"
| elsewhere: "db_devices db' = db_devices db \<Longrightarrow> db_scopes db' = db_scopes db \<Longrightarrow> auth_step L S db db'"

text \<open>Every step on the devices: nothing, a new row, or an update of one of four kinds.\<close>

datatype device_change =
  Unchanged
| Added device_row
| Rotated "device_row \<Rightarrow> bool" string i64
| RevokedRows string i64
| EnabledRows string bool
| Touched string string i64

primrec apply_change :: "device_change \<Rightarrow> device_row list \<Rightarrow> device_row list" where
  "apply_change Unchanged ds = ds"
| "apply_change (Added d) ds = ds @ [d]"
| "apply_change (Rotated p hash at) ds = update_where p (rotate_row hash at) ds"
| "apply_change (RevokedRows device at) ds = update_where (\<lambda>d. dv_id d = device) (revoke_row at) ds"
| "apply_change (EnabledRows device enabled) ds =
     update_where (unrevoked device) (\<lambda>d. d\<lparr>dv_enabled := enabled\<rparr>) ds"
| "apply_change (Touched device hash now) ds = update_where (fenced_device device hash) (touch_row now) ds"

primrec change_ok :: "auth_lib \<Rightarrow> string set \<Rightarrow> device_change \<Rightarrow> device_row list \<Rightarrow> bool" where
  "change_ok L S Unchanged ds = True"
| "change_ok L S (Added d) ds =
     ((\<exists>device name secret at. d = new_device device name (hash_secret L secret) at \<and> secret \<in> S)
      \<and> device_checks d \<and> list_all (\<lambda>r. dv_id r \<noteq> dv_id d) ds)"
| "change_ok L S (Rotated p hash at) ds =
     ((\<exists>device. p = rotatable device \<or> p = unrevoked device) \<and> (\<exists>secret \<in> S. hash = hash_secret L secret))"
| "change_ok L S (RevokedRows device at) ds = True"
| "change_ok L S (EnabledRows device enabled) ds = True"
| "change_ok L S (Touched device hash now) ds = True"

definition auth_wf :: "relay_db \<Rightarrow> bool" where
  "auth_wf db \<longleftrightarrow>
     distinct (map dv_id (db_devices db))
     \<and> (\<forall>d \<in> set (db_devices db). dv_credential_version d = 2 \<and> (dv_revoked_at d \<noteq> None \<longrightarrow> \<not> dv_enabled d))
     \<and> distinct (db_scopes db)
     \<and> (\<forall>r \<in> set (db_scopes db). scope_checks r \<and> sc_device_id r \<in> dv_id ` set (db_devices db))"

definition granted :: "string \<Rightarrow> relay_db \<Rightarrow> auth_scope set" where
  "granted device db = {s. \<lparr>sc_device_id = device, sc_scope = auth_scope_as_str s\<rparr> \<in> set (db_scopes db)}"

abbreviation scope_rows_of :: "string \<Rightarrow> auth_scope list \<Rightarrow> scope_row list" where
  "scope_rows_of device ss \<equiv> map (\<lambda>s. \<lparr>sc_device_id = device, sc_scope = auth_scope_as_str s\<rparr>) ss"

definition device_row_wf :: "device_row \<Rightarrow> bool" where
  "device_row_wf d \<longleftrightarrow> dv_credential_version d = 2 \<and> (dv_revoked_at d \<noteq> None \<longrightarrow> \<not> dv_enabled d)"

definition avoids_hash :: "string \<Rightarrow> string \<Rightarrow> relay_db \<Rightarrow> bool" where
  "avoids_hash device hash db \<longleftrightarrow> (\<forall>d \<in> set (db_devices db). dv_id d = device \<longrightarrow> dv_token_hash d \<noteq> hash)"

definition revoked_device :: "string \<Rightarrow> relay_db \<Rightarrow> bool" where
  "revoked_device device db \<longleftrightarrow> device \<in> dv_id ` set (db_devices db)
     \<and> (\<forall>d \<in> set (db_devices db). dv_id d = device \<longrightarrow> dv_revoked_at d \<noteq> None \<and> \<not> dv_enabled d)"

definition token_laws :: "auth_lib \<Rightarrow> uuid \<Rightarrow> string \<Rightarrow> bool" where
  "token_laws L device_id secret \<longleftrightarrow>
     ul_parse (al_uuid L) (ul_print (al_uuid L) device_id) = Some device_id
     \<and> CHR ''.'' \<notin> set (ul_print (al_uuid L) device_id)
     \<and> length secret = secret_bytes
     \<and> length (al_b64_encode L secret) = secret_text_length
     \<and> CHR ''.'' \<notin> set (al_b64_encode L secret) \<and> CHR ''='' \<notin> set (al_b64_encode L secret)
     \<and> al_b64_decode L (al_b64_encode L secret) = Some secret"

definition demo_uuid_text :: string where "demo_uuid_text = ''00000000-0000-4000-8000-000000000001''"

definition demo_secret :: string where "demo_secret = replicate 32 (CHR ''A'')"

definition demo_auth_lib :: auth_lib where
  "demo_auth_lib =
     \<lparr>al_uuid = \<lparr>ul_parse = (\<lambda>s. if s = demo_uuid_text then Some 1 else None), ul_print = (\<lambda>_. demo_uuid_text)\<rparr>,
      al_b64_encode = (\<lambda>_. replicate 43 (CHR ''A'')), al_b64_decode = (\<lambda>_. Some demo_secret),
      al_blake3 = (\<lambda>_ s. s)\<rparr>"

definition empty_relay_db :: relay_db where
  "empty_relay_db =
     \<lparr>db_devices = [], db_scopes = [], db_outbox = [], db_results = [], db_shares = [], db_actions = [],
      db_bundles = [], db_segments = []\<rparr>"

definition demo_device_db :: relay_db where
  "demo_device_db = empty_relay_db
     \<lparr>db_devices := [new_device demo_uuid_text ''Desk'' demo_secret 5],
      db_scopes := [\<lparr>sc_device_id = demo_uuid_text, sc_scope = ''notify:write''\<rparr>]\<rparr>"

definition demo_token :: string where "demo_token = plaintext_token demo_auth_lib 1 demo_secret"

section \<open>Scopes in the table\<close>

lemma auth_scope_roundtrip [simp]: "auth_scope_from_str (auth_scope_as_str s) = Inr s"
  by (cases s) (simp_all add: auth_scope_from_str_def)

lemma auth_scope_inject [simp]: "auth_scope_as_str s = auth_scope_as_str t \<longleftrightarrow> s = t"
  by (metis auth_scope_roundtrip sum.inject(2))

lemma auth_scope_all_UNIV: "set auth_scope_all = UNIV"
proof -
  have "s \<in> set auth_scope_all" for s by (cases s) (simp_all add: auth_scope_all_def)
  then show ?thesis by blast
qed

lemma scopes_in_order [simp]: "set (scopes_in_order S) = S" "distinct (scopes_in_order S)"
  by (simp_all add: scopes_in_order_def auth_scope_all_UNIV) (simp add: auth_scope_all_def)

lemma collect_scopes_valid:
  assumes "set vs \<subseteq> range auth_scope_as_str"
  shows "\<exists>ss. collect_scopes e vs = Inr ss \<and> map auth_scope_as_str ss = vs"
  using assms
proof (induction vs)
  case (Cons v vs)
  then obtain s ss where "v = auth_scope_as_str s" "collect_scopes e vs = Inr ss" "map auth_scope_as_str ss = vs"
    by auto
  then show ?case by (intro exI [of _ "s # ss"]) (simp add: map_err_def)
qed simp

lemma scope_row_eq: "(r :: scope_row) = \<lparr>sc_device_id = a, sc_scope = b\<rparr> \<longleftrightarrow> sc_device_id r = a \<and> sc_scope r = b"
  by (cases r) simp

lemma scope_row_mem:
  "\<lparr>sc_device_id = a, sc_scope = b\<rparr> \<in> set rows \<longleftrightarrow> (\<exists>r \<in> set rows. sc_device_id r = a \<and> sc_scope r = b)"
  using scope_row_eq by metis

lemma scopes_of_device:
  assumes "auth_wf db"
  shows "\<exists>ss. collect_scopes e (scope_texts device db) = Inr ss \<and> set ss = granted device db"
proof -
  have "set (scope_texts device db) \<subseteq> range auth_scope_as_str"
    using assms by (auto simp: scope_texts_def select_ordered_def auth_wf_def scope_checks_def auth_scope_all_UNIV)
  then obtain ss where ss: "collect_scopes e (scope_texts device db) = Inr ss"
      "map auth_scope_as_str ss = scope_texts device db"
    using collect_scopes_valid [of "scope_texts device db" e] by auto
  have "s \<in> set ss \<longleftrightarrow> s \<in> granted device db" for s
  proof -
    have "s \<in> set ss \<longleftrightarrow> auth_scope_as_str s \<in> set (scope_texts device db)"
      unfolding ss(2) [symmetric] by auto
    also have "\<dots> \<longleftrightarrow> (\<exists>r \<in> set (db_scopes db). sc_device_id r = device \<and> sc_scope r = auth_scope_as_str s)"
      by (auto simp: scope_texts_def select_ordered_def image_iff)
    also have "\<dots> \<longleftrightarrow> s \<in> granted device db"
      unfolding granted_def mem_Collect_eq by (rule scope_row_mem [symmetric])
    finally show ?thesis .
  qed
  then show ?thesis using ss(1) by blast
qed

lemma insert_scope_listD:
  "insert_scope_list device ss db = Inr db' \<Longrightarrow>
     db' = db\<lparr>db_scopes := db_scopes db @ scope_rows_of device ss\<rparr>
     \<and> (distinct (db_scopes db) \<longrightarrow> distinct (db_scopes db @ scope_rows_of device ss))
     \<and> (ss \<noteq> [] \<longrightarrow> device \<in> dv_id ` set (db_devices db))"
proof (induction ss arbitrary: db)
  case (Cons s ss)
  let ?r = "\<lparr>sc_device_id = device, sc_scope = auth_scope_as_str s\<rparr>"
  let ?db1 = "db\<lparr>db_scopes := db_scopes db @ [?r]\<rparr>"
  have new: "?r \<notin> set (db_scopes db)" "device \<in> dv_id ` set (db_devices db)"
    and rest: "insert_scope_list device ss ?db1 = Inr db'"
    using Cons.prems by (auto simp: insert_scope_def and_then_def list_ex_iff split: if_splits)
  show ?case using Cons.IH [OF rest] new by auto
qed simp

section \<open>What the operations write\<close>

lemma transact_eq:
  "transact db r = (db', Inr v) \<longleftrightarrow> r = Inr (db', v)"
  "transact db r = (db', Inl e) \<longleftrightarrow> r = Inl e \<and> db' = db"
  by (auto simp: transact_def split: sum.splits)

lemma transact_fst: "fst (transact db r) = (case r of Inl _ \<Rightarrow> db | Inr (db', _) \<Rightarrow> db')"
  by (auto simp: transact_def split: sum.splits)

lemma create_device_ok:
  assumes "create_device L device_id random clock name scopes db = (db', Inr c)"
  obtains nm secret at where "random = Some secret" "clock = Some at" "validate_device_name name = Inr nm"
    "scopes \<noteq> []"
    "device_checks (new_device (ul_print (al_uuid L) device_id) nm (hash_secret L secret) at)"
    "list_all (\<lambda>r. dv_id r \<noteq> ul_print (al_uuid L) device_id) (db_devices db)"
    "db' = db\<lparr>db_devices := db_devices db @ [new_device (ul_print (al_uuid L) device_id) nm (hash_secret L secret) at],
       db_scopes := db_scopes db @ scope_rows_of (ul_print (al_uuid L) device_id) (scopes_in_order (set scopes))\<rparr>"
    "distinct (db_scopes db) \<Longrightarrow> distinct (db_scopes db')"
    "c = \<lparr>cd_id = device_id, cd_name = nm, cd_created_at = at, cd_scopes = set scopes,
       cd_token = plaintext_token L device_id secret\<rparr>"
proof -
  let ?dev = "ul_print (al_uuid L) device_id"
  from assms obtain nm secret at db1 where r: "random = Some secret" "clock = Some at"
      "validate_device_name name = Inr nm" "scopes \<noteq> []"
    and i: "insert_device (new_device ?dev nm (hash_secret L secret) at) db = Inr db1"
    and sc: "insert_scopes ?dev (set scopes) db1 = Inr db'"
    and c: "c = \<lparr>cd_id = device_id, cd_name = nm, cd_created_at = at, cd_scopes = set scopes,
       cd_token = plaintext_token L device_id secret\<rparr>"
    unfolding create_device_def transact_eq
    by (auto simp: and_then_eq_Inr validate_scopes_def issue_device_credential_def split: if_splits)
  have d: "device_checks (new_device ?dev nm (hash_secret L secret) at)"
      "list_all (\<lambda>r. dv_id r \<noteq> ?dev) (db_devices db)"
      "db1 = db\<lparr>db_devices := db_devices db @ [new_device ?dev nm (hash_secret L secret) at]\<rparr>"
    using i by (auto simp: insert_device_def new_device_def split: if_splits)
  have "db' = db1\<lparr>db_scopes := db_scopes db1 @ scope_rows_of ?dev (scopes_in_order (set scopes))\<rparr>"
      "distinct (db_scopes db1) \<longrightarrow> distinct (db_scopes db1 @ scope_rows_of ?dev (scopes_in_order (set scopes)))"
    using insert_scope_listD [OF sc [unfolded insert_scopes_def]] by blast+
  then show ?thesis using that [OF r d(1,2) _ _ c] d(3) by simp
qed

lemma rotate_device_ok:
  assumes "rotate_device L random clock device scopes db = (db', Inr c)"
  obtains secret at where "random = Some secret"
    "db_devices db' = update_where (rotatable device) (rotate_row (hash_secret L secret) at) (db_devices db)"
    "count_where (rotatable device) (db_devices db) \<noteq> 0"
    "db_scopes db' = delete_where (\<lambda>r. sc_device_id r = device) (db_scopes db)
       @ scope_rows_of device (scopes_in_order (set scopes))"
    "distinct (db_scopes db) \<Longrightarrow> distinct (db_scopes db')"
    "ul_print (al_uuid L) (ro_id c) = device" "ro_scopes c = set scopes"
    "ro_token c = plaintext_token L (ro_id c) secret"
proof -
  from assms obtain device_id secret at where p: "parse_device_id (al_uuid L) device = Inr device_id"
      "random = Some secret" "clock = Some at"
    and n: "count_where (rotatable (ul_print (al_uuid L) device_id)) (db_devices db) \<noteq> 0"
    and sc: "insert_scopes (ul_print (al_uuid L) device_id) (set scopes)
       (db\<lparr>db_devices := update_where (rotatable (ul_print (al_uuid L) device_id))
              (rotate_row (hash_secret L secret) at) (db_devices db),
           db_scopes := delete_where (\<lambda>r. sc_device_id r = ul_print (al_uuid L) device_id) (db_scopes db)\<rparr>) = Inr db'"
    and c: "c = \<lparr>ro_id = device_id, ro_rotated_at = at, ro_scopes = set scopes,
       ro_token = plaintext_token L device_id secret\<rparr>"
    unfolding rotate_device_def transact_eq
    by (auto simp: and_then_eq_Inr validate_scopes_def issue_device_credential_def Let_def split: if_splits)
  have dev: "ul_print (al_uuid L) device_id = device"
    using p(1) by (auto simp: parse_device_id_def and_then_eq_Inr split: if_splits)
  note sc = insert_scope_listD [OF sc [unfolded insert_scopes_def dev]]
  have "distinct (delete_where (\<lambda>r. sc_device_id r = device) (db_scopes db))" if "distinct (db_scopes db)"
    using that by (simp add: delete_where_def)
  then have "distinct (db_scopes db')" if "distinct (db_scopes db)"
    using that conjunct1 [OF conjunct2 [OF sc]] conjunct1 [OF sc] by simp
  then show ?thesis
    by (intro that [OF p(2), of at]) (use conjunct1 [OF sc] n c dev in simp_all)
qed

lemma rotate_preserving_ok:
  assumes "rotate_device_preserving_scopes L random clock device db = (db', Inr c)"
  obtains secret at where "random = Some secret"
    "db' = db\<lparr>db_devices := update_where (unrevoked device) (rotate_row (hash_secret L secret) at) (db_devices db)\<rparr>"
    "count_where (unrevoked device) (db_devices db) \<noteq> 0"
    "ul_print (al_uuid L) (ro_id c) = device" "load_scopes device db = Inr (ro_scopes c)"
    "ro_token c = plaintext_token L (ro_id c) secret"
proof -
  from assms obtain device_id secret at sco where p: "parse_device_id (al_uuid L) device = Inr device_id"
      "random = Some secret" "clock = Some at"
    and n: "count_where (unrevoked (ul_print (al_uuid L) device_id)) (db_devices db) \<noteq> 0"
    and db': "db' = db\<lparr>db_devices := update_where (unrevoked (ul_print (al_uuid L) device_id))
              (rotate_row (hash_secret L secret) at) (db_devices db)\<rparr>"
    and sc: "load_scopes (ul_print (al_uuid L) device_id) db' = Inr sco"
    and c: "c = \<lparr>ro_id = device_id, ro_rotated_at = at, ro_scopes = sco,
       ro_token = plaintext_token L device_id secret\<rparr>"
    unfolding rotate_device_preserving_scopes_def transact_eq
    by (auto simp: and_then_eq_Inr issue_device_credential_def Let_def split: if_splits)
  have dev: "ul_print (al_uuid L) device_id = device"
    using p(1) by (auto simp: parse_device_id_def and_then_eq_Inr split: if_splits)
  have "load_scopes device db = Inr sco"
    using sc unfolding db' dev by (simp add: load_scopes_def scope_texts_def)
  then show ?thesis by (intro that [OF p(2), of at]) (use db' n c dev in simp_all)
qed

section \<open>Every step keeps the tables well formed\<close>

lemma rotate_row_simps [simp]:
  "dv_id (rotate_row h t d) = dv_id d" "dv_enabled (rotate_row h t d) = dv_enabled d"
  "dv_revoked_at (rotate_row h t d) = dv_revoked_at d" "dv_token_hash (rotate_row h t d) = h"
  "dv_credential_version (rotate_row h t d) = 2"
  by (simp_all add: rotate_row_def)

lemma revoke_row_simps [simp]:
  "dv_id (revoke_row t d) = dv_id d" "\<not> dv_enabled (revoke_row t d)" "\<exists>y. dv_revoked_at (revoke_row t d) = Some y"
  "dv_token_hash (revoke_row t d) = dv_token_hash d"
  "dv_credential_version (revoke_row t d) = dv_credential_version d"
  by (simp_all add: revoke_row_def split: option.splits)

lemma touch_row_simps [simp]:
  "dv_id (touch_row t d) = dv_id d" "dv_enabled (touch_row t d) = dv_enabled d"
  "dv_revoked_at (touch_row t d) = dv_revoked_at d" "dv_token_hash (touch_row t d) = dv_token_hash d"
  "dv_credential_version (touch_row t d) = dv_credential_version d" "dv_name (touch_row t d) = dv_name d"
  by (simp_all add: touch_row_def)

lemma new_device_simps [simp]:
  "dv_id (new_device i n h t) = i" "dv_enabled (new_device i n h t)" "dv_revoked_at (new_device i n h t) = None"
  "dv_token_hash (new_device i n h t) = h" "dv_credential_version (new_device i n h t) = 2"
  "dv_name (new_device i n h t) = n"
  by (simp_all add: new_device_def)

lemma authenticate_fenced_db:
  "fst (authenticate_fenced L device_id stored candidate now db) = db
   \<or> fst (authenticate_fenced L device_id stored candidate now db) =
       db\<lparr>db_devices := update_where (fenced_device (ul_print (al_uuid L) device_id) stored) (touch_row now) (db_devices db)\<rparr>"
  by (auto simp: authenticate_fenced_def transact_fst Let_def and_then_def split: option.splits sum.splits)

lemma failed_operations:
  "create_device L device_id random clock name scopes db = (db', Inl e) \<Longrightarrow> db' = db"
  "rotate_device L random clock device scopes db = (db', Inl e) \<Longrightarrow> db' = db"
  "rotate_device_preserving_scopes L random clock device db = (db', Inl e) \<Longrightarrow> db' = db"
  "revoke_device_with_outcome U clock device db = (db', Inl e) \<Longrightarrow> db' = db"
  "set_device_enabled U clock device enabled db = (db', Inl e) \<Longrightarrow> db' = db"
  by (simp_all add: create_device_def rotate_device_def rotate_device_preserving_scopes_def
      revoke_device_with_outcome_def set_device_enabled_def transact_eq)

text \<open>Every step changes nothing of the two tables or is a successful operation or the touch of a row.\<close>

lemma auth_step_cases:
  assumes "auth_step L S db db'"
  obtains (same) "db_devices db' = db_devices db" "db_scopes db' = db_scopes db"
  | (create) device_id random clock name scopes c where "set_option random \<subseteq> S"
      "create_device L device_id random clock name scopes db = (db', Inr c)"
  | (rotate) random clock device scopes c where "set_option random \<subseteq> S"
      "rotate_device L random clock device scopes db = (db', Inr c)"
  | (rotate_preserving) random clock device c where "set_option random \<subseteq> S"
      "rotate_device_preserving_scopes L random clock device db = (db', Inr c)"
  | (revoke) clock device m where "revoke_device_with_outcome (al_uuid L) clock device db = (db', Inr m)"
  | (set_enabled) clock device enabled m where "set_device_enabled (al_uuid L) clock device enabled db = (db', Inr m)"
  | (touch) device hash now where
      "db' = db\<lparr>db_devices := update_where (fenced_device device hash) (touch_row now) (db_devices db)\<rparr>"
  using assms
proof cases
  case (create random device_id clock name scopes)
  then show ?thesis using that(1,2) failed_operations(1) [of L device_id random clock name scopes db]
    by (cases "create_device L device_id random clock name scopes db"; cases "snd (create_device L device_id random clock name scopes db)") auto
next
  case (rotate random clock device scopes)
  then show ?thesis using that(1,3) failed_operations(2) [of L random clock device scopes db]
    by (cases "rotate_device L random clock device scopes db"; cases "snd (rotate_device L random clock device scopes db)") auto
next
  case (rotate_preserving random clock device)
  then show ?thesis using that(1,4) failed_operations(3) [of L random clock device db]
    by (cases "rotate_device_preserving_scopes L random clock device db";
        cases "snd (rotate_device_preserving_scopes L random clock device db)") auto
next
  case (revoke clock device)
  then show ?thesis using that(1,5) failed_operations(4) [of "al_uuid L" clock device db]
    by (cases "revoke_device_with_outcome (al_uuid L) clock device db";
        cases "snd (revoke_device_with_outcome (al_uuid L) clock device db)") auto
next
  case (set_enabled clock device enabled)
  then show ?thesis using that(1,6) failed_operations(5) [of "al_uuid L" clock device enabled db]
    by (cases "set_device_enabled (al_uuid L) clock device enabled db";
        cases "snd (set_device_enabled (al_uuid L) clock device enabled db)") auto
next
  case (authenticate device_id stored candidate now)
  then show ?thesis using that(1,7) authenticate_fenced_db [of L device_id stored candidate now db] by auto
next
  case elsewhere
  then show ?thesis using that(1) by blast
qed

lemma revoke_device_ok:
  assumes "revoke_device_with_outcome U clock device db = (db', Inr m)"
  obtains at where "clock = Some at" "ul_print U (lm_id m) = device"
    "db' = db\<lparr>db_devices := update_where (\<lambda>d. dv_id d = device) (revoke_row at) (db_devices db)\<rparr>"
    "device \<in> dv_id ` set (db_devices db)"
  using assms that unfolding revoke_device_with_outcome_def transact_eq
  by (fastforce simp: and_then_eq_Inr parse_device_id_def Let_def count_where_0 image_iff split: if_splits)

lemma set_device_enabled_ok:
  assumes "set_device_enabled U clock device enabled db = (db', Inr m)"
  shows "db' = db \<or>
    db' = db\<lparr>db_devices := update_where (unrevoked device) (\<lambda>d. d\<lparr>dv_enabled := enabled\<rparr>) (db_devices db)\<rparr>"
  using assms unfolding set_device_enabled_def transact_eq
  by (auto simp: and_then_eq_Inr parse_device_id_def Let_def split: if_splits option.splits)

lemma auth_step_change:
  assumes "auth_step L S db db'"
  shows "\<exists>c. change_ok L S c (db_devices db) \<and> db_devices db' = apply_change c (db_devices db)"
  using assms
proof (cases rule: auth_step_cases)
  case same
  then show ?thesis by (intro exI [of _ Unchanged]) simp
next
  case (create device_id random clock name scopes c)
  from create(2) show ?thesis
  proof (rule create_device_ok)
    fix nm secret at
    let ?d = "new_device (ul_print (al_uuid L) device_id) nm (hash_secret L secret) at"
    assume r: "random = Some secret" and c: "device_checks ?d"
      "list_all (\<lambda>r. dv_id r \<noteq> ul_print (al_uuid L) device_id) (db_devices db)"
      and db': "db' = db\<lparr>db_devices := db_devices db @ [?d],
         db_scopes := db_scopes db @ scope_rows_of (ul_print (al_uuid L) device_id) (scopes_in_order (set scopes))\<rparr>"
    have "secret \<in> S" using create(1) r by simp
    then show ?thesis using c db' by (intro exI [of _ "Added ?d"]) auto
  qed
next
  case (rotate random clock device scopes c)
  from rotate(2) show ?thesis
  proof (rule rotate_device_ok)
    fix secret at assume r: "random = Some secret" and
      d: "db_devices db' = update_where (rotatable device) (rotate_row (hash_secret L secret) at) (db_devices db)"
    show ?thesis using rotate(1) r d
      by (intro exI [of _ "Rotated (rotatable device) (hash_secret L secret) at"]) auto
  qed
next
  case (rotate_preserving random clock device c)
  from rotate_preserving(2) show ?thesis
  proof (rule rotate_preserving_ok)
    fix secret at assume r: "random = Some secret" and
      d: "db' = db\<lparr>db_devices := update_where (unrevoked device) (rotate_row (hash_secret L secret) at) (db_devices db)\<rparr>"
    show ?thesis using rotate_preserving(1) r d
      by (intro exI [of _ "Rotated (unrevoked device) (hash_secret L secret) at"]) auto
  qed
next
  case (revoke clock device m)
  from revoke show ?thesis
  proof (rule revoke_device_ok)
    fix at assume "db' = db\<lparr>db_devices := update_where (\<lambda>d. dv_id d = device) (revoke_row at) (db_devices db)\<rparr>"
    then show ?thesis by (intro exI [of _ "RevokedRows device at"]) simp
  qed
next
  case (set_enabled clock device enabled m)
  from set_device_enabled_ok [OF this] show ?thesis
  proof
    assume "db' = db"
    then show ?thesis by (intro exI [of _ Unchanged]) simp
  next
    assume "db' = db\<lparr>db_devices := update_where (unrevoked device) (\<lambda>d. d\<lparr>dv_enabled := enabled\<rparr>) (db_devices db)\<rparr>"
    then show ?thesis by (intro exI [of _ "EnabledRows device enabled"]) simp
  qed
next
  case (touch device hash now)
  then show ?thesis by (intro exI [of _ "Touched device hash now"]) simp
qed

lemma change_ids:
  assumes "change_ok L S c ds"
  shows "\<exists>new. map dv_id (apply_change c ds) = map dv_id ds @ new \<and> distinct new \<and> set new \<inter> dv_id ` set ds = {}"
proof (cases c)
  case (Added d)
  then have "dv_id d \<notin> dv_id ` set ds" using assms by (auto simp: list_all_iff)
  then show ?thesis using Added by (intro exI [of _ "[dv_id d]"]) simp
qed (auto intro!: exI [of _ "[]"] map_update_where)

lemma change_ids_wf:
  assumes "change_ok L S c ds"
  shows "distinct (map dv_id ds) \<Longrightarrow> distinct (map dv_id (apply_change c ds))"
    "dv_id ` set ds \<subseteq> dv_id ` set (apply_change c ds)"
proof -
  obtain new where n: "map dv_id (apply_change c ds) = map dv_id ds @ new" "distinct new"
      "set new \<inter> dv_id ` set ds = {}" using change_ids [OF assms] by blast
  show "distinct (map dv_id ds) \<Longrightarrow> distinct (map dv_id (apply_change c ds))"
    unfolding n(1) using n(2,3) by auto
  show "dv_id ` set ds \<subseteq> dv_id ` set (apply_change c ds)"
    unfolding set_map [symmetric] n(1) by simp
qed

lemma change_rows:
  assumes "change_ok L S c ds" "list_all device_row_wf ds"
  shows "list_all device_row_wf (apply_change c ds)"
proof (cases c)
  case (Added d)
  then show ?thesis using assms by (auto simp: device_row_wf_def)
qed (use assms in \<open>auto simp: list_all_iff set_update_where device_row_wf_def unrevoked_def
      rotatable_def fenced_device_def\<close>)

lemma auth_wf_alt: "auth_wf db \<longleftrightarrow> distinct (map dv_id (db_devices db)) \<and> list_all device_row_wf (db_devices db)
   \<and> distinct (db_scopes db) \<and> (\<forall>r \<in> set (db_scopes db). scope_checks r \<and> sc_device_id r \<in> dv_id ` set (db_devices db))"
  by (simp add: auth_wf_def device_row_wf_def list_all_iff)

lemma scope_rows_checks: "r \<in> set (scope_rows_of device ss) \<Longrightarrow> scope_checks r \<and> sc_device_id r = device"
  by (auto simp: scope_checks_def auth_scope_all_UNIV)

lemma auth_step_scopes:
  assumes "auth_step L S db db'" "auth_wf db"
  shows "distinct (db_scopes db')
    \<and> (\<forall>r \<in> set (db_scopes db'). scope_checks r \<and> sc_device_id r \<in> dv_id ` set (db_devices db'))"
proof -
  obtain ch where ch: "change_ok L S ch (db_devices db)" "db_devices db' = apply_change ch (db_devices db)"
    using auth_step_change [OF assms(1)] by blast
  have sup: "dv_id ` set (db_devices db) \<subseteq> dv_id ` set (db_devices db')"
    unfolding ch(2) by (rule change_ids_wf(2) [OF ch(1)])
  have dis: "distinct (db_scopes db)" using assms(2) by (simp add: auth_wf_alt)
  have old: "scope_checks r \<and> sc_device_id r \<in> dv_id ` set (db_devices db')" if "r \<in> set (db_scopes db)" for r
    using assms(2) sup that unfolding auth_wf_alt by blast
  have kept: ?thesis if "db_scopes db' = db_scopes db"
    unfolding that using dis old by blast
  show ?thesis using assms(1)
  proof (cases rule: auth_step_cases)
    case (create device_id random clock name scopes c)
    from create(2) show ?thesis
    proof (rule create_device_ok)
      fix nm secret at
      assume db': "db' = db\<lparr>db_devices := db_devices db @ [new_device (ul_print (al_uuid L) device_id) nm (hash_secret L secret) at],
           db_scopes := db_scopes db @ scope_rows_of (ul_print (al_uuid L) device_id) (scopes_in_order (set scopes))\<rparr>"
        and d: "distinct (db_scopes db) \<Longrightarrow> distinct (db_scopes db')"
      have "db_devices db' = db_devices db @ [new_device (ul_print (al_uuid L) device_id) nm (hash_secret L secret) at]"
          "db_scopes db' = db_scopes db @ scope_rows_of (ul_print (al_uuid L) device_id) (scopes_in_order (set scopes))"
        using db' by simp_all
      moreover have "ul_print (al_uuid L) device_id \<in> dv_id ` set (db_devices db')" unfolding calculation(1) by simp
      ultimately show ?thesis using d dis old scope_rows_checks by (metis Un_iff set_append)
    qed
  next
    case (rotate random clock device scopes c)
    from rotate(2) show ?thesis
    proof (rule rotate_device_ok)
      fix secret at
      assume n: "count_where (rotatable device) (db_devices db) \<noteq> 0"
        and sc: "db_scopes db' = delete_where (\<lambda>r. sc_device_id r = device) (db_scopes db)
           @ scope_rows_of device (scopes_in_order (set scopes))"
        and d: "distinct (db_scopes db) \<Longrightarrow> distinct (db_scopes db')"
      have "device \<in> dv_id ` set (db_devices db)" using n by (auto simp: count_where_0 rotatable_def)
      then have dev: "device \<in> dv_id ` set (db_devices db')" using sup by blast
      have "scope_checks r \<and> sc_device_id r \<in> dv_id ` set (db_devices db')" if r: "r \<in> set (db_scopes db')" for r
      proof (cases "r \<in> set (db_scopes db)")
        case True
        then show ?thesis by (rule old)
      next
        case False
        then have "r \<in> set (scope_rows_of device (scopes_in_order (set scopes)))"
          using r unfolding sc by (auto simp: set_delete_where)
        then show ?thesis using scope_rows_checks dev by metis
      qed
      then show ?thesis using d [OF dis] by blast
    qed
  next
    case (rotate_preserving random clock device c)
    from rotate_preserving(2) have "db_scopes db' = db_scopes db" by (rule rotate_preserving_ok) simp
    then show ?thesis by (rule kept)
  next
    case (revoke clock device m)
    from revoke have "db_scopes db' = db_scopes db" by (rule revoke_device_ok) simp
    then show ?thesis by (rule kept)
  next
    case (set_enabled clock device enabled m)
    from set_device_enabled_ok [OF this] have "db_scopes db' = db_scopes db" by auto
    then show ?thesis by (rule kept)
  next
    case same
    then show ?thesis by (intro kept)
  next
    case (touch device hash now)
    then have "db_scopes db' = db_scopes db" by simp
    then show ?thesis by (rule kept)
  qed
qed

lemma auth_step_wf: "auth_step L S db db' \<Longrightarrow> auth_wf db \<Longrightarrow> auth_wf db'"
proof -
  assume st: "auth_step L S db db'" and wf: "auth_wf db"
  obtain ch where ch: "change_ok L S ch (db_devices db)" "db_devices db' = apply_change ch (db_devices db)"
    using auth_step_change [OF st] by blast
  have "distinct (map dv_id (db_devices db'))"
    using change_ids_wf(1) [OF ch(1)] wf unfolding ch(2) auth_wf_alt by blast
  moreover have "list_all device_row_wf (db_devices db')"
    using change_rows [OF ch(1)] wf unfolding ch(2) auth_wf_alt by blast
  ultimately show ?thesis using auth_step_scopes [OF st wf] unfolding auth_wf_alt by blast
qed

interpretation auth_system: invariant_system "auth_step L S" auth_wf for L S
  by unfold_locales (rule auth_step_wf)

section \<open>Old tokens\<close>

lemma change_avoids_hash:
  assumes "change_ok L S c ds" "h \<notin> hash_secret L ` S"
    and "\<forall>d \<in> set ds. dv_id d = device \<longrightarrow> dv_token_hash d \<noteq> h"
  shows "\<forall>d \<in> set (apply_change c ds). dv_id d = device \<longrightarrow> dv_token_hash d \<noteq> h"
proof (cases c)
  case (Added d)
  then have "dv_token_hash d \<noteq> h" using assms(1,2) by auto
  then show ?thesis using assms(3) Added by auto
next
  case (Rotated p hash at)
  then have "hash \<noteq> h" using assms(1,2) by auto
  then show ?thesis using assms(3) Rotated by (auto simp: set_update_where)
qed (use assms(3) in \<open>auto simp: set_update_where\<close>)

lemma steps_avoid_hash:
  assumes "(auth_step L S)\<^sup>*\<^sup>* db db'" "h \<notin> hash_secret L ` S" "avoids_hash device h db"
  shows "avoids_hash device h db'"
  using assms(1,3)
proof (induction rule: rtranclp_induct)
  case (step y z)
  obtain c where "change_ok L S c (db_devices y)" "db_devices z = apply_change c (db_devices y)"
    using auth_step_change [OF step(2)] by blast
  then show ?case using change_avoids_hash [OF _ assms(2)] step.IH [OF step.prems] unfolding avoids_hash_def by metis
qed

lemma device_by_idD: "device_by_id device db = Some d \<Longrightarrow> d \<in> set (db_devices db) \<and> dv_id d = device"
  unfolding device_by_id_def by (auto dest: find_SomeD)

lemma avoided_hash_refused:
  assumes "parse_token L token = Inr (device_id, secret)"
    and "avoids_hash (ul_print (al_uuid L) device_id) (hash_secret L secret) db"
  shows "authenticate L clock meanwhile token db = (db, Inl AuthUnauthorized)"
    "snd (authenticate_fenced L device_id (hash_secret L secret) (hash_secret L secret) now db) = Inl AuthUnauthorized"
proof -
  show "authenticate L clock meanwhile token db = (db, Inl AuthUnauthorized)"
    using assms
    by (auto simp: authenticate_def map_err_def avoids_hash_def constant_time_hash_matches_def
        split: option.splits dest!: device_by_idD)
  have "count_where (fenced_device (ul_print (al_uuid L) device_id) (hash_secret L secret)) (db_devices db) = 0"
    using assms(2) by (auto simp: count_where_0 fenced_device_def avoids_hash_def)
  then show "snd (authenticate_fenced L device_id (hash_secret L secret) (hash_secret L secret) now db) = Inl AuthUnauthorized"
    using assms(2)
    by (auto simp: authenticate_fenced_def transact_def avoids_hash_def constant_time_hash_matches_def Let_def
        split: option.splits dest!: device_by_idD)
qed

lemma unique_device:
  "auth_wf db \<Longrightarrow> d \<in> set (db_devices db) \<Longrightarrow> e \<in> set (db_devices db) \<Longrightarrow> dv_id d = dv_id e \<Longrightarrow> d = e"
  unfolding auth_wf_def by (metis distinct_map inj_onD)

text \<open>
  C0: once a device has a new token, the old one is refused for ever, by new requests and by requests
  that had passed the first check before the rotation, as long as no later secret has the same hash.
\<close>

theorem rotated_token_refused:
  assumes wf: "auth_wf db"
    and old: "parse_token L token = Inr (device_id, secret)"
    and rotated: "rotate_device_preserving_scopes L (Some fresh) clock (ul_print (al_uuid L) device_id) db = (db1, Inr c)"
    and later: "(auth_step L S)\<^sup>*\<^sup>* db1 db2"
    and secrets: "hash_secret L secret \<notin> hash_secret L ` insert fresh S"
  shows "authenticate L clk meanwhile token db2 = (db2, Inl AuthUnauthorized)
    \<and> snd (authenticate_fenced L device_id (hash_secret L secret) (hash_secret L secret) now db2) = Inl AuthUnauthorized"
proof -
  let ?dev = "ul_print (al_uuid L) device_id"
  from rotated obtain at where db1: "db1 = db\<lparr>db_devices := update_where (unrevoked ?dev)
        (rotate_row (hash_secret L fresh) at) (db_devices db)\<rparr>"
      and n: "count_where (unrevoked ?dev) (db_devices db) \<noteq> 0"
    by (rule rotate_preserving_ok) simp
  obtain e where e: "e \<in> set (db_devices db)" "unrevoked ?dev e" using n by (auto simp: count_where_0)
  have "unrevoked ?dev d" if "d \<in> set (db_devices db)" "dv_id d = ?dev" for d
    using unique_device [OF wf that(1) e(1)] e(2) that(2) by (simp add: unrevoked_def)
  then have "avoids_hash ?dev (hash_secret L secret) db1"
    using secrets unfolding db1 avoids_hash_def by (auto simp: set_update_where)
  then have "avoids_hash ?dev (hash_secret L secret) db2"
    using steps_avoid_hash [OF later] secrets by blast
  from avoided_hash_refused [OF old this] show ?thesis by blast
qed

section \<open>Revoked devices\<close>

lemma change_revoked:
  assumes "change_ok L S c ds" "device \<in> dv_id ` set ds"
    and "\<forall>d \<in> set ds. dv_id d = device \<longrightarrow> dv_revoked_at d \<noteq> None \<and> \<not> dv_enabled d"
  shows "\<forall>d \<in> set (apply_change c ds). dv_id d = device \<longrightarrow> dv_revoked_at d \<noteq> None \<and> \<not> dv_enabled d"
proof (cases c)
  case (Added d)
  then have "dv_id d \<noteq> device" using assms(1,2) by (auto simp: list_all_iff)
  then show ?thesis using assms(3) Added by auto
qed (use assms(3) in \<open>auto simp: set_update_where unrevoked_def\<close>)

lemma steps_revoked:
  assumes "(auth_step L S)\<^sup>*\<^sup>* db db'" "revoked_device device db"
  shows "revoked_device device db'"
  using assms
proof (induction rule: rtranclp_induct)
  case (step y z)
  obtain c where c: "change_ok L S c (db_devices y)" "db_devices z = apply_change c (db_devices y)"
    using auth_step_change [OF step(2)] by blast
  then show ?case using change_revoked [OF c(1)] change_ids_wf(2) [OF c(1)] step.IH [OF step.prems]
    unfolding revoked_device_def c(2) by blast
qed

lemma revoke_revokes:
  assumes "revoke_device_with_outcome U clock device db = (db', Inr m)"
  shows "revoked_device device db'" "ul_print U (lm_id m) = device"
proof -
  from assms obtain at where db': "db' = db\<lparr>db_devices := update_where (\<lambda>d. dv_id d = device) (revoke_row at) (db_devices db)\<rparr>"
      and d: "device \<in> dv_id ` set (db_devices db)" and p: "ul_print U (lm_id m) = device"
    by (rule revoke_device_ok) simp
  show "ul_print U (lm_id m) = device" by (rule p)
  have ids: "dv_id ` set (db_devices db') = dv_id ` set (db_devices db)"
  proof -
    have "map dv_id (db_devices db') = map dv_id (db_devices db)" unfolding db' by (simp add: map_update_where)
    then show ?thesis by (metis set_map)
  qed
  show "revoked_device device db'" unfolding revoked_device_def ids
    using d by (auto simp: db' set_update_where)
qed

lemma revoked_device_found:
  assumes "revoked_device device db"
  obtains d where "device_by_id device db = Some d" "dv_revoked_at d \<noteq> None" "\<not> dv_enabled d"
proof -
  obtain d where "device_by_id device db = Some d"
    using assms find_ex [of _ "db_devices db" "\<lambda>d. dv_id d = device"]
    unfolding device_by_id_def revoked_device_def by blast
  then show ?thesis using that device_by_idD assms unfolding revoked_device_def by metis
qed

text \<open>
  C0: a revocation is final. Whatever operations follow, the device cannot authenticate, the gateway
  sees it revoked, and enabling it again is refused.
\<close>

theorem revocation_is_final:
  assumes wf: "auth_wf db"
    and revoked: "revoke_device_with_outcome (al_uuid L) clock device db = (db1, Inr m)"
    and later: "(auth_step L S)\<^sup>*\<^sup>* db1 db2"
    and token: "parse_token L token = Inr (lm_id m, secret)"
  shows "snd (authenticate L clk meanwhile token db2) \<in> {Inl AuthRevoked, Inl AuthUnauthorized}
    \<and> gateway_authorization_state L (lm_id m) db2 = Inr GatewayRevoked
    \<and> is_device_enabled (al_uuid L) (lm_id m) db2 = Inr False
    \<and> set_device_enabled (al_uuid L) (Some now) device True db2 = (db2, Inl DevRevoked)"
proof -
  have p: "ul_print (al_uuid L) (lm_id m) = device" using revoke_revokes(2) [OF revoked] .
  have rev: "revoked_device device db2" using steps_revoked [OF later revoke_revokes(1) [OF revoked]] .
  then obtain d where d: "device_by_id device db2 = Some d" "dv_revoked_at d \<noteq> None" "\<not> dv_enabled d"
    by (rule revoked_device_found)
  have wf2: "auth_wf db2"
    using auth_system.steps_inv [of L S db db2] wf revoked later auth_step.revoke [of L S db clock device]
    by (metis converse_rtranclp_into_rtranclp fst_conv)
  have a: "snd (authenticate L clk meanwhile token db2) \<in> {Inl AuthRevoked, Inl AuthUnauthorized}"
    using d token by (simp add: authenticate_def map_err_def p)
  obtain ss where "collect_scopes AuthDatabase (scope_texts device db2) = Inr ss"
    using scopes_of_device [OF wf2, of AuthDatabase device] by blast
  then have g: "gateway_authorization_state L (lm_id m) db2 = Inr GatewayRevoked"
    using d by (simp add: gateway_authorization_state_def p)
  have parse: "parse_device_id (al_uuid L) device = Inr (lm_id m)"
    using revoked unfolding revoke_device_with_outcome_def transact_eq
    by (auto simp: and_then_eq_Inr Let_def split: if_splits)
  have "count_where (unrevoked device) (db_devices db2) = 0"
    using rev by (auto simp: count_where_0 unrevoked_def revoked_device_def)
  then have "set_device_enabled (al_uuid L) (Some now) device True db2 = (db2, Inl DevRevoked)"
    using d parse p by (auto simp: set_device_enabled_def map_err_def transact_def)
  then show ?thesis using a g d by (simp add: is_device_enabled_def p)
qed

section \<open>Tokens that work\<close>

lemma split_on_plain: "c \<notin> set a \<Longrightarrow> split_on c a = [a]"
  by (induction a) auto

lemma split_on_append: "c \<notin> set a \<Longrightarrow> split_on c (a @ c # b) = a # split_on c b"
  by (induction a) auto

lemma parse_issued_token:
  assumes "token_laws L device_id secret"
  shows "parse_token L (plaintext_token L device_id secret) = Inr (device_id, secret)"
proof -
  let ?u = "ul_print (al_uuid L) device_id" and ?s = "al_b64_encode L secret"
  have "split_on (CHR ''.'') (plaintext_token L device_id secret) = [token_version, ?u, ?s]"
  proof -
    have "plaintext_token L device_id secret = token_version @ CHR ''.'' # ?u @ CHR ''.'' # ?s"
      by (simp add: plaintext_token_def)
    moreover have "CHR ''.'' \<notin> set token_version" by (simp add: token_version_def)
    moreover have "CHR ''.'' \<notin> set ?u" "CHR ''.'' \<notin> set ?s" using assms by (simp_all add: token_laws_def)
    ultimately show ?thesis by (simp add: split_on_append split_on_plain)
  qed
  then show ?thesis using assms by (simp add: parse_token_def parse_device_id_def token_laws_def)
qed

lemma device_by_id_unique:
  assumes "auth_wf db" "d \<in> set (db_devices db)"
  shows "device_by_id (dv_id d) db = Some d"
proof -
  obtain e where e: "device_by_id (dv_id d) db = Some e"
    using find_ex [of d "db_devices db" "\<lambda>e. dv_id e = dv_id d"] assms(2) by (auto simp: device_by_id_def)
  then show ?thesis using unique_device [OF assms(1) _ assms(2)] device_by_idD by metis
qed

lemma authenticate_active:
  assumes wf: "auth_wf db" and d: "d \<in> set (db_devices db)" "dv_id d = ul_print (al_uuid L) device_id"
      "dv_enabled d" "dv_revoked_at d = None" "dv_token_hash d = hash_secret L secret"
    and token: "parse_token L token = Inr (device_id, secret)"
  shows "\<exists>db' a. authenticate L (Some now) (\<lambda>x. x) token db = (db', Inr a)
    \<and> ad_id a = device_id \<and> ad_name a = dv_name d \<and> ad_scopes a = granted (dv_id d) db"
proof -
  let ?p = "fenced_device (dv_id d) (hash_secret L secret)"
  let ?db = "db\<lparr>db_devices := update_where ?p (touch_row now) (db_devices db)\<rparr>"
  have v: "dv_credential_version d = 2" using wf d(1) by (simp add: auth_wf_def)
  have f: "?p d" using d v by (simp add: fenced_device_def)
  have n: "count_where ?p (db_devices db) = 1"
    using wf d(1) f by (intro count_where_unique [of dv_id]) (auto simp: auth_wf_def fenced_device_def)
  have wf': "auth_wf ?db"
  proof -
    have "change_ok L {} (Touched (dv_id d) (hash_secret L secret) now) (db_devices db)" by simp
    from change_ids_wf [OF this] change_rows [OF this] show ?thesis
      using wf unfolding auth_wf_alt by auto
  qed
  have mem: "touch_row now d \<in> set (db_devices ?db)" using d(1) f by (auto simp: set_update_where)
  have look: "device_by_id (dv_id d) ?db = Some (touch_row now d)"
    using device_by_id_unique [OF wf' mem] by simp
  obtain ss where ss: "collect_scopes AuthDatabase (scope_texts (dv_id d) ?db) = Inr ss" "set ss = granted (dv_id d) ?db"
    using scopes_of_device [OF wf', of AuthDatabase "dv_id d"] by auto
  have g: "granted (dv_id d) ?db = granted (dv_id d) db" by (simp add: granted_def)
  have first: "device_by_id (dv_id d) db = Some d" by (rule device_by_id_unique [OF wf d(1)])
  show ?thesis unfolding authenticate_def token
    using first v d(3-5) n look ss g
    by (simp add: map_err_def constant_time_hash_matches_def authenticate_fenced_def transact_def Let_def
        flip: d(2))
qed

text \<open>
  C0: the token given out for a new device authenticates it, with the identifier, name and scopes it was
  created with.
\<close>

theorem created_device_authenticates:
  assumes wf: "auth_wf db" and laws: "token_laws L device_id secret"
    and created: "create_device L device_id (Some secret) clock name scopes db = (db1, Inr c)"
  shows "\<exists>db2 a. authenticate L (Some now) (\<lambda>x. x) (cd_token c) db1 = (db2, Inr a)
    \<and> ad_id a = cd_id c \<and> ad_name a = cd_name c \<and> ad_scopes a = cd_scopes c"
proof -
  let ?dev = "ul_print (al_uuid L) device_id"
  from created obtain nm at where new: "list_all (\<lambda>r. dv_id r \<noteq> ?dev) (db_devices db)"
      and db1: "db1 = db\<lparr>db_devices := db_devices db @ [new_device ?dev nm (hash_secret L secret) at],
         db_scopes := db_scopes db @ scope_rows_of ?dev (scopes_in_order (set scopes))\<rparr>"
      and c: "c = \<lparr>cd_id = device_id, cd_name = nm, cd_created_at = at, cd_scopes = set scopes,
         cd_token = plaintext_token L device_id secret\<rparr>"
    by (rule create_device_ok) simp
  let ?d = "new_device ?dev nm (hash_secret L secret) at"
  have "auth_step L {secret} db db1"
    using auth_step.create [of "Some secret" "{secret}" L db device_id clock name scopes] created by simp
  then have wf1: "auth_wf db1" using wf by (rule auth_step_wf)
  have old: "sc_device_id r \<noteq> ?dev" if "r \<in> set (db_scopes db)" for r
    using wf new that by (auto simp: auth_wf_def list_all_iff)
  have g: "granted ?dev db1 = set scopes"
  proof -
    have "s \<in> granted ?dev db1 \<longleftrightarrow> s \<in> set scopes" for s
      using old [of "\<lparr>sc_device_id = ?dev, sc_scope = auth_scope_as_str s\<rparr>"]
      by (auto simp: granted_def db1)
    then show ?thesis by blast
  qed
  have mem: "?d \<in> set (db_devices db1)" by (simp add: db1)
  from authenticate_active [OF wf1 mem _ _ _ _ parse_issued_token [OF laws], where now = now]
  show ?thesis using g by (simp add: c)
qed

section \<open>Authorization revisions\<close>

lemma be_bytes_inject: "n < 256 ^ k \<Longrightarrow> m < 256 ^ k \<Longrightarrow> be_bytes k n = be_bytes k m \<Longrightarrow> n = m"
  by (metis be_value_be_bytes)

lemma uuid_bytes_append: "uuid_bytes u @ r = uuid_bytes v @ s \<longleftrightarrow> u = v \<and> r = s"
proof -
  have b: "unat u < 256 ^ 16" for u :: uuid using unsigned_less [of u, where 'a = nat] by simp
  have "u = v" if "uuid_bytes u = uuid_bytes v"
    using be_bytes_inject [OF b b that [unfolded uuid_bytes_def]] by (rule unsigned_word_eqI)
  then show ?thesis by (auto simp: uuid_bytes_def append_eq_append_conv)
qed

lemma length_i64_be_bytes: "length (i64_be_bytes x) = 8"
  by (simp add: i64_be_bytes_def)

lemma i64_bytes_append:
  assumes "in_i64 x" "in_i64 y"
  shows "i64_be_bytes x @ r = i64_be_bytes y @ s \<longleftrightarrow> x = y \<and> r = s"
  using i64_be_bytes_inject [OF assms] by (auto simp: append_eq_append_conv length_i64_be_bytes)

text \<open>The bytes that are hashed determine the credential, the flags and the scopes.\<close>

lemma revision_input_inject:
  assumes "length h < 2 ^ 64" "length h' < 2 ^ 64" "in_i64 v" "in_i64 v'"
    and "\<forall>t \<in> set_option r. in_i64 t" "\<forall>t \<in> set_option r'. in_i64 t"
    and eq: "revision_input u h v e r S = revision_input u' h' v' e' r' S'"
  shows "u = u' \<and> h = h' \<and> v = v' \<and> e = e' \<and> r = r' \<and> S = S'"
proof -
  define ss ss' where "ss = map auth_scope_as_str (scopes_in_order S)" and "ss' = map auth_scope_as_str (scopes_in_order S')"
  have len: "length (scopes_in_order S) = length ss" "length (scopes_in_order S') = length ss'"
    by (simp_all add: ss_def ss'_def)
  have small: "length (auth_scope_as_str s) < 2 ^ 64" for s by (cases s) simp_all
  then have l: "list_all (\<lambda>s. length s < 2 ^ 64) ss" "list_all (\<lambda>s. length s < 2 ^ 64) ss'"
    by (simp_all add: ss_def ss'_def list_all_iff)
  note eq = eq [unfolded revision_input_def len uuid_bytes_append ss_def [symmetric] ss'_def [symmetric]]
  then have u: "u = u'" by blast
  have h: "h = h'" and v: "v = v'" and e: "char_of (if e then 1 else 0 :: nat) = (char_of (if e' then 1 else 0 :: nat) :: char)"
    and rest: "(case r of Some v \<Rightarrow> char_of (1 :: nat) # i64_be_bytes v | None \<Rightarrow> [char_of (0 :: nat)])
        @ be_bytes 8 (length ss) @ concat (map frame ss)
      = (case r' of Some v \<Rightarrow> char_of (1 :: nat) # i64_be_bytes v | None \<Rightarrow> [char_of (0 :: nat)])
        @ be_bytes 8 (length ss') @ concat (map frame ss')"
    using framing.enc_append_inject [OF assms(1,2) conjunct2 [OF eq]] by (auto simp: i64_bytes_append [OF assms(3,4)])
  have tag: "(char_of (0 :: nat) :: char) \<noteq> char_of (1 :: nat)" by (simp add: char_of_eq_iff)
  have e: "e = e'" using e tag by (cases e; cases e') auto
  have "r = r' \<and> be_bytes 8 (length ss) @ concat (map frame ss) = be_bytes 8 (length ss') @ concat (map frame ss')"
    using rest tag tag [symmetric] assms(5,6) by (cases r; cases r') (auto simp: i64_bytes_append)
  then have r: "r = r'" and "concat (map frame ss) = concat (map frame ss')"
    by (auto simp: append_eq_append_conv)
  then have "ss = ss'" using framing.concat_inject [OF l] by blast
  then have "scopes_in_order S = scopes_in_order S'"
    unfolding ss_def ss'_def by (rule map_injective) (simp add: inj_def)
  then have "S = S'" by (metis scopes_in_order(1))
  then show ?thesis using u h v e r by blast
qed

section \<open>Examples\<close>

lemma demo_laws: "token_laws demo_auth_lib 1 demo_secret"
  by (simp add: token_laws_def demo_auth_lib_def demo_uuid_text_def demo_secret_def secret_bytes_def secret_text_length_def)

lemma demo_checks: "device_checks (new_device demo_uuid_text ''Desk'' demo_secret 5)"
proof -
  have a: "list_all (\<lambda>c. byte_of c < 128) demo_uuid_text" "list_all (\<lambda>c. byte_of c < 128) ''Desk''"
    by (simp_all add: demo_uuid_text_def byte_of_def)
  show ?thesis
    unfolding device_checks_def new_device_simps sql_length_def utf8_decode_ascii [OF a(1)] utf8_decode_ascii [OF a(2)]
    by (simp add: new_device_def demo_uuid_text_def demo_secret_def sql_trim_def byte_of_def hex_code_point_def)
qed

lemma demo_created:
  "create_device demo_auth_lib 1 (Some demo_secret) (Some 5) ''Desk'' [ScNotifyWrite] empty_relay_db =
     (demo_device_db, Inr \<lparr>cd_id = 1, cd_name = ''Desk'', cd_created_at = 5, cd_scopes = {ScNotifyWrite},
        cd_token = demo_token\<rparr>)"
proof -
  have a: "list_all (\<lambda>c. byte_of c < 128) ''Desk''" by (simp add: byte_of_def)
  have "trim_chars (utf8_decode ''Desk'') = utf8_decode ''Desk''" "length (utf8_decode ''Desk'') = 4"
    unfolding utf8_decode_ascii [OF a] by (simp_all add: trim_chars_def is_whitespace_def byte_of_def)
  moreover have "utf8_encode (utf8_decode ''Desk'') = ''Desk''"
    using utf8_valid_ascii [OF a] unfolding utf8_valid_def by (rule conjunct2)
  ultimately have "validate_device_name ''Desk'' = Inr ''Desk''"
    unfolding validate_device_name_def Let_def by (simp only:) simp
  moreover have "scopes_in_order {ScNotifyWrite} = [ScNotifyWrite]"
    by (simp add: scopes_in_order_def auth_scope_all_def)
  ultimately show ?thesis
    using demo_checks
    by (simp add: create_device_def validate_scopes_def issue_device_credential_def insert_device_def
        insert_scopes_def insert_scope_def scope_checks_def auth_scope_all_UNIV demo_auth_lib_def hash_secret_def
        transact_def empty_relay_db_def demo_device_db_def demo_token_def image_iff)
       (metis auth_scope_as_str.simps(1))
qed

lemma demo_wf: "auth_wf demo_device_db" "auth_wf empty_relay_db"
  by (auto simp: auth_wf_def demo_device_db_def empty_relay_db_def scope_checks_def auth_scope_all_def)

theorem created_device_authenticates_witness:
  "\<exists>db2 a. authenticate demo_auth_lib (Some 9) (\<lambda>x. x) demo_token demo_device_db = (db2, Inr a)
    \<and> ad_id a = 1 \<and> ad_name a = ''Desk'' \<and> ad_scopes a = {ScNotifyWrite}"
  using created_device_authenticates [OF demo_wf(2) demo_laws demo_created, of 9] by simp

lemma demo_rotated:
  "\<exists>db1 c. rotate_device_preserving_scopes demo_auth_lib (Some (replicate 32 (CHR ''B''))) (Some 9)
     (ul_print (al_uuid demo_auth_lib) 1) demo_device_db = (db1, Inr c)"
proof -
  have "load_scopes demo_uuid_text db = Inr {ScNotifyWrite}" if "db_scopes db = db_scopes demo_device_db" for db
    using that by (simp add: load_scopes_def scope_texts_def select_ordered_def demo_device_db_def auth_scope_from_str_def
        map_err_def validate_scopes_def)
  then show ?thesis
    by (simp add: rotate_device_preserving_scopes_def parse_device_id_def demo_auth_lib_def issue_device_credential_def
        map_err_def transact_def demo_device_db_def count_where_def unrevoked_def)
qed

theorem rotated_token_refused_witness:
  "\<exists>db1 c. rotate_device_preserving_scopes demo_auth_lib (Some (replicate 32 (CHR ''B''))) (Some 9)
     (ul_print (al_uuid demo_auth_lib) 1) demo_device_db = (db1, Inr c)
     \<and> authenticate demo_auth_lib (Some 10) (\<lambda>x. x) demo_token db1 = (db1, Inl AuthUnauthorized)"
proof -
  obtain db1 c where r: "rotate_device_preserving_scopes demo_auth_lib (Some (replicate 32 (CHR ''B''))) (Some 9)
     (ul_print (al_uuid demo_auth_lib) 1) demo_device_db = (db1, Inr c)" using demo_rotated by blast
  have "hash_secret demo_auth_lib demo_secret \<notin> hash_secret demo_auth_lib ` insert (replicate 32 (CHR ''B'')) {}"
    by (simp add: hash_secret_def demo_auth_lib_def demo_secret_def)
  from rotated_token_refused [OF demo_wf(1) parse_issued_token [OF demo_laws] r rtranclp.rtrancl_refl this]
  show ?thesis using r by (auto simp: demo_token_def)
qed

lemma demo_revoked:
  "\<exists>db1 m. revoke_device_with_outcome (al_uuid demo_auth_lib) (Some 9) demo_uuid_text demo_device_db = (db1, Inr m)
     \<and> lm_id m = 1"
  by (simp add: revoke_device_with_outcome_def parse_device_id_def demo_auth_lib_def map_err_def transact_def
      demo_device_db_def count_where_def)

theorem revocation_is_final_witness:
  "\<exists>db1 m. revoke_device_with_outcome (al_uuid demo_auth_lib) (Some 9) demo_uuid_text demo_device_db = (db1, Inr m)
     \<and> gateway_authorization_state demo_auth_lib 1 db1 = Inr GatewayRevoked
     \<and> set_device_enabled (al_uuid demo_auth_lib) (Some 10) demo_uuid_text True db1 = (db1, Inl DevRevoked)"
proof -
  obtain db1 m where r: "revoke_device_with_outcome (al_uuid demo_auth_lib) (Some 9) demo_uuid_text demo_device_db = (db1, Inr m)"
      and m: "lm_id m = 1" using demo_revoked by blast
  have "parse_token demo_auth_lib demo_token = Inr (lm_id m, demo_secret)"
    unfolding m demo_token_def by (rule parse_issued_token [OF demo_laws])
  from revocation_is_final [OF demo_wf(1) r rtranclp.rtrancl_refl this, where now = 10] show ?thesis using r m by auto
qed

end
