(* ===== verification/Gateway_Correct.thy ===== *)
theory Gateway_Correct
  imports Gateway_Session Device_Correct "HOL-Library.Multiset"
begin

text \<open>
Theorems about the gateway. The registry and the database are seen together with the handshakes that
  are under way, so that a revocation can fall between any two of their reads: a revoked device stays
  disconnected. A session, driven by any sequence of events, answers every command it took exactly once.
  A request for control of runs succeeds only for a device that was authorized before and after it.
\<close>

section \<open>Definitions\<close>

text \<open>
  The steps of the registry besides registration: the sections under its lock and what follows them,
  and everything a session does with its own channel.
\<close>

inductive registry_step :: "registry_state \<Rightarrow> registry_state \<Rightarrow> bool" where
  cleanup: "registry_step st (fst (cleanup device_id connection_id generation st))"
| pong: "registry_step st (fst (mark_pong device_id connection_id generation at st))"
| invalidate: "registry_step st (fst (invalidate_locked device_id st))"
| channel: "registry_step st (update_channel connection_id f st)"
| send: "registry_step st (fst (send_command connection_id command st))"

text \<open>
  The relay seen by the gateway: database, registry, and the handshakes that have read the counter of
  invalidations or hold a lease.
\<close>

record gateway_world =
  gw_db :: relay_db
  gw_registry :: registry_state
  gw_reading :: "(authenticated_device \<times> u64) list"
  gw_leased :: "(uuid \<times> prepared_lease) list"

inductive world_step :: "auth_lib \<Rightarrow> string set \<Rightarrow> gateway_world \<Rightarrow> gateway_world \<Rightarrow> bool" for L S where
  database: "auth_step L S (gw_db w) db' \<Longrightarrow> world_step L S w (w\<lparr>gw_db := db'\<rparr>)"
| registry: "registry_step (gw_registry w) reg \<Longrightarrow> world_step L S w (w\<lparr>gw_registry := reg\<rparr>)"
| counter: "world_step L S w
    (w\<lparr>gw_reading := (a, invalidation_generation (ad_id a) (gw_registry w)) # gw_reading w\<rparr>)"
| lease: "(a, generation) \<in> set (gw_reading w) \<Longrightarrow> initial_lease L a (gw_db w) = Inr authorization \<Longrightarrow>
    world_step L S w (w\<lparr>gw_leased :=
      (ad_id a, \<lparr>pl_authorization = authorization, pl_invalidation_generation = generation\<rparr>) # gw_leased w\<rparr>)"
| register: "(device_id, lease) \<in> set (gw_leased w) \<Longrightarrow>
    world_step L S w (w\<lparr>gw_registry := fst (register_locked connection_id device_id connected_at version capabilities
       \<lparr>au_revision = ls_credential_revision (pl_authorization lease),
        au_invalidation_generation = pl_invalidation_generation lease\<rparr> (gw_registry w))\<rparr>)"

definition handshakes_wf :: "gateway_world \<Rightarrow> bool" where
  "handshakes_wf w \<longleftrightarrow>
     (\<forall>(a, g) \<in> set (gw_reading w). g \<le> invalidation_generation (ad_id a) (gw_registry w))
     \<and> (\<forall>(d, l) \<in> set (gw_leased w). pl_invalidation_generation l \<le> invalidation_generation d (gw_registry w))"

definition shut_out :: "string \<Rightarrow> uuid \<Rightarrow> gateway_world \<Rightarrow> bool" where
  "shut_out device device_id w \<longleftrightarrow>
     revoked_device device (gw_db w)
     \<and> map_of (rg_active (gw_registry w)) device_id = None
     \<and> (\<forall>l. (device_id, l) \<in> set (gw_leased w) \<longrightarrow>
          pl_invalidation_generation l < invalidation_generation device_id (gw_registry w))"

definition pending_origin :: "gateway_session \<Rightarrow> pending_request \<Rightarrow> bool" where
  "pending_origin s p \<longleftrightarrow> (\<exists>c \<in> set (se_taken s). gc_response c = pq_response p
     \<and> gc_generation c = se_generation s \<and> pq_expected p = kind_of_action (gc_action c))"

definition answer_origin :: "gateway_session \<Rightarrow> nat \<times> answer \<Rightarrow> bool" where
  "answer_origin s x \<longleftrightarrow> (\<forall>r. snd x = Answered (Inr r) \<longrightarrow>
     validate_response r = Inr ()
     \<and> (\<exists>c \<in> set (se_taken s). gc_response c = fst x \<and> gc_generation c = se_generation s
          \<and> kind_matches (kind_of_action (gc_action c)) r))"

definition waiting :: "gateway_session \<Rightarrow> nat multiset" where
  "waiting s = mset (map (\<lambda>(_, p). pq_response p) (se_pending s))"

text \<open>
  Every reply channel that came with a command is in the log of answers or waits in the pending
  requests, never both and never twice.
\<close>

definition session_inv :: "gateway_session \<Rightarrow> bool" where
  "session_inv s \<longleftrightarrow>
     distinct (map fst (se_pending s))
     \<and> length (se_pending s) \<le> max_gateway_pending_requests
     \<and> length (se_ping_ids s) \<le> 3
     \<and> mset (map gc_response (se_taken s)) = mset (map fst (se_answers s)) + waiting s
     \<and> (\<forall>x \<in> set (se_pending s). pending_origin s (snd x))
     \<and> (\<forall>x \<in> set (se_answers s). answer_origin s x)"

definition demo_lease :: gateway_authorization_lease where
  "demo_lease = \<lparr>ls_device_id = 1, ls_scopes = {ScGatewayConnect, ScRunControl},
     ls_credential_revision = gateway_authorization_revision demo_auth_lib 1 demo_secret 2 True None {ScGatewayConnect, ScRunControl}\<rparr>"

definition demo_gateway_db :: relay_db where
  "demo_gateway_db = demo_device_db
     \<lparr>db_scopes := [\<lparr>sc_device_id = demo_uuid_text, sc_scope = ''gateway:connect''\<rparr>,
        \<lparr>sc_device_id = demo_uuid_text, sc_scope = ''job:control''\<rparr>]\<rparr>"

definition demo_registry :: registry_state where
  "demo_registry = fst (register_locked 7 1 5 ''1.0'' (UNIV :: gateway_capability set)
     \<lparr>au_revision = ls_credential_revision demo_lease, au_invalidation_generation = 0\<rparr> empty_registry)"

definition demo_cancel_reply :: cancel_run_result where
  "demo_cancel_reply = \<lparr>cr_accepted = True, cr_run_handle = ''run_'' @ replicate 32 (CHR ''a''),
     cr_desired_state = RemoteStopped, cr_phase = RemoteStopping\<rparr>"

definition demo_request_env :: request_env where
  "demo_request_env =
     \<lparr>qe_uuid = al_uuid demo_auth_lib,
      qe_dispatch = \<lparr>de_issued_at = 5, de_started = 5, de_response = 0, de_meanwhile = (\<lambda>x. x),
        de_serve = (\<lambda>reg. (reg, Reply (Inr (PCancelRun demo_cancel_reply))))\<rparr>,
      qe_db_before = demo_gateway_db, qe_db_after = demo_gateway_db\<rparr>"

definition demo_world :: gateway_world where
  "demo_world = \<lparr>gw_db = demo_device_db, gw_registry = demo_registry, gw_reading = [],
     gw_leased = [(1, \<lparr>pl_authorization = demo_lease, pl_invalidation_generation = 0\<rparr>)]\<rparr>"

definition demo_late_registry :: registry_state where
  "demo_late_registry = fst (register_locked 8 1 9 ''1.0'' (UNIV :: gateway_capability set)
     \<lparr>au_revision = ls_credential_revision demo_lease, au_invalidation_generation = 0\<rparr>
     (fst (invalidate_locked 1 demo_registry)))"

definition demo_device_info :: device_info_result where
  "demo_device_info = \<lparr>di_schema_version = 5, di_device_name = ''Desk'', di_client_version = ''1.0'',
     di_capabilities = [DeviceInfoV5]\<rparr>"

definition demo_json :: json_lib where
  "demo_json =
     \<lparr>jl_client_from = (\<lambda>s.
        if s = ''ack'' then Some (RequestAck \<lparr>ra_request_id = demo_uuid_text, ra_generation = 1, ra_accepted = True\<rparr>)
        else if s = ''response''
        then Some (Response \<lparr>rx_request_id = demo_uuid_text, rx_generation = 1, rx_result = PGetDeviceInfo demo_device_info\<rparr>)
        else None),
      jl_client_to = (\<lambda>_. None), jl_server_from = (\<lambda>_. None), jl_server_to = (\<lambda>_. Some ''frame'')\<rparr>"

definition demo_env :: session_env where
  "demo_env = \<lparr>sn_uuid = al_uuid demo_auth_lib, sn_json = demo_json, sn_send = SendDone, sn_unix_ms = 10, sn_instant = 10,
     sn_new_id = demo_uuid_text, sn_meanwhile = (\<lambda>reg. reg)\<rparr>"

definition demo_command :: "nat \<Rightarrow> gateway_command" where
  "demo_command response = \<lparr>gc_generation = 1, gc_issued_at = 10, gc_expires_at = 30010, gc_deadline = 30010,
     gc_action = AGetDeviceInfo, gc_response = response\<rparr>"

definition demo_events :: "(session_env \<times> session_event) list" where
  "demo_events = map (Pair demo_env)
     [EvCommand (Some (demo_command 3)), EvMessage (Some (MText ''ack'')), EvMessage (Some (MText ''response'')),
      EvCommand (Some (demo_command 4)), EvControl None]"

section \<open>The counter of invalidations only grows\<close>

lemma saturating_grows: "(g :: u64) \<le> u_saturating_add g 1"
  "g \<noteq> - 1 \<Longrightarrow> g < u_saturating_add g 1"
proof -
  have b: "unat g < 2 ^ 64" using unsigned_less [of g, where 'a = nat] by simp
  have m: "unat (- 1 :: u64) = 2 ^ 64 - 1" by (simp add: unsigned_minus_1_eq_mask mask_eq_exp_minus_1)
  have c: "unat (g + 1) = unat g + 1" if "unat g + 1 < 2 ^ 64"
    using that by (simp add: unat_word_ariths(1))
  show "g \<le> u_saturating_add g 1"
    using b m c by (auto simp: u_saturating_add_def word_le_nat_alt)
  show "g < u_saturating_add g 1" if "g \<noteq> - 1"
  proof -
    have "unat g \<noteq> 2 ^ 64 - 1" using that m by (metis unsigned_word_eqI)
    then show ?thesis using b c by (auto simp: u_saturating_add_def word_less_nat_alt)
  qed
qed

lemma counter_update: "counter (AList.update k g al) j = (if j = k then g else counter al j)"
  by (simp add: counter_def update_conv')

lemma update_channel_simps [simp]:
  "rg_active (update_channel c f st) = rg_active st"
  "rg_generations (update_channel c f st) = rg_generations st"
  "rg_invalidation_generations (update_channel c f st) = rg_invalidation_generations st"
  by (simp_all add: update_channel_def split: option.splits)

lemma invalidation_update_channel [simp]:
  "invalidation_generation d (update_channel c f st) = invalidation_generation d st"
  by (simp add: invalidation_generation_def)

lemma register_locked_invalidation [simp]:
  "invalidation_generation d (fst (register_locked c e t v caps a st)) = invalidation_generation d st"
  by (auto simp: register_locked_def invalidation_generation_def Let_def split: option.splits)

lemma registry_step_invalidation:
  assumes "registry_step st st'"
  shows "invalidation_generation d st \<le> invalidation_generation d st'"
  using assms
proof cases
  case (cleanup device_id connection_id generation)
  then show ?thesis by (simp add: cleanup_def invalidation_generation_def)
next
  case (pong device_id connection_id generation at)
  then show ?thesis by (simp add: mark_pong_def invalidation_generation_def split: option.splits)
next
  case (invalidate device_id)
  then show ?thesis using saturating_grows(1)
    by (simp add: invalidate_locked_def invalidation_generation_def counter_update)
next
  case (send connection_id command)
  then show ?thesis by (auto simp: send_command_def split: option.splits)
qed simp

lemma registry_step_absent:
  assumes "registry_step st st'" "map_of (rg_active st) d = None"
  shows "map_of (rg_active st') d = None"
  using assms(1)
proof cases
  case (cleanup device_id connection_id generation)
  then show ?thesis using assms(2) by (simp add: cleanup_def delete_conv')
next
  case (pong device_id connection_id generation at)
  then show ?thesis using assms(2) by (auto simp: mark_pong_def update_conv' split: option.splits)
next
  case (invalidate device_id)
  then show ?thesis using assms(2) by (simp add: invalidate_locked_def delete_conv')
next
  case (send connection_id command)
  then show ?thesis using assms(2) by (auto simp: send_command_def split: option.splits)
qed (use assms(2) in simp)

lemma register_locked_other:
  assumes "map_of (rg_active st) d = None"
    and "e \<noteq> d \<or> au_invalidation_generation a \<noteq> invalidation_generation d st"
  shows "map_of (rg_active (fst (register_locked c e t v caps a st))) d = None"
  using assms by (auto simp: register_locked_def Let_def update_conv' split: option.splits)

lemma world_step_handshakes:
  assumes "world_step L S w w'" "handshakes_wf w"
  shows "handshakes_wf w'"
  using assms(1)
proof cases
  case (registry reg)
  have "invalidation_generation d (gw_registry w) \<le> invalidation_generation d reg" for d
    by (rule registry_step_invalidation [OF registry(2)])
  then show ?thesis using assms(2) registry(1) unfolding handshakes_wf_def by (fastforce intro: order_trans)
next
  case (lease a generation authorization)
  then show ?thesis using assms(2) unfolding handshakes_wf_def by auto
qed (use assms(2) in \<open>auto simp: handshakes_wf_def\<close>)

interpretation handshakes: invariant_system "world_step L S" handshakes_wf for L S
  by unfold_locales (rule world_step_handshakes)

section \<open>A revoked device stays disconnected\<close>

lemma step_revoked: "auth_step L S db db' \<Longrightarrow> revoked_device device db \<Longrightarrow> revoked_device device db'"
  using steps_revoked [of L S db db' device] by blast

lemma revoked_no_lease:
  assumes "revoked_device (ul_print (al_uuid L) (ad_id a)) db"
  shows "initial_lease L a db \<noteq> Inr lease"
proof -
  obtain d where "device_by_id (ul_print (al_uuid L) (ad_id a)) db = Some d" "dv_revoked_at d \<noteq> None"
    using assms by (rule revoked_device_found)
  then show ?thesis
    by (auto simp: initial_lease_def gateway_authorization_state_def and_then_def map_err_def
        split: sum.splits)
qed

lemma world_step_shut_out:
  assumes "world_step L S w w'" "shut_out (ul_print (al_uuid L) device_id) device_id w"
  shows "shut_out (ul_print (al_uuid L) device_id) device_id w'"
  using assms(1)
proof cases
  case (database db')
  then show ?thesis using assms(2) step_revoked [OF database(2)]
    by (simp add: shut_out_def)
next
  case (registry reg)
  then show ?thesis
    using assms(2) registry_step_absent [OF registry(2)] registry_step_invalidation [OF registry(2), of device_id]
    by (auto simp: shut_out_def intro: less_le_trans)
next
  case (counter a)
  then show ?thesis using assms(2) by (simp add: shut_out_def)
next
  case (lease a generation authorization)
  have "ad_id a \<noteq> device_id" using revoked_no_lease [of L a "gw_db w"] lease(3) assms(2) by (auto simp: shut_out_def)
  then show ?thesis using assms(2) lease(1) by (auto simp: shut_out_def)
next
  case (register e l c t v caps)
  let ?a = "\<lparr>au_revision = ls_credential_revision (pl_authorization l),
        au_invalidation_generation = pl_invalidation_generation l\<rparr>"
  have "e \<noteq> device_id \<or> au_invalidation_generation ?a \<noteq> invalidation_generation device_id (gw_registry w)"
    using assms(2) register(2) by (auto simp: shut_out_def)
  then have "map_of (rg_active (gw_registry w')) device_id = None"
    using register_locked_other assms(2) register(1) by (auto simp: shut_out_def)
  then show ?thesis using assms(2) register(1) by (simp add: shut_out_def)
qed

lemma world_steps_shut_out:
  assumes "(world_step L S)\<^sup>*\<^sup>* w w'" "shut_out (ul_print (al_uuid L) device_id) device_id w"
  shows "shut_out (ul_print (al_uuid L) device_id) device_id w'"
  using assms by (induction rule: rtranclp_induct) (auto intro: world_step_shut_out)

lemma world_steps_revoked:
  assumes "(world_step L S)\<^sup>*\<^sup>* w w'" "revoked_device device (gw_db w)"
  shows "revoked_device device (gw_db w')"
  using assms
proof (induction rule: rtranclp_induct)
  case (step y z)
  from step(2) show ?case
  proof cases
    case (database db')
    then show ?thesis using step_revoked [OF database(2)] step.IH step.prems by simp
  qed (use step.IH step.prems in simp_all)
qed simp

text \<open>
  C0: when a device is revoked, first in the database and then in the registry, it is disconnected for
  good: in spite of handshakes that had read the counter or obtained a lease before, and of everything
  that happens in between and afterwards, the device never has a connection again and requests to it
  are answered as offline. The counter of invalidations must not have reached its 64-bit maximum.
\<close>

theorem revoked_device_stays_disconnected:
  assumes wf: "handshakes_wf w"
    and revoked: "revoke_device_with_outcome (al_uuid L) clock device (gw_db w) = (db1, Inr m)"
    and between: "(world_step L S)\<^sup>*\<^sup>* (w\<lparr>gw_db := db1\<rparr>) w2"
    and bound: "invalidation_generation (lm_id m) (gw_registry w2) \<noteq> - 1"
    and later: "(world_step L S)\<^sup>*\<^sup>* (w2\<lparr>gw_registry := fst (invalidate_locked (lm_id m) (gw_registry w2))\<rparr>) w4"
  shows "connection (lm_id m) (gw_registry w4) = None
    \<and> dispatch E (lm_id m) action revision (gw_registry w4) = (gw_registry w4, Inl GOffline)"
proof -
  let ?w3 = "w2\<lparr>gw_registry := fst (invalidate_locked (lm_id m) (gw_registry w2))\<rparr>"
  have p: "ul_print (al_uuid L) (lm_id m) = device" using revoke_revokes(2) [OF revoked] .
  have "handshakes_wf (w\<lparr>gw_db := db1\<rparr>)" using wf by (simp add: handshakes_wf_def)
  then have wf2: "handshakes_wf w2" by (rule handshakes.steps_inv [OF between])
  have "revoked_device device (gw_db w2)"
    using world_steps_revoked [OF between] revoke_revokes(1) [OF revoked] by simp
  moreover have "invalidation_generation (lm_id m) (gw_registry w2) < invalidation_generation (lm_id m) (gw_registry ?w3)"
    using saturating_grows(2) [OF bound] by (simp add: invalidate_locked_def invalidation_generation_def counter_update)
  ultimately have "shut_out device (lm_id m) ?w3"
    using wf2 unfolding shut_out_def handshakes_wf_def
    by (auto simp: invalidate_locked_def delete_conv' intro: le_less_trans)
  then have "shut_out device (lm_id m) w4" using world_steps_shut_out [OF later, of "lm_id m"] p by simp
  then show ?thesis by (simp add: shut_out_def connection_def dispatch_def dispatch_locked_def)
qed

section \<open>Association lists of pending requests\<close>

lemma delete_pending:
  assumes "distinct (map fst al)" "map_of al k = Some v"
  shows "mset (map (\<lambda>(_, p). f p) al) = {#f v#} + mset (map (\<lambda>(_, p). f p) (AList.delete k al))"
  using assms
proof (induction al)
  case (Cons x al)
  show ?case
  proof (cases "fst x = k")
    case True
    then have "k \<notin> fst ` set al" using Cons.prems(1) by auto
    then have "AList.delete k al = al" by (intro delete_id)
    then show ?thesis using True Cons.prems(2) by (cases x) (simp add: AList.delete_eq)
  next
    case False
    then show ?thesis using Cons by (cases x) (simp add: AList.delete_eq)
  qed
qed simp

lemma update_pending:
  assumes "distinct (map fst al)" "map_of al k = Some v" "f v' = f v"
  shows "map (\<lambda>(_, p). f p) (AList.update k v' al) = map (\<lambda>(_, p). f p) al"
  using assms by (induction al) (auto split: if_splits)

lemma exchange_pending:
  assumes "distinct (map fst al)" "map_of al k = Some v"
  shows "{#f v#} + mset (map (\<lambda>(_, p). f p) (AList.update k v' al)) = {#f v'#} + mset (map (\<lambda>(_, p). f p) al)"
  using assms by (induction al) (auto split: if_splits)

lemma update_new: "k \<notin> fst ` set al \<Longrightarrow> AList.update k v al = al @ [(k, v)]"
  by (induction al) auto

lemma length_update_same: "map_of al k = Some v \<Longrightarrow> length (AList.update k v' al) = length al"
  by (induction al) (auto split: if_splits)

lemma set_update_subset: "set (AList.update k v al) \<subseteq> insert (k, v) (set al)"
  by (induction al) auto

lemma origin_cong:
  assumes "se_taken s' = se_taken s" "se_generation s' = se_generation s"
  shows "pending_origin s' p = pending_origin s p" "answer_origin s' x = answer_origin s x"
  by (simp_all add: pending_origin_def answer_origin_def assms)

lemma map_of_mem: "map_of al k = Some v \<Longrightarrow> (k, v) \<in> set al"
  by (rule map_of_SomeD)

lemma session_inv_settle:
  assumes inv: "session_inv s" and p: "map_of (se_pending s) k = Some p"
    and a: "\<And>r. a = Answered (Inr r) \<Longrightarrow> validate_response r = Inr () \<and> kind_matches (pq_expected p) r"
  shows "session_inv (answer_request (pq_response p) a (remove_pending k s))"
proof -
  let ?s = "answer_request (pq_response p) a (remove_pending k s)"
  have d: "distinct (map fst (se_pending s))" using inv by (simp add: session_inv_def)
  have f: "se_pending ?s = AList.delete k (se_pending s)" "se_taken ?s = se_taken s" "se_ping_ids ?s = se_ping_ids s"
      "se_answers ?s = se_answers s @ [(pq_response p, a)]" "se_generation ?s = se_generation s"
    by (simp_all add: answer_request_def remove_pending_def)
  have origin: "pending_origin s p" using inv map_of_mem [OF p] by (auto simp: session_inv_def)
  have "answer_origin s (pq_response p, a)"
    using a origin by (auto simp: answer_origin_def pending_origin_def)
  moreover have "waiting s = {#pq_response p#} + waiting ?s"
    using delete_pending [OF d p, of pq_response] by (simp add: waiting_def f)
  moreover have "set (AList.delete k (se_pending s)) \<subseteq> set (se_pending s)" by (auto simp: AList.delete_eq)
  moreover have "length (AList.delete k (se_pending s)) \<le> length (se_pending s)" by (rule length_delete_le)
  ultimately show ?thesis
    using inv d unfolding session_inv_def f origin_cong [OF f(2,5)]
    by (auto simp: distinct_delete)
qed

section \<open>Every event keeps the account\<close>

lemma session_inv_cong:
  assumes "session_inv s" "se_pending s' = se_pending s" "se_taken s' = se_taken s"
    "se_answers s' = se_answers s" "se_generation s' = se_generation s" "length (se_ping_ids s') \<le> 3"
  shows "session_inv s'"
  using assms(1,6) unfolding session_inv_def waiting_def assms(2,3,4) origin_cong [OF assms(3,5)] by blast

lemma send_frame_inv:
  assumes "session_inv s"
  shows "session_inv (fst (send_frame E fr s))"
    "se_pending (fst (send_frame E fr s)) = se_pending s" "se_generation (fst (send_frame E fr s)) = se_generation s"
    "se_taken (fst (send_frame E fr s)) = se_taken s" "se_answers (fst (send_frame E fr s)) = se_answers s"
    "se_ping_ids (fst (send_frame E fr s)) = se_ping_ids s"
proof -
  show f: "se_pending (fst (send_frame E fr s)) = se_pending s" "se_generation (fst (send_frame E fr s)) = se_generation s"
    "se_taken (fst (send_frame E fr s)) = se_taken s" "se_answers (fst (send_frame E fr s)) = se_answers s"
    "se_ping_ids (fst (send_frame E fr s)) = se_ping_ids s"
    by (simp_all add: send_frame_def split: sum.splits socket_send.splits)
  have "length (se_ping_ids s) \<le> 3" using assms by (simp add: session_inv_def)
  then show "session_inv (fst (send_frame E fr s))" using f by (intro session_inv_cong [OF assms]) simp_all
qed

lemma handle_ack_inv:
  assumes "session_inv s"
  shows "session_inv (fst (handle_ack E ack s))"
proof (cases "map_of (se_pending s) (ra_request_id ack)")
  case None
  then show ?thesis using assms by (simp add: handle_ack_def)
next
  case (Some p)
  let ?k = "ra_request_id ack" and ?p = "p\<lparr>pq_acknowledged := True\<rparr>"
  let ?s = "s\<lparr>se_pending := AList.update ?k ?p (se_pending s)\<rparr>"
  have d: "distinct (map fst (se_pending s))" using assms by (simp add: session_inv_def)
  have settled: "session_inv (answer_request (pq_response p) (Answered (Inl e)) (remove_pending ?k s))" for e
    by (rule session_inv_settle [OF assms Some]) simp
  have "session_inv ?s"
  proof -
    have w: "waiting ?s = waiting s"
      using update_pending [OF d Some, of pq_response ?p] by (simp add: waiting_def)
    have o: "pending_origin s ?p = pending_origin s p" by (simp add: pending_origin_def)
    have "\<forall>x \<in> set (AList.update ?k ?p (se_pending s)). pending_origin s (snd x)"
      using assms o set_update_subset [of ?k ?p "se_pending s"] map_of_mem [OF Some] by (fastforce simp: session_inv_def)
    then show ?thesis
      using assms w length_update_same [OF Some] distinct_update [OF d]
      unfolding session_inv_def origin_cong [of ?s s, simplified] by simp
  qed
  then show ?thesis using assms Some settled by (auto simp: handle_ack_def)
qed

lemma handle_response_inv:
  assumes "session_inv s" "validate_response (rx_result response) = Inr ()"
  shows "session_inv (fst (handle_response E response s))"
proof (cases "map_of (se_pending s) (rx_request_id response)")
  case None
  then show ?thesis using assms by (simp add: handle_response_def)
next
  case (Some p)
  have "session_inv (answer_request (pq_response p) (Answered (Inr (rx_result response)))
      (remove_pending (rx_request_id response) s))" if "kind_matches (pq_expected p) (rx_result response)"
    using that assms(2) by (intro session_inv_settle [OF assms(1) Some]) auto
  moreover have "session_inv (answer_request (pq_response p) (Answered (Inl e)) (remove_pending (rx_request_id response) s))" for e
    by (rule session_inv_settle [OF assms(1) Some]) simp
  ultimately show ?thesis using assms(1) Some by (simp add: handle_response_def Let_def)
qed

lemma handle_error_inv:
  assumes "session_inv s"
  shows "session_inv (fst (handle_error E error s))"
proof (cases "map_of (se_pending s) (re_request_id error)")
  case None
  then show ?thesis using assms by (simp add: handle_error_def)
next
  case (Some p)
  have "session_inv (answer_request (pq_response p) (Answered (Inl e)) (remove_pending (re_request_id error) s))" for e
    by (rule session_inv_settle [OF assms Some]) simp
  then show ?thesis using assms Some by (auto simp: handle_error_def Let_def)
qed

lemma handle_pong_inv:
  assumes "session_inv (fst st)"
  shows "session_inv (fst (fst (handle_pong E pong st)))"
proof -
  have "length (tl (dropWhile P xs)) \<le> 3" if "length xs \<le> 3" for P and xs :: "string list"
    using that length_dropWhile_le [of P xs] by simp
  moreover have "length (se_ping_ids (fst st)) \<le> 3" using assms by (simp add: session_inv_def)
  ultimately have "session_inv (fst st\<lparr>se_ping_ids := tl (dropWhile (\<lambda>p. p \<noteq> po_ping_id pong) (se_ping_ids (fst st))),
      se_last_pong := sn_instant E\<rparr>)"
    by (intro session_inv_cong [OF assms]) simp_all
  then show ?thesis using assms by (cases st) (simp add: handle_pong_def)
qed

lemma handle_client_message_inv:
  assumes "session_inv (fst st)"
  shows "session_inv (fst (fst (handle_client_message E message st)))"
proof -
  have "session_inv (fst (fst (handle_client_frame E fr st)))"
    if "decode_client_frame (sn_uuid E) (sn_json E) t = Inr fr" for t fr
  proof -
    have "validate_client_frame (sn_uuid E) fr = Inr ()"
      using that by (auto simp: decode_client_frame_def and_then_eq_Inr split: if_splits)
    then have "validate_response (rx_result x) = Inr ()" if "fr = Response x" for x
      using that by (auto simp: validate_client_frame_def and_then_eq_Inr)
    then show ?thesis
      using assms handle_ack_inv handle_error_inv handle_pong_inv handle_response_inv
      by (cases fr) (simp_all add: handle_client_frame_def on_session_def)
  qed
  then show ?thesis using assms
    by (auto simp: handle_client_message_def split: socket_message.splits sum.splits socket_send.splits)
qed

lemma origin_more:
  assumes "set (se_taken s) \<subseteq> set (se_taken s')" "se_generation s' = se_generation s"
  shows "pending_origin s p \<Longrightarrow> pending_origin s' p" "answer_origin s x \<Longrightarrow> answer_origin s' x"
  using assms unfolding pending_origin_def answer_origin_def by auto

lemma session_inv_taken:
  assumes inv: "session_inv s" and a: "\<And>r. a \<noteq> Answered (Inr r)"
  shows "session_inv (answer_request (gc_response c) a (s\<lparr>se_taken := se_taken s @ [c]\<rparr>))"
proof -
  let ?t = "answer_request (gc_response c) a (s\<lparr>se_taken := se_taken s @ [c]\<rparr>)"
  have f: "se_pending ?t = se_pending s" "se_answers ?t = se_answers s @ [(gc_response c, a)]" "waiting ?t = waiting s"
      "se_taken ?t = se_taken s @ [c]" "se_generation ?t = se_generation s" "se_ping_ids ?t = se_ping_ids s"
    by (simp_all add: answer_request_def waiting_def)
  have o: "set (se_taken s) \<subseteq> set (se_taken ?t)" by (auto simp: f)
  have "answer_origin ?t (gc_response c, a)" using a by (simp add: answer_origin_def)
  then show ?thesis using inv origin_more [OF o f(5)]
    unfolding session_inv_def f by auto
qed

lemma insert_pending_inv:
  assumes inv: "session_inv s" and small: "length (se_pending s) < max_gateway_pending_requests"
    and p: "pq_response p = gc_response c" "pq_expected p = kind_of_action (gc_action c)" "gc_generation c = se_generation s"
  shows "session_inv (insert_pending k p (s\<lparr>se_taken := se_taken s @ [c]\<rparr>))"
proof (cases "map_of (se_pending s) k")
  let ?t = "insert_pending k p (s\<lparr>se_taken := se_taken s @ [c]\<rparr>)"
  case None
  then have "k \<notin> fst ` set (se_pending s)" by (simp add: map_of_eq_None_iff)
  then have f: "se_pending ?t = se_pending s @ [(k, p)]" "se_answers ?t = se_answers s" "se_taken ?t = se_taken s @ [c]"
      "se_generation ?t = se_generation s" "se_ping_ids ?t = se_ping_ids s" "waiting ?t = add_mset (gc_response c) (waiting s)"
    using None p(1) by (simp_all add: insert_pending_def waiting_def update_new)
  have o: "set (se_taken s) \<subseteq> set (se_taken ?t)" by (auto simp: f)
  have "pending_origin ?t p" using p by (simp add: pending_origin_def f)
  then show ?thesis using inv small origin_more [OF o f(4)] \<open>k \<notin> _\<close>
    unfolding session_inv_def f by auto
next
  let ?t = "insert_pending k p (s\<lparr>se_taken := se_taken s @ [c]\<rparr>)"
  case (Some old)
  have d: "distinct (map fst (se_pending s))" using inv by (simp add: session_inv_def)
  have f: "se_pending ?t = AList.update k p (se_pending s)" "se_answers ?t = se_answers s @ [(pq_response old, Dropped)]"
      "se_taken ?t = se_taken s @ [c]" "se_generation ?t = se_generation s" "se_ping_ids ?t = se_ping_ids s"
    using Some by (simp_all add: insert_pending_def answer_request_def)
  have w: "{#pq_response old#} + waiting ?t = {#gc_response c#} + waiting s"
    using exchange_pending [OF d Some, of pq_response p] p(1) by (simp add: waiting_def f)
  have "mset (map gc_response (se_taken ?t)) = mset (map fst (se_answers s)) + waiting s + {#gc_response c#}"
    using inv by (simp add: session_inv_def f)
  also have "\<dots> = mset (map fst (se_answers ?t)) + waiting ?t" using w by (simp add: f add.assoc add.commute)
  finally have account: "mset (map gc_response (se_taken ?t)) = mset (map fst (se_answers ?t)) + waiting ?t" .
  have o: "set (se_taken s) \<subseteq> set (se_taken ?t)" by (auto simp: f)
  have "pending_origin ?t p" using p by (simp add: pending_origin_def f)
  then have "\<forall>x \<in> insert (k, p) (set (se_pending s)). pending_origin ?t (snd x)"
    using inv origin_more(1) [OF o f(4)] unfolding session_inv_def by auto
  then have "\<forall>x \<in> set (AList.update k p (se_pending s)). pending_origin ?t (snd x)"
    using set_update_subset [of k p "se_pending s"] by blast
  moreover have "answer_origin ?t (pq_response old, Dropped)" by (simp add: answer_origin_def)
  then have "\<forall>x \<in> set (se_answers ?t). answer_origin ?t x"
    using inv origin_more(2) [OF o f(4)] unfolding session_inv_def f(2) by auto
  ultimately show ?thesis
    using inv account length_update_same [OF Some] distinct_update [OF d]
    unfolding session_inv_def f(1,5) by simp
qed

lemma handle_command_inv:
  assumes "session_inv s"
  shows "session_inv (fst (handle_command E c s))"
proof -
  let ?s = "s\<lparr>se_taken := se_taken s @ [c]\<rparr>"
  let ?fr = "Request \<lparr>rq_request_id = sn_new_id E, rq_generation = se_generation s, rq_issued_at = gc_issued_at c,
     rq_expires_at = gc_expires_at c, rq_action = gc_action c\<rparr>"
  let ?p = "\<lparr>pq_expires_at = gc_expires_at c, pq_deadline = gc_deadline c, pq_acknowledged = False,
     pq_expected = kind_of_action (gc_action c), pq_response = gc_response c\<rparr>"
  have refused: "session_inv (answer_request (gc_response c) (Answered (Inl e)) ?s)" for e
    by (rule session_inv_taken [OF assms]) simp
  have sent: "fst (send_frame E ?fr ?s) = fst (send_frame E ?fr s)\<lparr>se_taken := se_taken s @ [c]\<rparr>"
    "snd (send_frame E ?fr ?s) = snd (send_frame E ?fr s)"
    by (simp_all add: send_frame_def split: sum.splits socket_send.splits)
  note inv = send_frame_inv [OF assms, of E ?fr]
  have dropped: "session_inv (answer_request (gc_response c) Dropped (fst (send_frame E ?fr ?s)))"
    using session_inv_taken [OF inv(1), of Dropped c] by (simp add: sent inv)
  have kept: "session_inv (insert_pending (sn_new_id E) ?p (fst (send_frame E ?fr ?s)))"
    if "length (se_pending s) < max_gateway_pending_requests" "gc_generation c = se_generation s"
    using insert_pending_inv [OF inv(1), of ?p c "sn_new_id E"] that by (simp add: sent inv)
  show ?thesis unfolding handle_command_def Let_def
    using refused dropped kept by (cases "send_frame E ?fr ?s"; cases "snd (send_frame E ?fr ?s)") (simp_all add: not_le)
qed

lemma settle_all_inv:
  assumes inv: "session_inv s"
  shows "session_inv (s\<lparr>se_pending := filter (\<lambda>(_, p). \<not> P p) (se_pending s),
      se_answers := se_answers s @ map (\<lambda>(_, p). (pq_response p, Answered (Inl e))) (filter (\<lambda>(_, p). P p) (se_pending s))\<rparr>)"
    (is "session_inv ?t")
proof -
  have "mset (map (\<lambda>(_, p). pq_response p) al)
      = mset (map fst (map (\<lambda>(_, p). (pq_response p, Answered (Inl e))) (filter (\<lambda>(_, p). P p) al)))
      + mset (map (\<lambda>(_, p). pq_response p) (filter (\<lambda>(_, p). \<not> P p) al))" for al :: "(string \<times> pending_request) list"
    by (induction al) auto
  then have w: "mset (map fst (se_answers s)) + waiting s = mset (map fst (se_answers ?t)) + waiting ?t"
    by (simp add: waiting_def add.assoc)
  have o: "pending_origin ?t p = pending_origin s p" "answer_origin ?t x = answer_origin s x" for p x
    by (rule origin_cong; simp)+
  have "answer_origin s (r, Answered (Inl e))" for r by (simp add: answer_origin_def)
  then have "\<forall>x \<in> set (se_answers ?t). answer_origin s x" using inv by (auto simp: session_inv_def)
  moreover have "\<forall>x \<in> set (se_pending ?t). pending_origin s (snd x)" using inv by (auto simp: session_inv_def)
  moreover have "distinct (map fst (se_pending ?t))" using inv by (simp add: session_inv_def distinct_map_filter)
  moreover have "length (se_pending ?t) \<le> max_gateway_pending_requests"
    using inv by (simp add: session_inv_def) (meson length_filter_le order_trans)
  ultimately show ?thesis using inv w unfolding session_inv_def o by simp
qed

lemma expire_pending_inv: "session_inv s \<Longrightarrow> session_inv (expire_pending E s)"
  unfolding expire_pending_def by (rule settle_all_inv)

lemma drain_pending_inv: "session_inv s \<Longrightarrow> session_inv (drain_pending s)"
  using settle_all_inv [of s GDisconnected "\<lambda>_. True"] by (simp add: drain_pending_def)

lemma heartbeat_inv:
  assumes "session_inv s"
  shows "session_inv (fst (heartbeat E s))"
proof -
  have "session_inv (s\<lparr>se_ping_ids := drop (length (se_ping_ids s) - 2) (se_ping_ids s) @ [sn_new_id E]\<rparr>)"
    by (rule session_inv_cong [OF assms]) simp_all
  from send_frame_inv(1) [OF this] show ?thesis
    using assms by (auto simp: heartbeat_def Let_def split: prod.splits sum.splits) (metis fst_conv)+
qed

lemma handle_event_inv:
  assumes "session_inv (fst st)"
  shows "session_inv (fst (fst (handle_event L lease E ev st)))"
  using assms handle_client_message_inv [OF assms] handle_command_inv [OF assms] heartbeat_inv [OF assms]
    expire_pending_inv [OF assms] send_frame_inv(1) [OF assms]
  by (auto simp: handle_event_def on_session_def split: session_event.splits option.splits gateway_control.splits sum.splits)

lemma session_events_inv:
  "session_inv (fst st) \<Longrightarrow> session_inv (fst (fst (session_events L lease evs st)))"
proof (induction evs arbitrary: st)
  case (Cons x evs)
  then show ?case
    using handle_event_inv [of "(fst st, sn_meanwhile (fst x) (snd st))" L lease "fst x" "snd x"]
    by (auto simp: st_then_def split: prod.splits sum.splits)
qed simp

lemma new_session_inv: "session_inv (new_session d g now)"
  by (simp add: session_inv_def new_session_def waiting_def)

text \<open>
  C0: a session that ends, whatever the order of its events, has answered every command it took exactly
  once, a dropped channel counted as an answer. A positive answer goes only to a command of the
  session's own generation, has the kind that command asked for and passed the validation of responses.
\<close>

theorem every_request_answered_once:
  assumes "session_loop L lease evs (new_session device_id registration now, reg) = ((s, reg'), Some stop)"
  shows "mset (map fst (se_answers s)) = mset (map gc_response (se_taken s))
    \<and> (\<forall>response r. (response, Answered (Inr r)) \<in> set (se_answers s) \<longrightarrow>
         validate_response r = Inr () \<and> (\<exists>c \<in> set (se_taken s). gc_response c = response
           \<and> gc_generation c = se_generation s \<and> kind_matches (kind_of_action (gc_action c)) r))"
proof -
  let ?r = "session_events L lease evs (new_session device_id registration now, reg)"
  have "session_inv (fst (fst ?r))" by (rule session_events_inv) (simp add: new_session_inv)
  then have "session_inv (drain_pending (fst (fst ?r)))" by (rule drain_pending_inv)
  moreover have s: "s = drain_pending (fst (fst ?r))"
    using assms by (auto simp: session_loop_def split: prod.splits sum.splits)
  ultimately have inv: "session_inv s" by simp
  moreover have "waiting s = {#}" by (simp add: s drain_pending_def waiting_def)
  ultimately have "mset (map fst (se_answers s)) = mset (map gc_response (se_taken s))"
    by (simp add: session_inv_def)
  moreover have "\<forall>x \<in> set (se_answers s). answer_origin s x" using inv by (simp add: session_inv_def)
  ultimately show ?thesis by (fastforce simp: answer_origin_def)
qed

section \<open>Authorized requests\<close>

lemma current_authorization_ok:
  assumes "current_authorization L d required expected db = Inr lease"
  shows "gateway_authorization_state L d db = Inr (GatewayActive lease)"
    "ScGatewayConnect \<in> ls_scopes lease" "required \<in> ls_scopes lease"
    "\<And>r. expected = Some r \<Longrightarrow> r = ls_credential_revision lease"
proof -
  obtain state where "gateway_authorization_state L d db = Inr state"
    using assms by (auto simp: current_authorization_def and_then_eq_Inr)
  then show "gateway_authorization_state L d db = Inr (GatewayActive lease)"
    "ScGatewayConnect \<in> ls_scopes lease" "required \<in> ls_scopes lease"
    "\<And>r. expected = Some r \<Longrightarrow> r = ls_credential_revision lease"
    using assms
    by (cases state; auto simp: current_authorization_def map_err_def split: if_splits)+
qed

lemma dispatch_ok:
  assumes "dispatch E d action (Some revision) reg = (reg', Inr result)"
  shows "\<exists>e. map_of (rg_active reg) d = Some e \<and> en_authorization_revision e = revision
    \<and> supports_action (gs_capabilities (en_snapshot e)) action"
  using assms
  by (auto simp: dispatch_def dispatch_locked_def and_then_def split: option.splits sum.splits if_splits)

lemma authorized_request_ok:
  assumes "authorized_request L Q d required remote expected rv convert reg = (reg', Inr result)"
  shows "\<exists>before after e. current_authorization L d required rv (qe_db_before Q) = Inr before
    \<and> current_authorization L d required (Some (ls_credential_revision before)) (qe_db_after Q) = Inr after
    \<and> map_of (rg_active reg) d = Some e \<and> en_authorization_revision e = ls_credential_revision before
    \<and> supports_action (gs_capabilities (en_snapshot e)) remote"
proof -
  obtain before where b: "current_authorization L d required rv (qe_db_before Q) = Inr before"
    using assms by (auto simp: authorized_request_def split: sum.splits)
  obtain reg1 r where r: "dispatch (qe_dispatch Q) d remote (Some (ls_credential_revision before)) reg = (reg1, Inr r)"
    using assms b by (auto simp: authorized_request_def st_then_def split: prod.splits sum.splits)
  then obtain after where "current_authorization L d required (Some (ls_credential_revision before)) (qe_db_after Q) = Inr after"
    using assms b by (auto simp: authorized_request_def st_then_def split: sum.splits)
  then show ?thesis using b dispatch_ok [OF r] by blast
qed

text \<open>
  C0: when a request to start or to cancel a run succeeds, the device was active with the scopes
  \<open>gateway:connect\<close> and \<open>job:control\<close> before the request was sent and after its answer came, its
  credential revision was the same both times, the one the caller expected and the one its connection
  was registered with, and that connection has the capabilities the action needs.
\<close>

theorem control_requires_authorization:
  assumes "request_control_with_revision L Q device_id action expected reg = (reg', Inr result)"
  shows "\<exists>before after e. gateway_authorization_state L device_id (qe_db_before Q) = Inr (GatewayActive before)
    \<and> gateway_authorization_state L device_id (qe_db_after Q) = Inr (GatewayActive after)
    \<and> {ScGatewayConnect, ScRunControl} \<subseteq> ls_scopes before \<inter> ls_scopes after
    \<and> ls_credential_revision after = ls_credential_revision before
    \<and> (\<forall>r. expected = Some r \<longrightarrow> r = ls_credential_revision before)
    \<and> map_of (rg_active reg) device_id = Some e \<and> en_authorization_revision e = ls_credential_revision before
    \<and> supports_action (gs_capabilities (en_snapshot e)) (action_from_control action)"
proof -
  have "authorized_request L Q device_id ScRunControl (action_from_control action)
      (kind_of_action (action_from_control action)) expected control_result_try_from reg = (reg', Inr result)"
    using assms by (auto simp: request_control_with_revision_def st_then_def split: sum.splits)
  from authorized_request_ok [OF this] obtain before after e where
    b: "current_authorization L device_id ScRunControl expected (qe_db_before Q) = Inr before"
    and a: "current_authorization L device_id ScRunControl (Some (ls_credential_revision before)) (qe_db_after Q) = Inr after"
    and e: "map_of (rg_active reg) device_id = Some e" "en_authorization_revision e = ls_credential_revision before"
      "supports_action (gs_capabilities (en_snapshot e)) (action_from_control action)" by blast
  show ?thesis
    using current_authorization_ok [OF b] current_authorization_ok [OF a] e by auto
qed

lemma invalidated_handshake_sends_no_policy_frame:
  "policy_frame_out E (registration_stop L device_id lease db PolicyInvalidated) = []
   \<and> close_code (registration_stop L device_id lease db PolicyInvalidated) = Some (4003, ''policy_revoked'')"
  by (simp add: registration_stop_def policy_frame_out_def close_code_def encode_server_frame_def validate_server_frame_def
      check_generation_def)

lemma demo_authorized:
  assumes "expected \<in> {None, Some (ls_credential_revision demo_lease)}"
  shows "current_authorization demo_auth_lib 1 ScRunControl expected demo_gateway_db = Inr demo_lease"
  using assms
  by (auto simp: current_authorization_def gateway_authorization_state_def demo_lease_def demo_gateway_db_def demo_device_db_def
      device_by_id_def new_device_def demo_auth_lib_def collect_scopes_def scope_texts_def select_ordered_def
      auth_scope_from_str_def map_err_def)

lemma demo_registry_entry:
  "\<exists>e. map_of (rg_active demo_registry) 1 = Some e \<and> en_authorization_revision e = ls_credential_revision demo_lease
     \<and> gs_capabilities (en_snapshot e) = UNIV \<and> gs_connection_id (en_snapshot e) = 7"
  "map_of (rg_channels demo_registry) 7 = Some (new_channel 1)"
  by (simp_all add: demo_registry_def register_locked_def empty_registry_def invalidation_generation_def counter_def
      u_checked_add_def Let_def)

lemma demo_action_valid:
  "validate_request_action (al_uuid demo_auth_lib) (ACancelRun (cr_run_handle demo_cancel_reply) demo_uuid_text) = Inr ()"
proof -
  have a: "list_all (\<lambda>c. byte_of c < 128) demo_uuid_text" by (simp add: demo_uuid_text_def byte_of_def)
  have "trim_chars (utf8_decode demo_uuid_text) = utf8_decode demo_uuid_text"
    unfolding utf8_decode_ascii [OF a] by (simp add: demo_uuid_text_def trim_chars_def is_whitespace_def byte_of_def)
  then have "check_intent_id (al_uuid demo_auth_lib) demo_uuid_text = Inr ()"
    by (simp add: check_intent_id_def demo_auth_lib_def max_intent_id_bytes_def) (simp add: demo_uuid_text_def)
  moreover have "handle_byte (CHR ''a'')" "handle_byte (CHR ''_'')" "handle_byte (CHR ''r'')" "handle_byte (CHR ''u'')" "handle_byte (CHR ''n'')"
    by (simp_all add: handle_byte_def ascii_alphanumeric_def ascii_lower_def byte_of_def)
  then have "check_handle (cr_run_handle demo_cancel_reply) ''run'' = Inr ()"
    by (simp add: check_handle_def demo_cancel_reply_def list_all_iff)
  ultimately show ?thesis by (simp add: validate_request_action_def)
qed

lemma demo_control:
  "\<exists>reg'. request_control_with_revision demo_auth_lib demo_request_env 1
     (XCancelRun (cr_run_handle demo_cancel_reply) demo_uuid_text) None demo_registry = (reg', Inr (TCancelRun demo_cancel_reply))"
proof -
  obtain e where e: "map_of (rg_active demo_registry) 1 = Some e" "en_authorization_revision e = ls_credential_revision demo_lease"
     "gs_capabilities (en_snapshot e) = UNIV" "gs_connection_id (en_snapshot e) = 7" using demo_registry_entry(1) by blast
  show ?thesis
    by (simp add: request_control_with_revision_def demo_request_env_def demo_action_valid map_err_def st_then_def
        authorized_request_def demo_authorized dispatch_def dispatch_locked_def e supports_action_def has_all_def
        send_command_def demo_registry_entry(2) new_channel_def outbound_queue_capacity_def max_gateway_outbound_queue_def
        await_reply_def kind_matches_def control_result_try_from_def)
qed

theorem control_requires_authorization_witness:
  "\<exists>reg' before. request_control_with_revision demo_auth_lib demo_request_env 1
     (XCancelRun (cr_run_handle demo_cancel_reply) demo_uuid_text) None demo_registry = (reg', Inr (TCancelRun demo_cancel_reply))
   \<and> gateway_authorization_state demo_auth_lib 1 demo_gateway_db = Inr (GatewayActive before) \<and> ScRunControl \<in> ls_scopes before"
proof -
  obtain reg' where r: "request_control_with_revision demo_auth_lib demo_request_env 1
     (XCancelRun (cr_run_handle demo_cancel_reply) demo_uuid_text) None demo_registry = (reg', Inr (TCancelRun demo_cancel_reply))"
    using demo_control by blast
  from control_requires_authorization [OF r] r show ?thesis by (auto simp: demo_request_env_def)
qed

section \<open>Examples\<close>

lemma demo_world_wf: "handshakes_wf demo_world"
  by (simp add: handshakes_wf_def demo_world_def)

theorem revoked_device_stays_disconnected_witness:
  "connection 1 demo_registry \<noteq> None \<and> connection 1 demo_late_registry = None"
proof -
  obtain db1 m where r: "revoke_device_with_outcome (al_uuid demo_auth_lib) (Some 9) demo_uuid_text demo_device_db = (db1, Inr m)"
      and m: "lm_id m = 1" using demo_revoked by blast
  let ?w = "demo_world\<lparr>gw_db := db1\<rparr>"
  have g: "invalidation_generation 1 demo_registry = 0"
    by (simp add: demo_registry_def register_locked_def empty_registry_def invalidation_generation_def counter_def
      u_checked_add_def Let_def)
  let ?w3 = "?w\<lparr>gw_registry := fst (invalidate_locked (lm_id m) (gw_registry ?w))\<rparr>"
  have "(1, \<lparr>pl_authorization = demo_lease, pl_invalidation_generation = 0\<rparr>) \<in> set (gw_leased ?w3)"
    by (simp add: demo_world_def)
  from world_step.register [OF this, of demo_auth_lib "{}" 8 9 "''1.0''" UNIV]
  have step: "world_step demo_auth_lib {} ?w3 (?w3\<lparr>gw_registry := demo_late_registry\<rparr>)"
    by (simp add: demo_late_registry_def demo_world_def m)
  have later: "(world_step demo_auth_lib {})\<^sup>*\<^sup>* ?w3 (?w3\<lparr>gw_registry := demo_late_registry\<rparr>)" using step by simp
  have db: "revoke_device_with_outcome (al_uuid demo_auth_lib) (Some 9) demo_uuid_text (gw_db demo_world) = (db1, Inr m)"
    using r by (simp add: demo_world_def)
  have small: "invalidation_generation (lm_id m) (gw_registry ?w) \<noteq> - 1" using g m by (simp add: demo_world_def)
  have "connection (lm_id m) (gw_registry (?w3\<lparr>gw_registry := demo_late_registry\<rparr>)) = None"
    using revoked_device_stays_disconnected [OF demo_world_wf db rtranclp.rtrancl_refl small later] by blast
  moreover have "connection 1 demo_registry \<noteq> None" using demo_registry_entry(1) by (auto simp: connection_def)
  ultimately show ?thesis using m by simp
qed

lemma demo_info_valid: "validate_response (PGetDeviceInfo demo_device_info) = Inr ()"
proof -
  have a: "list_all (\<lambda>c. byte_of c < 128) ''Desk''" by (simp add: byte_of_def)
  have "safe_text ''Desk'' max_device_name_chars max_device_name_bytes"
    by (simp add: safe_text_def chars_count_def utf8_decode_ascii [OF a] trim_chars_def is_whitespace_def byte_of_def
        max_device_name_chars_def max_device_name_bytes_def forbidden_char_def is_control_def)
  then show ?thesis
    by (simp add: validate_response_def demo_device_info_def gateway_protocol_version_def check_safe_text_def
        check_client_version_def max_client_version_bytes_def ascii_graphic_def byte_of_def check_capabilities_def
        max_capabilities_def)
qed

lemma demo_frames:
  "decode_client_frame (al_uuid demo_auth_lib) demo_json ''ack'' =
     Inr (RequestAck \<lparr>ra_request_id = demo_uuid_text, ra_generation = 1, ra_accepted = True\<rparr>)"
  "decode_client_frame (al_uuid demo_auth_lib) demo_json ''response'' =
     Inr (Response \<lparr>rx_request_id = demo_uuid_text, rx_generation = 1, rx_result = PGetDeviceInfo demo_device_info\<rparr>)"
  "encode_server_frame (al_uuid demo_auth_lib) demo_json (Request \<lparr>rq_request_id = demo_uuid_text, rq_generation = 1,
     rq_issued_at = 10, rq_expires_at = 30010, rq_action = AGetDeviceInfo\<rparr>) = Inr ''frame''"
  using demo_info_valid
  by (simp_all add: decode_client_frame_def demo_json_def check_frame_size_def max_gateway_frame_bytes_def
      max_gateway_response_bytes_def validate_client_frame_def check_uuid_def demo_auth_lib_def check_generation_def is_response_def
      encode_server_frame_def validate_server_frame_def validate_request_action_def check_timestamp_def max_gateway_request_ttl_ms_def
      i64_sub_def wrap_i64_def)

lemma demo_session:
  "\<exists>s reg. session_loop demo_auth_lib demo_lease demo_events
      (new_session 1 \<lparr>gr_connection_id = 7, gr_generation = 1\<rparr> 5, demo_registry) = ((s, reg), Some StopSilent)
    \<and> se_answers s = [(3, Answered (Inr (PGetDeviceInfo demo_device_info))), (4, Answered (Inl GDisconnected))]
    \<and> se_taken s = [demo_command 3, demo_command 4]"
  by (simp add: session_loop_def demo_events_def handle_event_def handle_command_def demo_command_def new_session_def
      demo_env_def send_frame_def demo_frames insert_pending_def Let_def on_session_def st_then_def
      max_gateway_pending_requests_def handle_client_message_def handle_client_frame_def handle_ack_def handle_response_def
      pending_expired_def answer_request_def remove_pending_def kind_matches_def drain_pending_def)

theorem every_request_answered_once_witness:
  "\<exists>s reg. session_loop demo_auth_lib demo_lease demo_events
      (new_session 1 \<lparr>gr_connection_id = 7, gr_generation = 1\<rparr> 5, demo_registry) = ((s, reg), Some StopSilent)
    \<and> se_answers s = [(3, Answered (Inr (PGetDeviceInfo demo_device_info))), (4, Answered (Inl GDisconnected))]
    \<and> mset (map fst (se_answers s)) = mset (map gc_response (se_taken s))"
proof -
  obtain s reg where s: "session_loop demo_auth_lib demo_lease demo_events
      (new_session 1 \<lparr>gr_connection_id = 7, gr_generation = 1\<rparr> 5, demo_registry) = ((s, reg), Some StopSilent)"
      "se_answers s = [(3, Answered (Inr (PGetDeviceInfo demo_device_info))), (4, Answered (Inl GDisconnected))]"
    using demo_session by blast
  from every_request_answered_once [OF s(1)] s show ?thesis by blast
qed

end
