(* ===== verification/Spec2Isabelle.thy ===== *)
theory Spec2Isabelle
  imports Retention_Correct Run_Correct Dispatch_Hold Bundle_Segments Gateway_Correct
begin

text \<open>PromptDock verification.\<close>

end
